theory Spec2Isabelle
  imports
    Main
    "HOL-Library.Word"
    "HOL-Library.AList"
    "HOL-Library.Char_ord"
    "HOL-Library.List_Lexorder"
    "HOL-Library.Sublist"
begin

section \<open>DevMap: the registry of projects and its synchronisation with the file system\<close>

text \<open>
  A shallow embedding of \<^verbatim>\<open>src/include/DevMap.hpp\<close>: the probes \<^verbatim>\<open>getFolderSize\<close> and
  \<^verbatim>\<open>usesGit\<close>, the helpers \<^verbatim>\<open>parseTime\<close>, \<^verbatim>\<open>timeToString\<close> and \<^verbatim>\<open>CreateProject\<close>, and
  \<^verbatim>\<open>syncDevMap\<close>. The global variables of the namespace become one record that every
  operation takes and returns; a C++ exception becomes the left summand of a result.
\<close>

subsection \<open>Exceptions as values\<close>

text \<open>
  \<^verbatim>\<open>fs::filesystem_error\<close> is what \<^verbatim>\<open>std::filesystem\<close> throws; \<^verbatim>\<open>type_error n\<close> is
  \<^verbatim>\<open>nlohmann::json::type_error\<close> with its identifier (302: the value has not the type asked
  for, 305: \<^verbatim>\<open>operator[]\<close> with a key on a value that is neither an object nor null,
  306: \<^verbatim>\<open>value()\<close> on a value that is not an object, 308: \<^verbatim>\<open>push_back\<close> on a value that is
  neither an array nor null).
\<close>

datatype error = filesystem_error | type_error nat

definition bind_result :: "error + 'a \<Rightarrow> ('a \<Rightarrow> error + 'b) \<Rightarrow> error + 'b" where
  "bind_result m f = (case m of Inl e \<Rightarrow> Inl e | Inr x \<Rightarrow> f x)"

subsection \<open>The file system\<close>

text \<open>
  A tree of named entries below the root directory \<^verbatim>\<open>/\<close>. A regular file carries its size
  in bytes, a symbolic link the path text it holds; \<^verbatim>\<open>Special\<close> stands for sockets, pipes
  and devices. The entries of a directory are listed in the order the operating system
  enumerates them. Permissions are not part of the model: a directory cannot be created
  exactly when something that is not a directory stands in the way.
\<close>

datatype node = File nat | Dir "(string \<times> node) list" | Symlink string | Special

record filesys =
  tree :: node
  cwd :: "string list"

text \<open>The node at a location (a list of entry names from the root; no link is followed).\<close>

fun node_at :: "node \<Rightarrow> string list \<Rightarrow> node option" where
  "node_at n [] = Some n"
| "node_at (Dir es) (c # cs) = (case map_of es c of None \<Rightarrow> None | Some m \<Rightarrow> node_at m cs)"
| "node_at n (c # cs) = None"

fun put_at :: "node \<Rightarrow> string list \<Rightarrow> node \<Rightarrow> node" where
  "put_at n [] m = m"
| "put_at (Dir es) (c # cs) m =
     Dir (map (\<lambda>(k, v). if k = c then (k, put_at v cs m) else (k, v)) es)"
| "put_at n (c # cs) m = n"

text \<open>Path texts. \<^verbatim>\<open>path_append p q\<close> is \<^verbatim>\<open>fs::path(p) / q\<close> on a POSIX system.\<close>

definition is_absolute :: "string \<Rightarrow> bool" where
  "is_absolute p = (p \<noteq> [] \<and> hd p = CHR ''/'')"

definition path_append :: "string \<Rightarrow> string \<Rightarrow> string" where
  "path_append p q =
     (if is_absolute q then q
      else if p \<noteq> [] \<and> last p \<noteq> CHR ''/'' then p @ ''/'' @ q
      else p @ q)"

fun components_from :: "string \<Rightarrow> string \<Rightarrow> string list" where
  "components_from w [] = [w]"
| "components_from w (c # cs) =
     (if c = CHR ''/'' then w # components_from [] cs else components_from (w @ [c]) cs)"

definition components :: "string \<Rightarrow> string list" where
  "components p = components_from [] p"

text \<open>
  Path resolution as the kernel does it: an empty component and \<^verbatim>\<open>.\<close> stay in the current
  directory (which must be one, so a trailing slash asks for a directory), \<^verbatim>\<open>..\<close> goes to
  the parent, a symbolic link is followed, at most as many times as the fuel allows
  (\<^verbatim>\<open>ELOOP\<close> after 40 links on Linux). A path that is found gives the location it
  leads to and the number of links that could still have been followed.
\<close>

datatype lookup = Found "string list" nat | Missing | TooManyLinks

fun walk :: "node \<Rightarrow> nat \<Rightarrow> string list \<Rightarrow> string list \<Rightarrow> lookup" where
  "walk t fuel cur [] = Found cur fuel"
| "walk t fuel cur (c # rest) =
     (case node_at t cur of
        Some (Dir es) \<Rightarrow>
          if c = [] \<or> c = ''.'' then walk t fuel cur rest
          else if c = ''..'' then walk t fuel (butlast cur) rest
          else (case map_of es c of
                  None \<Rightarrow> Missing
                | Some (Symlink target) \<Rightarrow>
                    (case fuel of
                       0 \<Rightarrow> TooManyLinks
                     | Suc fuel' \<Rightarrow>
                         if target = [] then Missing
                         else walk t fuel' (if is_absolute target then [] else cur)
                                (components target @ rest))
                | Some other \<Rightarrow> walk t fuel (cur @ [c]) rest)
      | _ \<Rightarrow> Missing)"

definition resolve :: "filesys \<Rightarrow> string \<Rightarrow> lookup" where
  "resolve fs p =
     (if p = [] then Missing
      else walk (tree fs) 40 (if is_absolute p then [] else cwd fs) (components p))"

text \<open>
  \<^verbatim>\<open>fs::status(p)\<close>: the node the path leads to, \<^verbatim>\<open>None\<close> for \<^verbatim>\<open>file_type::not_found\<close>;
  it throws on any error other than a missing entry.
\<close>

definition status :: "filesys \<Rightarrow> string \<Rightarrow> error + node option" where
  "status fs p =
     (case resolve fs p of
        Found loc left \<Rightarrow> Inr (node_at (tree fs) loc)
      | Missing \<Rightarrow> Inr None
      | TooManyLinks \<Rightarrow> Inl filesystem_error)"

definition is_dir_node :: "node option \<Rightarrow> bool" where
  "is_dir_node st = (case st of Some (Dir es) \<Rightarrow> True | _ \<Rightarrow> False)"

definition is_regular_node :: "node option \<Rightarrow> bool" where
  "is_regular_node st = (case st of Some (File sz) \<Rightarrow> True | _ \<Rightarrow> False)"

definition file_size_node :: "node option \<Rightarrow> nat" where
  "file_size_node st = (case st of Some (File sz) \<Rightarrow> sz | _ \<Rightarrow> 0)"

definition exists :: "filesys \<Rightarrow> string \<Rightarrow> error + bool" where
  "exists fs p = bind_result (status fs p) (\<lambda>st. Inr (st \<noteq> None))"

definition is_directory :: "filesys \<Rightarrow> string \<Rightarrow> error + bool" where
  "is_directory fs p = bind_result (status fs p) (\<lambda>st. Inr (is_dir_node st))"

text \<open>
  \<^verbatim>\<open>fs::create_directories(p)\<close>: every missing component is created in turn. The tree
  built so far is returned together with the error, since an exception leaves the
  directories already created in place.
\<close>

fun mkdirs :: "node \<Rightarrow> string list \<Rightarrow> string list \<Rightarrow> error option \<times> node" where
  "mkdirs t cur [] = (None, t)"
| "mkdirs t cur (c # rest) =
     (case walk t 40 cur [c] of
        Found loc left \<Rightarrow>
          (case node_at t loc of
             Some (Dir es) \<Rightarrow> mkdirs t loc rest
           | _ \<Rightarrow> (Some filesystem_error, t))
      | Missing \<Rightarrow>
          (case node_at t cur of
             Some (Dir es) \<Rightarrow>
               if map_of es c = None
               then mkdirs (put_at t cur (Dir (es @ [(c, Dir [])]))) (cur @ [c]) rest
               else (Some filesystem_error, t)
           | _ \<Rightarrow> (Some filesystem_error, t))
      | TooManyLinks \<Rightarrow> (Some filesystem_error, t))"

definition create_directories :: "filesys \<Rightarrow> string \<Rightarrow> error option \<times> filesys" where
  "create_directories fs p =
     (if p = [] then (Some filesystem_error, fs)
      else (case mkdirs (tree fs) (if is_absolute p then [] else cwd fs) (components p) of
              (err, t) \<Rightarrow> (err, fs\<lparr>tree := t\<rparr>)))"

text \<open>
  An open directory: its location, and the number of links that the path it was
  opened by leaves to follow. The path of an entry is the path of the directory and
  the name of the entry, so the links of the directory's path count again whenever an
  entry is looked at.
\<close>

type_synonym place = "string list \<times> nat"

text \<open>
  \<^verbatim>\<open>fs::directory_iterator(p)\<close>: the directory and its entries; it throws when the path
  does not lead to a directory.
\<close>

definition directory_iterator :: "filesys \<Rightarrow> string \<Rightarrow> error + (place \<times> (string \<times> node) list)" where
  "directory_iterator fs p =
     (case resolve fs p of
        Found loc left \<Rightarrow>
          (case node_at (tree fs) loc of
             Some (Dir es) \<Rightarrow> Inr ((loc, left), es)
           | _ \<Rightarrow> Inl filesystem_error)
      | _ \<Rightarrow> Inl filesystem_error)"

text \<open>
  \<^verbatim>\<open>directory_entry::status()\<close> of an entry found in the directory \<open>dir\<close>, which is
  \<^verbatim>\<open>fs::status\<close> of the entry's path: the resolution goes on from the directory. An
  entry that is a symbolic link counts as one link and is followed to its target with
  what is left; any other entry is what it is.
\<close>

definition entry_status :: "filesys \<Rightarrow> place \<Rightarrow> node \<Rightarrow> error + node option" where
  "entry_status fs dir n =
     (case n of
        Symlink target \<Rightarrow>
          (case snd dir of
             0 \<Rightarrow> Inl filesystem_error
           | Suc left \<Rightarrow>
               if target = [] then Inr None
               else (case walk (tree fs) left (if is_absolute target then [] else fst dir)
                            (components target) of
                       Found loc left' \<Rightarrow> Inr (node_at (tree fs) loc)
                     | Missing \<Rightarrow> Inr None
                     | TooManyLinks \<Rightarrow> Inl filesystem_error))
      | other \<Rightarrow> Inr (Some other))"

text \<open>
  \<^verbatim>\<open>fs::recursive_directory_iterator\<close> with its default options: every entry below the
  directory, depth first, a directory before its contents; a symbolic link to a
  directory is listed but not entered. Each entry comes with the directory that holds
  it.
\<close>

fun recursive_entries :: "place \<Rightarrow> (string \<times> node) list \<Rightarrow> (place \<times> string \<times> node) list" where
  "recursive_entries dir [] = []"
| "recursive_entries dir ((name, n) # es) =
     (dir, name, n)
       # (case n of Dir sub \<Rightarrow> recursive_entries (fst dir @ [name], snd dir) sub | _ \<Rightarrow> [])
       @ recursive_entries dir es"

subsection \<open>The probes\<close>

text \<open>
  The loop of \<^verbatim>\<open>getFolderSize\<close>: \<^verbatim>\<open>totalSize\<close> is a \<^verbatim>\<open>size_t\<close>, here of 64 bits, so the
  addition wraps.
\<close>

fun folder_size_loop :: "filesys \<Rightarrow> (place \<times> string \<times> node) list \<Rightarrow> 64 word \<Rightarrow> error + 64 word" where
  "folder_size_loop fs [] totalSize = Inr totalSize"
| "folder_size_loop fs ((dir, name, n) # entries) totalSize =
     bind_result (entry_status fs dir n) (\<lambda>st.
       if is_regular_node st
       then folder_size_loop fs entries (totalSize + of_nat (file_size_node st))
       else folder_size_loop fs entries totalSize)"

definition getFolderSize :: "filesys \<Rightarrow> string \<Rightarrow> error + 64 word" where
  "getFolderSize fs projectfolder =
     bind_result (exists fs projectfolder) (\<lambda>ex.
       if \<not> ex then Inr 0
       else bind_result (is_directory fs projectfolder) (\<lambda>isdir.
         if \<not> isdir then Inr 0
         else bind_result (directory_iterator fs projectfolder) (\<lambda>(loc, es).
           folder_size_loop fs (recursive_entries loc es) 0)))"

definition usesGit :: "filesys \<Rightarrow> string \<Rightarrow> error + bool" where
  "usesGit fs projectfolder =
     (let gitPath = path_append projectfolder ''.git'' in
      bind_result (exists fs gitPath) (\<lambda>ex.
        if \<not> ex then Inr False else is_directory fs gitPath))"

subsection \<open>JSON values (\<^verbatim>\<open>nlohmann::json\<close>)\<close>

text \<open>
  An object is an association list of its members; numbers are integers (the registry
  holds byte counts; floating-point numbers are left out). The operations below are
  the ones \<^verbatim>\<open>DevMap.hpp\<close> calls, each with the exception it throws. What \<^verbatim>\<open>dump(4)\<close>
  writes is determined by the value, so the file is modelled by the value written.
\<close>

datatype json =
    JNull
  | JBool bool
  | JNumber int
  | JString string
  | JArray "json list"
  | JObject "(string \<times> json) list"

definition get_key :: "json \<Rightarrow> string \<Rightarrow> json option" where
  "get_key j key = (case j of JObject members \<Rightarrow> map_of members key | _ \<Rightarrow> None)"

definition contains :: "json \<Rightarrow> string \<Rightarrow> bool" where
  "contains j key = (get_key j key \<noteq> None)"

definition is_array :: "json \<Rightarrow> bool" where
  "is_array j = (case j of JArray xs \<Rightarrow> True | _ \<Rightarrow> False)"

definition elements :: "json \<Rightarrow> json list" where
  "elements j = (case j of JArray xs \<Rightarrow> xs | _ \<Rightarrow> [])"

text \<open>\<^verbatim>\<open>j.contains(key) && j[key].is_array()\<close>, and the array it then iterates.\<close>

definition array_at :: "json \<Rightarrow> string \<Rightarrow> json list option" where
  "array_at j key = (case get_key j key of Some (JArray xs) \<Rightarrow> Some xs | _ \<Rightarrow> None)"

definition get_string :: "json \<Rightarrow> error + string" where
  "get_string j = (case j of JString s \<Rightarrow> Inr s | _ \<Rightarrow> Inl (type_error 302))"

definition push_back :: "json \<Rightarrow> json \<Rightarrow> error + json" where
  "push_back j x =
     (case j of
        JNull \<Rightarrow> Inr (JArray [x])
      | JArray xs \<Rightarrow> Inr (JArray (xs @ [x]))
      | _ \<Rightarrow> Inl (type_error 308))"

text \<open>
  \<^verbatim>\<open>j[key].push_back(x)\<close> through the mutable \<^verbatim>\<open>operator[]\<close>: null becomes an object, a
  missing member is inserted as null first.
\<close>

definition push_back_at :: "json \<Rightarrow> string \<Rightarrow> json \<Rightarrow> error + json" where
  "push_back_at j key x =
     (case j of
        JNull \<Rightarrow> bind_result (push_back JNull x) (\<lambda>v. Inr (JObject [(key, v)]))
      | JObject members \<Rightarrow>
          bind_result (push_back (case map_of members key of None \<Rightarrow> JNull | Some v \<Rightarrow> v) x)
            (\<lambda>v. Inr (JObject (AList.update key v members)))
      | _ \<Rightarrow> Inl (type_error 305))"

text \<open>\<^verbatim>\<open>j[key] = v\<close>.\<close>

definition set_key :: "json \<Rightarrow> string \<Rightarrow> json \<Rightarrow> error + json" where
  "set_key j key v =
     (case j of
        JNull \<Rightarrow> Inr (JObject [(key, v)])
      | JObject members \<Rightarrow> Inr (JObject (AList.update key v members))
      | _ \<Rightarrow> Inl (type_error 305))"

text \<open>
  \<^verbatim>\<open>j.value(key, default)\<close> at the three types the code asks for. \<^verbatim>\<open>value("size", 0)\<close>
  returns an \<^verbatim>\<open>int\<close>: a number is cast to 32 bits, a boolean counts as 0 or 1.
\<close>

definition value_string :: "json \<Rightarrow> string \<Rightarrow> string \<Rightarrow> error + string" where
  "value_string j key dflt =
     (case j of
        JObject members \<Rightarrow>
          (case map_of members key of
             None \<Rightarrow> Inr dflt
           | Some v \<Rightarrow> get_string v)
      | _ \<Rightarrow> Inl (type_error 306))"

definition value_int :: "json \<Rightarrow> string \<Rightarrow> 32 word \<Rightarrow> error + 32 word" where
  "value_int j key dflt =
     (case j of
        JObject members \<Rightarrow>
          (case map_of members key of
             None \<Rightarrow> Inr dflt
           | Some (JNumber n) \<Rightarrow> Inr (word_of_int n)
           | Some (JBool b) \<Rightarrow> Inr (if b then 1 else 0)
           | Some v \<Rightarrow> Inl (type_error 302))
      | _ \<Rightarrow> Inl (type_error 306))"

definition value_bool :: "json \<Rightarrow> string \<Rightarrow> bool \<Rightarrow> error + bool" where
  "value_bool j key dflt =
     (case j of
        JObject members \<Rightarrow>
          (case map_of members key of
             None \<Rightarrow> Inr dflt
           | Some (JBool b) \<Rightarrow> Inr b
           | Some v \<Rightarrow> Inl (type_error 302))
      | _ \<Rightarrow> Inl (type_error 306))"

subsection \<open>Time\<close>

text \<open>
  \<^verbatim>\<open>std::tm\<close> with the fields the format touches, and \<^verbatim>\<open>std::get_time\<close> as libstdc++
  has it since GCC 12. The day of the week and of the year, which the library works
  out from the other fields and \<^verbatim>\<open>std::mktime\<close> does not read, are left out.
\<close>

record tm =
  tm_min :: int
  tm_hour :: int
  tm_mday :: int
  tm_mon :: int
  tm_year :: int

definition tm_zero :: tm where
  "tm_zero = \<lparr>tm_min = 0, tm_hour = 0, tm_mday = 0, tm_mon = 0, tm_year = 0\<rparr>"

definition is_digit :: "char \<Rightarrow> bool" where
  "is_digit c = (c \<in> set ''0123456789'')"

definition digit_value :: "char \<Rightarrow> nat" where
  "digit_value c = of_char c - 48"

definition is_space :: "char \<Rightarrow> bool" where
  "is_space c = (of_char c \<in> {32 :: nat, 9, 10, 11, 12, 13})"

fun extract_digits :: "nat \<Rightarrow> nat \<Rightarrow> nat \<Rightarrow> nat \<Rightarrow> string \<Rightarrow> nat \<times> nat \<times> string" where
  "extract_digits 0 mx i v s = (i, v, s)"
| "extract_digits (Suc len) mx i v [] = (i, v, [])"
| "extract_digits (Suc len) mx i v (c # cs) =
     (if is_digit c
      then (let v' = v * 10 + digit_value c in
            if v' > mx then (i, v', c # cs) else extract_digits len mx (Suc i) v' cs)
      else (i, v, c # cs))"

definition extract_num :: "string \<Rightarrow> nat \<Rightarrow> nat \<Rightarrow> nat \<Rightarrow> (nat \<times> string) option" where
  "extract_num s mn mx len =
     (case extract_digits len mx 0 0 s of
        (i, v, rest) \<Rightarrow> if i \<noteq> 0 \<and> mn \<le> v \<and> v \<le> mx then Some (v, rest) else None)"

text \<open>
  One conversion (\<^verbatim>\<open>time_get::do_get\<close>): at most two digits (four for the year) are
  read and the range is checked. The result is the \<^verbatim>\<open>tm\<close> with the field set and the
  input that is left; \<^verbatim>\<open>None\<close> is the fail bit. The conversions other than those of the
  format \<^verbatim>\<open>%H:%M %d-%m-%Y\<close> are left out, and so is the blank that \<^verbatim>\<open>%d\<close> allows before
  the day: in this format the day follows white space, which is skipped before.
\<close>

definition conversion :: "char \<Rightarrow> string \<Rightarrow> tm \<Rightarrow> (tm \<times> string) option" where
  "conversion conv s t =
     (if conv = CHR ''H'' then
        (case extract_num s 0 23 2 of None \<Rightarrow> None
         | Some (v, rest) \<Rightarrow> Some (t\<lparr>tm_hour := int v\<rparr>, rest))
      else if conv = CHR ''M'' then
        (case extract_num s 0 59 2 of None \<Rightarrow> None
         | Some (v, rest) \<Rightarrow> Some (t\<lparr>tm_min := int v\<rparr>, rest))
      else if conv = CHR ''d'' then
        (case extract_num s 1 31 2 of None \<Rightarrow> None
         | Some (v, rest) \<Rightarrow> Some (t\<lparr>tm_mday := int v\<rparr>, rest))
      else if conv = CHR ''m'' then
        (case extract_num s 1 12 2 of None \<Rightarrow> None
         | Some (v, rest) \<Rightarrow> Some (t\<lparr>tm_mon := int v - 1\<rparr>, rest))
      else if conv = CHR ''Y'' then
        (case extract_num s 0 9999 4 of None \<Rightarrow> None
         | Some (v, rest) \<Rightarrow> Some (t\<lparr>tm_year := int v - 1900\<rparr>, rest))
      else None)"

definition to_lower :: "char \<Rightarrow> char" where
  "to_lower c = (if CHR ''A'' \<le> c \<and> c \<le> CHR ''Z'' then char_of (of_char c + (32 :: nat)) else c)"

text \<open>
  The loop of \<^verbatim>\<open>time_get::get\<close> over the format. It runs while the format is not used up
  and no bit of the state is set. At the head of a round, an input that is used up
  sets the end-of-file bit and the fail bit. A conversion that reads the last character
  of the input sets the end-of-file bit alone: the loop stops there, the rest of the
  format is not looked at, and the fail bit stays clear. White space in the format
  skips the white space of the format and of the input; any other character of the
  format must be the next character of the input, compared without regard to case.
  \<^verbatim>\<open>None\<close> is the fail bit; what follows the last conversion is left unread.
\<close>

function get_time_from :: "string \<Rightarrow> string \<Rightarrow> tm \<Rightarrow> tm option" where
  "get_time_from [] s t = Some t"
| "get_time_from (f # fmt) s t =
     (if s = [] then None
      else if f = CHR ''%'' then
        (case fmt of
           [] \<Rightarrow> None
         | conv # fmt' \<Rightarrow>
             (case conversion conv s t of
                None \<Rightarrow> None
              | Some (t', rest) \<Rightarrow> if rest = [] then Some t' else get_time_from fmt' rest t'))
      else if is_space f then
        get_time_from (dropWhile is_space fmt) (dropWhile is_space s) t
      else if to_lower (hd s) = to_lower f then get_time_from fmt (tl s) t
      else None)"
  by pat_completeness auto

termination get_time_from
  by (relation "measure (\<lambda>(fmt, s, t). length fmt)")
    (auto simp add: less_Suc_eq_le length_dropWhile_le)

text \<open>
  The extraction operator: its sentry skips leading white space first, and sets the
  fail bit when nothing is left.
\<close>

definition get_time :: "string \<Rightarrow> string \<Rightarrow> tm option" where
  "get_time fmt s =
     (let s' = dropWhile is_space s in
      if s' = [] then None else get_time_from fmt s' tm_zero)"

text \<open>
  What the program takes from its surroundings: the two path constants that
  \<^verbatim>\<open>Main.hpp\<close> and the configuration supply, the clock (\<^verbatim>\<open>std::time(nullptr)\<close>, one
  reading for a pass), the time zone (\<^verbatim>\<open>std::mktime\<close>, \<^verbatim>\<open>std::localtime\<close>), and whether
  the registry file can be opened for writing.
\<close>

record env =
  HOME_PATH :: string
  projects_path :: string
  now :: int
  mktime :: "tm \<Rightarrow> int"
  localtime :: "int \<Rightarrow> tm"
  file_opens :: bool

definition parseTime :: "env \<Rightarrow> string \<Rightarrow> int" where
  "parseTime env timeStr =
     (case get_time ''%H:%M %d-%m-%Y'' timeStr of
        None \<Rightarrow> now env
      | Some t \<Rightarrow> mktime env t)"

fun decimal :: "nat \<Rightarrow> string" where
  "decimal n = (if n < 10 then [char_of (48 + n)] else decimal (n div 10) @ [char_of (48 + n mod 10)])"

definition show_int :: "int \<Rightarrow> string" where
  "show_int i = (if i < 0 then CHR ''-'' # decimal (nat (- i)) else decimal (nat i))"

definition two_digits :: "int \<Rightarrow> string" where
  "two_digits i = (if 0 \<le> i \<and> i < 10 then CHR ''0'' # show_int i else show_int i)"

definition strftime :: "tm \<Rightarrow> string" where
  "strftime t =
     two_digits (tm_hour t) @ '':'' @ two_digits (tm_min t) @ '' '' @
     two_digits (tm_mday t) @ ''-'' @ two_digits (tm_mon t + 1) @ ''-'' @
     show_int (tm_year t + 1900)"

definition timeToString :: "env \<Rightarrow> int \<Rightarrow> string" where
  "timeToString env t = strftime (localtime env t)"

subsection \<open>The state of the namespace\<close>

text \<open>
  \<^verbatim>\<open>struct Project\<close>. The fields \<^verbatim>\<open>size\<close> and \<^verbatim>\<open>usesGit\<close> are \<open>size_bytes\<close> and \<open>uses_git\<close>
  here (the first name is a constant of HOL, the second the probe above).
\<close>

record Project =
  name :: string
  folderName :: string
  lang :: string
  createdBy :: string
  createdAt :: int
  size_bytes :: "64 word"
  uses_git :: bool

datatype message = PrintInfo string | PrintError string

text \<open>
  The inline globals, the file system, what \<^verbatim>\<open>Canvas\<close> printed, and the content of the
  registry file (\<^verbatim>\<open>None\<close>: no file that parses), which is taken to lie outside of the
  projects directory. \<^verbatim>\<open>users\<close> is a \<^verbatim>\<open>std::set\<close>: a sorted list without duplicates,
  \<^verbatim>\<open>insort_insert\<close> its \<^verbatim>\<open>insert\<close>. A pass that throws has no state to return: the
  exception leaves \<^verbatim>\<open>syncDevMap\<close> and \<^verbatim>\<open>load\<close>, and nothing is written.
\<close>

record devmap =
  projectsPath :: string
  devmapFileName :: string
  devmapData :: json
  languages :: "string list"
  users :: "string list"
  projects :: "Project list"
  disk :: filesys
  console :: "message list"
  devmapFile :: "json option"

definition what :: "error \<Rightarrow> string" where
  "what e = (case e of filesystem_error \<Rightarrow> ''filesystem error'' | type_error n \<Rightarrow> ''type_error'')"

definition project_path :: "devmap \<Rightarrow> string \<Rightarrow> string \<Rightarrow> string" where
  "project_path st language folder = path_append (path_append (projectsPath st) language) folder"

subsection \<open>\<^verbatim>\<open>CreateProject\<close>\<close>

text \<open>The \<^verbatim>\<open>try\<close> block catches \<^verbatim>\<open>fs::filesystem_error\<close> and reports it.\<close>

definition CreateProject :: "devmap \<Rightarrow> Project \<Rightarrow> devmap" where
  "CreateProject st proj =
     (let projPath = project_path st (lang proj) (folderName proj) in
      case exists (disk st) projPath of
        Inl e \<Rightarrow> st\<lparr>console := console st @ [PrintError (''Error creating project directory: '' @ what e)]\<rparr>
      | Inr ex \<Rightarrow>
          if \<not> ex then
            (case create_directories (disk st) projPath of
               (Some e, d) \<Rightarrow>
                 st\<lparr>disk := d,
                    console := console st @ [PrintError (''Error creating project directory: '' @ what e)]\<rparr>
             | (None, d) \<Rightarrow>
                 st\<lparr>disk := d,
                    console := console st @ [PrintInfo (''Created project directory: '' @ projPath)]\<rparr>)
          else st\<lparr>console := console st @ [PrintInfo (''Project directory already exists: '' @ projPath)]\<rparr>)"

subsection \<open>\<^verbatim>\<open>syncDevMap\<close>, phase by phase\<close>

text \<open>1. Populate the languages vector from JSON and ensure the directories exist.\<close>

fun languages_loop :: "devmap \<Rightarrow> json list \<Rightarrow> error + devmap" where
  "languages_loop st [] = Inr st"
| "languages_loop st (l # rest) =
     bind_result (get_string l) (\<lambda>language.
       let st1 = st\<lparr>languages := languages st @ [language]\<rparr>;
           langPath = path_append (projectsPath st) language in
       bind_result (exists (disk st1) langPath) (\<lambda>ex.
         if \<not> ex then
           (case create_directories (disk st1) langPath of
              (Some e, d) \<Rightarrow> Inl e
            | (None, d) \<Rightarrow>
                languages_loop
                  (st1\<lparr>disk := d,
                       console := console st1 @ [PrintInfo (''Created language directory: '' @ langPath)]\<rparr>)
                  rest)
         else languages_loop st1 rest))"

definition sync_languages :: "devmap \<Rightarrow> error + devmap" where
  "sync_languages st =
     (case array_at (devmapData st) ''Languages'' of
        Some ls \<Rightarrow> languages_loop (st\<lparr>languages := []\<rparr>) ls
      | None \<Rightarrow> Inr st)"

text \<open>2. Scan \<^verbatim>\<open>projectsPath\<close> for language directories not in JSON and update.\<close>

fun scan_loop :: "devmap \<Rightarrow> place \<Rightarrow> (string \<times> node) list \<Rightarrow> error + devmap" where
  "scan_loop st loc [] = Inr st"
| "scan_loop st loc ((langDir, n) # entries) =
     bind_result (entry_status (disk st) loc n) (\<lambda>est.
       if is_dir_node est \<and> langDir \<notin> set (languages st) then
         bind_result (push_back_at (devmapData st) ''Languages'' (JString langDir)) (\<lambda>j.
           scan_loop
             (st\<lparr>languages := languages st @ [langDir],
                 devmapData := j,
                 console := console st @ [PrintInfo (''Added new language from filesystem to DevMap: '' @ langDir)]\<rparr>)
             loc entries)
       else scan_loop st loc entries)"

definition scan_languages :: "devmap \<Rightarrow> error + devmap" where
  "scan_languages st =
     bind_result (directory_iterator (disk st) (projectsPath st)) (\<lambda>(loc, entries).
       scan_loop st loc entries)"

text \<open>3. Populate the projects vector from JSON.\<close>

definition project_of_json :: "env \<Rightarrow> json \<Rightarrow> error + Project" where
  "project_of_json env projData =
     bind_result (value_string projData ''name'' []) (\<lambda>nm.
     bind_result (value_string projData ''folderName'' []) (\<lambda>folder.
     bind_result (value_string projData ''lang'' []) (\<lambda>language.
     bind_result (value_string projData ''created_by'' []) (\<lambda>creator.
     bind_result (value_string projData ''created_at'' []) (\<lambda>createdAtStr.
     bind_result (value_int projData ''size'' 0) (\<lambda>sz.
     bind_result (value_bool projData ''git'' False) (\<lambda>git.
       Inr \<lparr>name = nm, folderName = folder, lang = language, createdBy = creator,
            createdAt = parseTime env createdAtStr, size_bytes = scast sz, uses_git = git\<rparr>)))))))"

fun projects_loop :: "env \<Rightarrow> Project list \<Rightarrow> json list \<Rightarrow> error + Project list" where
  "projects_loop env ps [] = Inr ps"
| "projects_loop env ps (projData # rest) =
     bind_result (project_of_json env projData) (\<lambda>proj. projects_loop env (ps @ [proj]) rest)"

definition load_projects :: "env \<Rightarrow> devmap \<Rightarrow> error + devmap" where
  "load_projects env st =
     (case array_at (devmapData st) ''Projects'' of
        Some ps \<Rightarrow> bind_result (projects_loop env [] ps) (\<lambda>projs. Inr (st\<lparr>projects := projs\<rparr>))
      | None \<Rightarrow> Inr (st\<lparr>projects := []\<rparr>))"

text \<open>4. Ensure each project directory exists; if missing, create it.\<close>

fun ensure_loop :: "devmap \<Rightarrow> Project list \<Rightarrow> error + devmap" where
  "ensure_loop st [] = Inr st"
| "ensure_loop st (proj # rest) =
     (let st1 = st\<lparr>users := insort_insert (createdBy proj) (users st)\<rparr> in
      bind_result (exists (disk st1) (project_path st1 (lang proj) (folderName proj))) (\<lambda>ex.
        if \<not> ex then ensure_loop (CreateProject st1 proj) rest
        else ensure_loop st1 rest))"

definition ensure_directories :: "devmap \<Rightarrow> error + devmap" where
  "ensure_directories st = ensure_loop st (projects st)"

text \<open>
  4.5. Update existing project data (size and Git status) from the file system. The
  inner loop stops at the first project of the vector with the same folder and
  language.
\<close>

fun update_first :: "string \<Rightarrow> string \<Rightarrow> 64 word \<Rightarrow> bool \<Rightarrow> Project list \<Rightarrow> Project list" where
  "update_first folder language currentSize currentUsesGit [] = []"
| "update_first folder language currentSize currentUsesGit (proj # rest) =
     (if folderName proj = folder \<and> lang proj = language
      then proj\<lparr>size_bytes := currentSize, uses_git := currentUsesGit\<rparr> # rest
      else proj # update_first folder language currentSize currentUsesGit rest)"

fun refresh_loop :: "devmap \<Rightarrow> Project list \<Rightarrow> json list \<Rightarrow> error + (json list \<times> Project list)" where
  "refresh_loop st projs [] = Inr ([], projs)"
| "refresh_loop st projs (projData # rest) =
     bind_result (value_string projData ''lang'' []) (\<lambda>language.
     bind_result (value_string projData ''folderName'' []) (\<lambda>folder.
       let projPath = project_path st language folder in
       bind_result (exists (disk st) projPath) (\<lambda>ex.
       bind_result (if ex then is_directory (disk st) projPath else Inr False) (\<lambda>isdir.
         if isdir then
           bind_result (getFolderSize (disk st) projPath) (\<lambda>currentSize.
           bind_result (usesGit (disk st) projPath) (\<lambda>currentUsesGit.
           bind_result (set_key projData ''size'' (JNumber (uint currentSize))) (\<lambda>pd1.
           bind_result (set_key pd1 ''git'' (JBool currentUsesGit)) (\<lambda>pd2.
           bind_result
             (refresh_loop st (update_first folder language currentSize currentUsesGit projs) rest)
             (\<lambda>(rest', projs'). Inr (pd2 # rest', projs'))))))
         else
           bind_result (refresh_loop st projs rest)
             (\<lambda>(rest', projs'). Inr (projData # rest', projs'))))))"

definition refresh_projects :: "devmap \<Rightarrow> error + devmap" where
  "refresh_projects st =
     (case array_at (devmapData st) ''Projects'' of
        Some ps \<Rightarrow>
          bind_result (refresh_loop st (projects st) ps) (\<lambda>(ps', projs').
          bind_result (set_key (devmapData st) ''Projects'' (JArray ps')) (\<lambda>j.
            Inr (st\<lparr>devmapData := j, projects := projs'\<rparr>)))
      | None \<Rightarrow> Inr st)"

text \<open>
  5. For every language directory, add any project directory not listed. The path the
  probes are given is built by string concatenation from \<^verbatim>\<open>Main::HOME_PATH\<close>,
  \<^verbatim>\<open>projectsPath\<close>, the language, a slash and the folder name.
\<close>

definition project_json :: "env \<Rightarrow> Project \<Rightarrow> json" where
  "project_json env newProj =
     JObject
       [(''created_at'', JString (timeToString env (createdAt newProj))),
        (''created_by'', JString (createdBy newProj)),
        (''folderName'', JString (folderName newProj)),
        (''git'', JBool (uses_git newProj)),
        (''lang'', JString (lang newProj)),
        (''name'', JString (name newProj)),
        (''size'', JNumber (uint (size_bytes newProj)))]"

fun discover_loop :: "env \<Rightarrow> devmap \<Rightarrow> string \<Rightarrow> place \<Rightarrow> (string \<times> node) list \<Rightarrow> error + devmap" where
  "discover_loop env st language loc [] = Inr st"
| "discover_loop env st language loc ((folder, n) # entries) =
     bind_result (entry_status (disk st) loc n) (\<lambda>est.
       if is_dir_node est
          \<and> \<not> list_ex (\<lambda>proj. folderName proj = folder \<and> lang proj = language) (projects st)
       then
         (let projectPath = HOME_PATH env @ projectsPath st @ language @ ''/'' @ folder in
          bind_result (getFolderSize (disk st) projectPath) (\<lambda>sz.
          bind_result (usesGit (disk st) projectPath) (\<lambda>git.
            let newProj = \<lparr>name = folder, folderName = folder, lang = language,
                           createdBy = ''unknown'', createdAt = now env,
                           size_bytes = sz, uses_git = git\<rparr> in
            bind_result (push_back_at (devmapData st) ''Projects'' (project_json env newProj)) (\<lambda>j.
              discover_loop env
                (st\<lparr>projects := projects st @ [newProj],
                    devmapData := j,
                    console := console st @
                      [PrintInfo (''Added new project from filesystem to DevMap: '' @ folder @ '' in '' @ language)]\<rparr>)
                language loc entries))))
       else discover_loop env st language loc entries)"

fun discover_languages_loop :: "env \<Rightarrow> devmap \<Rightarrow> string list \<Rightarrow> error + devmap" where
  "discover_languages_loop env st [] = Inr st"
| "discover_languages_loop env st (language # rest) =
     (let langPath = path_append (projectsPath st) language in
      bind_result (exists (disk st) langPath) (\<lambda>ex.
        if \<not> ex then discover_languages_loop env st rest
        else
          bind_result (directory_iterator (disk st) langPath) (\<lambda>(loc, entries).
          bind_result (discover_loop env st language loc entries) (\<lambda>st'.
            discover_languages_loop env st' rest))))"

definition discover_projects :: "env \<Rightarrow> devmap \<Rightarrow> error + devmap" where
  "discover_projects env st = discover_languages_loop env st (languages st)"

text \<open>6. Optionally update the users from JSON.\<close>

fun insert_users :: "string list \<Rightarrow> json list \<Rightarrow> error + string list" where
  "insert_users us [] = Inr us"
| "insert_users us (u # rest) =
     bind_result (get_string u) (\<lambda>user. insert_users (insort_insert user us) rest)"

definition update_users :: "devmap \<Rightarrow> error + devmap" where
  "update_users st =
     (case array_at (devmapData st) ''Users'' of
        Some us \<Rightarrow>
          bind_result (insert_users (users st) us) (\<lambda>us'.
          bind_result (set_key (devmapData st) ''Users'' (JArray (map JString us'))) (\<lambda>j.
            Inr (st\<lparr>users := us', devmapData := j\<rparr>)))
      | None \<Rightarrow> Inr st)"

text \<open>7. Write the updated JSON back to the file.\<close>

definition write_file :: "env \<Rightarrow> devmap \<Rightarrow> devmap" where
  "write_file env st =
     (if file_opens env then st\<lparr>devmapFile := Some (devmapData st)\<rparr>
      else st\<lparr>console := console st @ [PrintError (''Unable to write to DevMap file: '' @ devmapFileName st)]\<rparr>)"

definition syncDevMap :: "env \<Rightarrow> devmap \<Rightarrow> error + devmap" where
  "syncDevMap env st =
     bind_result (sync_languages (st\<lparr>users := []\<rparr>)) (\<lambda>st1.
     bind_result (scan_languages st1) (\<lambda>st2.
     bind_result (load_projects env st2) (\<lambda>st3.
     bind_result (ensure_directories st3) (\<lambda>st4.
     bind_result (refresh_projects st4) (\<lambda>st5.
     bind_result (discover_projects env st5) (\<lambda>st6.
     bind_result (update_users st6) (\<lambda>st7.
       Inr (write_file env st7))))))))"

text \<open>
  \<^verbatim>\<open>load(filename)\<close> without the installation branch: it fixes the file name and
  \<^verbatim>\<open>projectsPath\<close>, reads the file and synchronises; the result is what it returns.
\<close>

definition load :: "env \<Rightarrow> string \<Rightarrow> devmap \<Rightarrow> error + (bool \<times> devmap)" where
  "load env filename st =
     (let st1 = st\<lparr>devmapFileName := filename,
                  projectsPath := HOME_PATH env @ projects_path env\<rparr> in
      case devmapFile st1 of
        None \<Rightarrow> Inr (False, st1)
      | Some j \<Rightarrow>
          bind_result (syncDevMap env (st1\<lparr>devmapData := j\<rparr>)) (\<lambda>st'. Inr (True, st')))"

section \<open>What the specification says, and example inputs\<close>

subsection \<open>Folder size\<close>

text \<open>
  The specification's reading of the folder size: the sizes of the regular files in
  the tree below a directory, where directories, symbolic links and special files add
  nothing of their own; 0 when the path leads to no directory.
\<close>

fun regular_files_total :: "(string \<times> node) list \<Rightarrow> nat" where
  "regular_files_total [] = 0"
| "regular_files_total ((entry, n) # es) =
     (case n of File sz \<Rightarrow> sz | Dir sub \<Rightarrow> regular_files_total sub | _ \<Rightarrow> 0)
       + regular_files_total es"

definition regular_files_under :: "filesys \<Rightarrow> string \<Rightarrow> nat" where
  "regular_files_under fs p =
     (case directory_iterator fs p of Inr (loc, es) \<Rightarrow> regular_files_total es | Inl e \<Rightarrow> 0)"

text \<open>
  What the loop adds up: as above, and a symbolic link that leads to a regular file
  counts with the size of that file.
\<close>

fun followed_total :: "filesys \<Rightarrow> place \<Rightarrow> (string \<times> node) list \<Rightarrow> nat" where
  "followed_total fs dir [] = 0"
| "followed_total fs dir ((entry, n) # es) =
     (case n of
        File sz \<Rightarrow> sz
      | Dir sub \<Rightarrow> followed_total fs (fst dir @ [entry], snd dir) sub
      | Symlink target \<Rightarrow> (case entry_status fs dir n of Inr (Some (File sz)) \<Rightarrow> sz | _ \<Rightarrow> 0)
      | Special \<Rightarrow> 0)
       + followed_total fs dir es"

text \<open>No symbolic link below the directory runs into a chain of links that is too long.\<close>

definition links_resolve :: "filesys \<Rightarrow> place \<Rightarrow> (string \<times> node) list \<Rightarrow> bool" where
  "links_resolve fs dir es =
     list_all (\<lambda>(d, entry, n). entry_status fs d n \<noteq> Inl filesystem_error) (recursive_entries dir es)"

text \<open>
  A disk where \<^verbatim>\<open>/proj\<close> holds one regular file of 7 bytes and a link to a file of 100
  bytes that lies outside of it.
\<close>

definition linked_disk :: filesys where
  "linked_disk =
     \<lparr>tree = Dir [(''data'', Dir [(''big.bin'', File 100)]),
                  (''proj'', Dir [(''link'', Symlink ''/data/big.bin''), (''a.txt'', File 7)])],
      cwd = []\<rparr>"

text \<open>
  A disk where the one entry of \<^verbatim>\<open>/in\<close> is a link that leads, over \<open>n\<close> more links, to a
  file of 9 bytes.
\<close>

definition chain_disk :: "nat \<Rightarrow> filesys" where
  "chain_disk n =
     \<lparr>tree = Dir ([(''in'', Dir [(''e'', Symlink ''/l0'')]), (''end'', File 9)]
                  @ map (\<lambda>i. (''l'' @ decimal i,
                               Symlink (if Suc i = n then ''/end'' else ''/l'' @ decimal (Suc i))))
                      [0..<n]),
      cwd = []\<rparr>"

subsection \<open>Time texts\<close>

text \<open>
  The text \<^verbatim>\<open>HH:MM DD-MM-YYYY\<close> of an hour, a minute, a day, a month and a year: two
  digits each, four for the year.
\<close>

definition digit_char :: "nat \<Rightarrow> char" where
  "digit_char d = char_of (48 + d)"

definition two_digit :: "nat \<Rightarrow> string" where
  "two_digit n = [digit_char (n div 10), digit_char (n mod 10)]"

definition four_digit :: "nat \<Rightarrow> string" where
  "four_digit n =
     [digit_char (n div 1000), digit_char (n div 100 mod 10), digit_char (n div 10 mod 10),
      digit_char (n mod 10)]"

definition time_text :: "nat \<Rightarrow> nat \<Rightarrow> nat \<Rightarrow> nat \<Rightarrow> nat \<Rightarrow> string" where
  "time_text hh mm dd mo yyyy =
     two_digit hh @ '':'' @ two_digit mm @ '' '' @ two_digit dd @ ''-'' @ two_digit mo @ ''-''
       @ four_digit yyyy"

text \<open>
  A text matches the format \<^verbatim>\<open>HH:MM DD-MM-YYYY\<close> when it has a digit wherever the format
  has a letter, and the character of the format everywhere else.
\<close>

fun matches_pattern :: "string \<Rightarrow> string \<Rightarrow> bool" where
  "matches_pattern [] [] = True"
| "matches_pattern (p # ps) (c # cs) =
     ((if p \<in> set ''HMDY'' then is_digit c else c = p) \<and> matches_pattern ps cs)"
| "matches_pattern ps cs = False"

definition matches_format :: "string \<Rightarrow> bool" where
  "matches_format s = matches_pattern ''HH:MM DD-MM-YYYY'' s"

definition succeeds :: "error + 'a \<Rightarrow> bool" where
  "succeeds r = (case r of Inl e \<Rightarrow> False | Inr x \<Rightarrow> True)"

text \<open>The fields of a project record other than \<^verbatim>\<open>created_at\<close> have the types asked for.\<close>

definition other_fields_load :: "json \<Rightarrow> bool" where
  "other_fields_load projData =
     (succeeds (value_string projData ''name'' []) \<and> succeeds (value_string projData ''folderName'' [])
      \<and> succeeds (value_string projData ''lang'' []) \<and> succeeds (value_string projData ''created_by'' [])
      \<and> succeeds (value_int projData ''size'' 0) \<and> succeeds (value_bool projData ''git'' False))"

text \<open>A record whose creation time does not parse, and a clock.\<close>

definition garbage_record :: json where
  "garbage_record =
     JObject [(''name'', JString ''Service''), (''folderName'', JString ''svc''),
              (''lang'', JString ''Go''), (''created_by'', JString ''alice''),
              (''created_at'', JString ''garbage''), (''size'', JNumber 12), (''git'', JBool True)]"

definition clock_env :: env where
  "clock_env =
     \<lparr>HOME_PATH = ''/home/u'', projects_path = ''/Projects/'', now = 1000,
      mktime = (\<lambda>t. tm_year t * 100000000 + tm_mon t * 1000000 + tm_mday t * 10000
                      + tm_hour t * 100 + tm_min t),
      localtime = (\<lambda>t. \<lparr>tm_min = 4, tm_hour = 23, tm_mday = 17, tm_mon = 2, tm_year = 125\<rparr>),
      file_opens = True\<rparr>"

subsection \<open>The registry as data\<close>

text \<open>
  The project records of a registry, the identity of a record (language and folder
  name), the users it lists and the \<^verbatim>\<open>created_by\<close> values of its records.
\<close>

definition declared_projects :: "json \<Rightarrow> json list" where
  "declared_projects j = (case array_at j ''Projects'' of Some ps \<Rightarrow> ps | None \<Rightarrow> [])"

definition record_identity :: "json \<Rightarrow> (string \<times> string) option" where
  "record_identity pd =
     (case value_string pd ''lang'' [] of
        Inl e \<Rightarrow> None
      | Inr language \<Rightarrow>
          (case value_string pd ''folderName'' [] of
             Inl e \<Rightarrow> None
           | Inr folder \<Rightarrow> Some (language, folder)))"

definition string_elements :: "json list \<Rightarrow> string list" where
  "string_elements js = List.map_filter (\<lambda>u. case u of JString s \<Rightarrow> Some s | _ \<Rightarrow> None) js"

definition persisted_users :: "json \<Rightarrow> string list" where
  "persisted_users j = (case array_at j ''Users'' of Some us \<Rightarrow> string_elements us | None \<Rightarrow> [])"

definition created_by_values :: "json \<Rightarrow> string list" where
  "created_by_values j =
     List.map_filter (\<lambda>pd. case value_string pd ''created_by'' [] of Inr s \<Rightarrow> Some s | Inl e \<Rightarrow> None)
       (declared_projects j)"

text \<open>The directory of a record, or of a project of the vector, is there.\<close>

definition record_directory :: "devmap \<Rightarrow> json \<Rightarrow> bool" where
  "record_directory st pd =
     (case record_identity pd of
        None \<Rightarrow> False
      | Some (language, folder) \<Rightarrow> is_directory (disk st) (project_path st language folder) = Inr True)"

definition project_directory :: "devmap \<Rightarrow> Project \<Rightarrow> bool" where
  "project_directory st proj =
     (is_directory (disk st) (project_path st (lang proj) (folderName proj)) = Inr True)"

text \<open>
  What phase 4.5 makes of one record and of one project of the vector: nothing when
  the directory is not there, the two probes written into it when it is.
\<close>

definition refreshed_record :: "devmap \<Rightarrow> json \<Rightarrow> json \<Rightarrow> bool" where
  "refreshed_record st pd pd' =
     (\<exists>language folder.
        value_string pd ''lang'' [] = Inr language \<and> value_string pd ''folderName'' [] = Inr folder
        \<and> (if is_directory (disk st) (project_path st language folder) = Inr True
            then \<exists>sz git pd1.
                   getFolderSize (disk st) (project_path st language folder) = Inr sz
                   \<and> usesGit (disk st) (project_path st language folder) = Inr git
                   \<and> set_key pd ''size'' (JNumber (uint sz)) = Inr pd1
                   \<and> set_key pd1 ''git'' (JBool git) = Inr pd'
            else pd' = pd))"

definition refreshed_project :: "devmap \<Rightarrow> Project \<Rightarrow> Project \<Rightarrow> bool" where
  "refreshed_project st proj proj' =
     (proj' = proj
      \<or> (is_directory (disk st) (project_path st (lang proj) (folderName proj)) = Inr True
         \<and> (\<exists>sz git.
               getFolderSize (disk st) (project_path st (lang proj) (folderName proj)) = Inr sz
               \<and> usesGit (disk st) (project_path st (lang proj) (folderName proj)) = Inr git
               \<and> proj' = proj\<lparr>size_bytes := sz, uses_git := git\<rparr>)))"

subsection \<open>Example registries and disks\<close>

text \<open>
  The state in which \<^verbatim>\<open>load\<close> calls \<^verbatim>\<open>syncDevMap\<close> on a first run: the registry read from
  the file, \<^verbatim>\<open>projectsPath\<close> set from \<^verbatim>\<open>Main::HOME_PATH\<close> and the configuration, empty
  vectors. The examples use \<open>clock_env\<close>: the home directory \<^verbatim>\<open>/home/u\<close>, the projects
  below \<^verbatim>\<open>/home/u/Projects/\<close>.
\<close>

definition loaded :: "env \<Rightarrow> filesys \<Rightarrow> json \<Rightarrow> devmap" where
  "loaded env fs j =
     \<lparr>projectsPath = HOME_PATH env @ projects_path env, devmapFileName = ''devmap.json'',
      devmapData = j, languages = [], users = [], projects = [], disk = fs, console = [],
      devmapFile = Some j\<rparr>"

definition home_disk :: "(string \<times> node) list \<Rightarrow> filesys" where
  "home_disk entries =
     \<lparr>tree = Dir [(''home'', Dir [(''u'', Dir [(''Projects'', Dir entries)])])], cwd = []\<rparr>"

text \<open>
  Scenario 2 of the specification: \<^verbatim>\<open>Python/foo\<close> with three files of 1500 bytes in
  all and no \<^verbatim>\<open>.git\<close>, not declared; and what the pass leaves.
\<close>

definition python_disk :: filesys where
  "python_disk =
     home_disk [(''Python'',
       Dir [(''foo'', Dir [(''a.py'', File 500), (''b.py'', File 400), (''c.py'', File 600)])])]"

definition python_registry :: json where
  "python_registry =
     JObject [(''Languages'', JArray [JString ''Python'']), (''Projects'', JArray []),
              (''Users'', JArray [])]"

definition foo_project :: Project where
  "foo_project =
     \<lparr>name = ''foo'', folderName = ''foo'', lang = ''Python'', createdBy = ''unknown'',
      createdAt = 1000, size_bytes = 0, uses_git = False\<rparr>"

definition python_registry_synced :: json where
  "python_registry_synced =
     JObject [(''Languages'', JArray [JString ''Python'']),
              (''Projects'', JArray [project_json clock_env foo_project]),
              (''Users'', JArray [])]"

definition python_synced :: devmap where
  "python_synced =
     (loaded clock_env python_disk python_registry)
       \<lparr>devmapData := python_registry_synced, languages := [''Python''],
        projects := [foo_project],
        console := [PrintInfo ''Added new project from filesystem to DevMap: foo in Python''],
        devmapFile := Some python_registry_synced\<rparr>"

text \<open>One declared project, \<^verbatim>\<open>Go/svc\<close>, in registries with and without languages and users.\<close>

definition svc_record :: json where
  "svc_record =
     JObject [(''name'', JString ''Service''), (''folderName'', JString ''svc''),
              (''lang'', JString ''Go''), (''created_by'', JString ''alice''),
              (''created_at'', JString ''23:04 17-03-2025''), (''size'', JNumber 12),
              (''git'', JBool True)]"

definition svc_record_refreshed :: "int \<Rightarrow> json" where
  "svc_record_refreshed sz =
     JObject [(''name'', JString ''Service''), (''folderName'', JString ''svc''),
              (''lang'', JString ''Go''), (''created_by'', JString ''alice''),
              (''created_at'', JString ''23:04 17-03-2025''), (''size'', JNumber sz),
              (''git'', JBool False)]"

definition svc_project :: Project where
  "svc_project =
     \<lparr>name = ''Service'', folderName = ''svc'', lang = ''Go'', createdBy = ''alice'',
      createdAt = 12502172304, size_bytes = 12, uses_git = True\<rparr>"

definition go_registry :: json where
  "go_registry =
     JObject [(''Languages'', JArray [JString ''Go'']), (''Projects'', JArray []),
              (''Users'', JArray [])]"

definition svc_registry :: json where
  "svc_registry =
     JObject [(''Languages'', JArray []), (''Projects'', JArray [svc_record]),
              (''Users'', JArray [])]"

definition svc_registry_no_users :: json where
  "svc_registry_no_users =
     JObject [(''Languages'', JArray [JString ''Go'']), (''Projects'', JArray [svc_record])]"

definition svc_registry_bob :: json where
  "svc_registry_bob =
     JObject [(''Languages'', JArray [JString ''Go'']), (''Projects'', JArray [svc_record]),
              (''Users'', JArray [JString ''bob''])]"

text \<open>
  Disks: the directory of the project with one file of 40 bytes; a dangling link in
  the place of the language directory; a dangling link in the place of the project
  directory.
\<close>

definition svc_disk :: filesys where
  "svc_disk = home_disk [(''Go'', Dir [(''svc'', Dir [(''main.go'', File 40)])])]"

definition dangling_language_disk :: filesys where
  "dangling_language_disk = home_disk [(''Go'', Symlink ''/nowhere'')]"

definition dangling_project_disk :: filesys where
  "dangling_project_disk = home_disk [(''Go'', Dir [(''svc'', Symlink ''/nowhere'')])]"

text \<open>What a pass leaves of the registries on \<open>svc_disk\<close>.\<close>

definition svc_registry_no_users_synced :: json where
  "svc_registry_no_users_synced =
     JObject [(''Languages'', JArray [JString ''Go'']),
              (''Projects'', JArray [svc_record_refreshed 40])]"

definition svc_synced_no_users :: devmap where
  "svc_synced_no_users =
     (loaded clock_env svc_disk svc_registry_no_users)
       \<lparr>devmapData := svc_registry_no_users_synced, languages := [''Go''], users := [''alice''],
        projects := [svc_project\<lparr>size_bytes := 40, uses_git := False\<rparr>],
        devmapFile := Some svc_registry_no_users_synced\<rparr>"

definition svc_registry_bob_synced :: json where
  "svc_registry_bob_synced =
     JObject [(''Languages'', JArray [JString ''Go'']),
              (''Projects'', JArray [svc_record_refreshed 40]),
              (''Users'', JArray [JString ''alice'', JString ''bob''])]"

definition svc_synced_bob :: devmap where
  "svc_synced_bob =
     (loaded clock_env svc_disk svc_registry_bob)
       \<lparr>devmapData := svc_registry_bob_synced, languages := [''Go''],
        users := [''alice'', ''bob''],
        projects := [svc_project\<lparr>size_bytes := 40, uses_git := False\<rparr>],
        devmapFile := Some svc_registry_bob_synced\<rparr>"

text \<open>The state before phase 4.5 of that pass, and after it.\<close>

definition svc_before_refresh :: devmap where
  "svc_before_refresh =
     (loaded clock_env svc_disk svc_registry_bob)
       \<lparr>languages := [''Go''], users := [''alice''], projects := [svc_project]\<rparr>"

definition svc_after_refresh :: devmap where
  "svc_after_refresh =
     svc_before_refresh
       \<lparr>devmapData :=
          JObject [(''Languages'', JArray [JString ''Go'']),
                   (''Projects'', JArray [svc_record_refreshed 40]),
                   (''Users'', JArray [JString ''bob''])],
        projects := [svc_project\<lparr>size_bytes := 40, uses_git := False\<rparr>]\<rparr>"

text \<open>
  The registry with the project and no language, on a disk where the projects
  directory is empty: what the first pass writes, and what the second pass writes.
\<close>

definition svc_first_pass :: json where
  "svc_first_pass =
     JObject [(''Languages'', JArray []), (''Projects'', JArray [svc_record_refreshed 0]),
              (''Users'', JArray [JString ''alice''])]"

definition svc_second_pass :: json where
  "svc_second_pass =
     JObject [(''Languages'', JArray [JString ''Go'']),
              (''Projects'', JArray [svc_record_refreshed 0]),
              (''Users'', JArray [JString ''alice''])]"

text \<open>
  Scenarios 1 and 5 of the specification in one: the registry with the language, the
  project and bob on a disk where the projects directory is empty. The pass creates
  both directories; this is the state it leaves.
\<close>

definition svc_created_registry :: json where
  "svc_created_registry =
     JObject [(''Languages'', JArray [JString ''Go'']),
              (''Projects'', JArray [svc_record_refreshed 0]),
              (''Users'', JArray [JString ''alice'', JString ''bob''])]"

definition svc_created :: devmap where
  "svc_created =
     (loaded clock_env (home_disk []) svc_registry_bob)
       \<lparr>devmapData := svc_created_registry, languages := [''Go''],
        users := [''alice'', ''bob''],
        projects := [svc_project\<lparr>size_bytes := 0, uses_git := False\<rparr>],
        disk := home_disk [(''Go'', Dir [(''svc'', Dir [])])],
        console := [PrintInfo ''Created language directory: /home/u/Projects/Go'',
                    PrintInfo ''Created project directory: /home/u/Projects/Go/svc''],
        devmapFile := Some svc_created_registry\<rparr>"

text \<open>
  A registry that declares the project twice; and a registry without languages, in the
  state of a later load, when the languages vector still holds a language of the load
  before, on a disk with the directory of another language.
\<close>

definition dup_registry :: json where
  "dup_registry =
     JObject [(''Languages'', JArray [JString ''Go'']),
              (''Projects'', JArray [svc_record, svc_record]), (''Users'', JArray [])]"

definition users_registry :: json where
  "users_registry = JObject [(''Projects'', JArray []), (''Users'', JArray [])]"

definition later_load :: devmap where
  "later_load =
     (loaded clock_env (home_disk [(''Go'', Dir [])]) users_registry)\<lparr>languages := [''Rust'']\<rparr>"

subsection \<open>A registry and a disk that agree\<close>

text \<open>
  The languages a pass knows after phase 1: those of the registry when it has an
  array of them, else the ones the vector held.
\<close>

definition known_languages :: "devmap \<Rightarrow> string list" where
  "known_languages st =
     (case array_at (devmapData st) ''Languages'' of
        Some ls \<Rightarrow> string_elements ls
      | None \<Rightarrow> languages st)"

text \<open>
  The directory at \<open>p\<close> can be listed, and every entry of it that is a directory
  (a link to one included) has a name that satisfies \<open>P\<close>.
\<close>

definition all_subdirectories :: "filesys \<Rightarrow> string \<Rightarrow> (string \<Rightarrow> bool) \<Rightarrow> bool" where
  "all_subdirectories fs p P =
     (case directory_iterator fs p of
        Inl e \<Rightarrow> False
      | Inr (loc, es) \<Rightarrow>
          list_all (\<lambda>(entry, n). case entry_status fs loc n of
                                    Inl e \<Rightarrow> False
                                  | Inr est \<Rightarrow> is_dir_node est \<longrightarrow> P entry) es)"

text \<open>
  The directory of a project is there, or it cannot be made: \<^verbatim>\<open>fs::create_directories\<close>
  fails and leaves the disk as it is.
\<close>

definition settled_directory :: "devmap \<Rightarrow> string \<Rightarrow> string \<Rightarrow> bool" where
  "settled_directory st l f =
     (case exists (disk st) (project_path st l f) of
        Inl e \<Rightarrow> False
      | Inr ex \<Rightarrow>
          ex \<or> (case create_directories (disk st) (project_path st l f) of
                  (Some e, d) \<Rightarrow> d = disk st
                | (None, d) \<Rightarrow> False))"

text \<open>
  The registry and the disk agree, which is to say that phases 1, 2, 4 and 5 have
  nothing to change: the directory of every known language exists, the directory of
  every declared project exists or cannot be made, every directory below the projects
  directory is a known language, and every directory below the directory of a known
  language is a declared project.
\<close>

definition consistent :: "devmap \<Rightarrow> bool" where
  "consistent st =
     (list_all (\<lambda>l. exists (disk st) (path_append (projectsPath st) l) = Inr True)
        (known_languages st)
      \<and> all_subdirectories (disk st) (projectsPath st) (\<lambda>entry. entry \<in> set (known_languages st))
      \<and> list_all (\<lambda>pd. case record_identity pd of
                          None \<Rightarrow> False
                        | Some (l, f) \<Rightarrow> settled_directory st l f)
          (declared_projects (devmapData st))
      \<and> list_all (\<lambda>l. all_subdirectories (disk st) (path_append (projectsPath st) l)
                        (\<lambda>entry. Some (l, entry)
                                    \<in> set (map record_identity (declared_projects (devmapData st)))))
          (known_languages st))"

text \<open>The languages of the registry, when it has an array of them, are all strings.\<close>

definition languages_are_strings :: "devmap \<Rightarrow> bool" where
  "languages_are_strings st =
     (case array_at (devmapData st) ''Languages'' of
        Some ls \<Rightarrow> ls = map JString (string_elements ls)
      | None \<Rightarrow> True)"

text \<open>
  A record that phase 4.5 leaves as it is: the probes of its directory, when it has
  one, are the values it holds.
\<close>

definition fresh_record :: "devmap \<Rightarrow> json \<Rightarrow> bool" where
  "fresh_record st pd =
     (\<exists>l f b.
        value_string pd ''lang'' [] = Inr l \<and> value_string pd ''folderName'' [] = Inr f
        \<and> is_directory (disk st) (project_path st l f) = Inr b
        \<and> (b \<longrightarrow>
             (\<exists>sz git.
                getFolderSize (disk st) (project_path st l f) = Inr sz
                \<and> usesGit (disk st) (project_path st l f) = Inr git
                \<and> set_key pd ''size'' (JNumber (uint sz)) = Inr pd
                \<and> set_key pd ''git'' (JBool git) = Inr pd)))"

text \<open>
  The languages vector is what the registry lists: its array of languages, string by
  string, or nothing when the registry has no such array.
\<close>

definition languages_listed :: "devmap \<Rightarrow> bool" where
  "languages_listed st =
     (case array_at (devmapData st) ''Languages'' of
        Some ls \<Rightarrow> ls = map JString (languages st)
      | None \<Rightarrow> languages st = [])"

text \<open>
  What phase 4.5 makes of a project of the vector when no other project has its
  language and folder name: the two probes written into it when it has a directory,
  nothing when it has none.
\<close>

definition probed_project :: "devmap \<Rightarrow> Project \<Rightarrow> Project \<Rightarrow> bool" where
  "probed_project st proj proj' =
     (if project_directory st proj
      then \<exists>sz git.
             getFolderSize (disk st) (project_path st (lang proj) (folderName proj)) = Inr sz
             \<and> usesGit (disk st) (project_path st (lang proj) (folderName proj)) = Inr git
             \<and> proj' = proj\<lparr>size_bytes := sz, uses_git := git\<rparr>
      else proj' = proj)"

section \<open>Properties\<close>

subsection \<open>Results\<close>

lemma bind_result_simps [simp]:
  "bind_result (Inl e) f = Inl e"
  "bind_result (Inr x) f = f x"
  by (simp_all add: bind_result_def)

lemma bind_result_eq_Inr:
  "bind_result m f = Inr y \<longleftrightarrow> (\<exists>x. m = Inr x \<and> f x = Inr y)"
  by (cases m) simp_all

subsection \<open>The model and the source's idioms\<close>

text \<open>
  \<open>array_at\<close> is the guard \<^verbatim>\<open>j.contains(key) && j[key].is_array()\<close> together with the
  array the loop then runs over.
\<close>

lemma array_at_guard:
  "array_at j key = (case get_key j key of
                       None \<Rightarrow> None
                     | Some v \<Rightarrow> if contains j key \<and> is_array v then Some (elements v) else None)"
  by (simp add: array_at_def contains_def is_array_def elements_def split: option.splits json.splits)

text \<open>
  On a first run, with all vectors of the namespace empty, \<^verbatim>\<open>load\<close> hands \<^verbatim>\<open>syncDevMap\<close>
  the state \<open>loaded\<close>, and returns true with what the pass leaves.
\<close>

lemma load_first_run:
  "load env ''devmap.json''
     \<lparr>projectsPath = path0, devmapFileName = name0, devmapData = data0, languages = [],
      users = [], projects = [], disk = fs, console = [], devmapFile = Some j\<rparr>
   = bind_result (syncDevMap env (loaded env fs j)) (\<lambda>st'. Inr (True, st'))"
  by (simp add: load_def loaded_def Let_def)

subsection \<open>Paths of directory entries\<close>

text \<open>
  The resolution of a path goes on, after a part of it, from where that part leads
  with the links that part has left.
\<close>

lemma walk_append:
  "walk t fuel cur (xs @ ys) =
     (case walk t fuel cur xs of
        Found loc left \<Rightarrow> walk t left loc ys
      | Missing \<Rightarrow> Missing
      | TooManyLinks \<Rightarrow> TooManyLinks)"
proof (induction t fuel cur xs rule: walk.induct)
  case (1 t fuel cur)
  show ?case by simp
next
  case (2 t fuel cur c rest)
  show ?case
  proof (cases "node_at t cur")
    case None
    then show ?thesis by simp
  next
    case (Some nd)
    show ?thesis
    proof (cases nd)
      case (Dir es)
      note d = Some Dir
      show ?thesis
      proof (cases "c = [] \<or> c = ''.''")
        case True
        then show ?thesis using "2.IH"(1)[OF d True] d by auto
      next
        case here: False
        show ?thesis
        proof (cases "c = ''..''")
          case True
          then show ?thesis using "2.IH"(2)[OF d here True] d here by simp
        next
          case up: False
          show ?thesis
          proof (cases "map_of es c")
            case None
            then show ?thesis using d here up by simp
          next
            case e: (Some m)
            show ?thesis
            proof (cases m)
              case (File sz)
              then show ?thesis using "2.IH"(3)[OF d here up e File] d here up e by simp
            next
              case sub: (Dir sub)
              then show ?thesis using "2.IH"(4)[OF d here up e sub] d here up e by simp
            next
              case (Symlink target)
              show ?thesis
              proof (cases fuel)
                case 0
                then show ?thesis using d here up e Symlink by simp
              next
                case (Suc fuel')
                show ?thesis
                proof (cases "target = []")
                  case True
                  then show ?thesis using d here up e Symlink Suc by simp
                next
                  case False
                  then show ?thesis
                    using "2.IH"(5)[OF d here up e Symlink Suc False] d here up e Symlink Suc
                    by simp
                qed
              qed
            next
              case Special
              then show ?thesis using "2.IH"(6)[OF d here up e Special] d here up e by simp
            qed
          qed
        qed
      qed
    qed (use Some in simp_all)
  qed
qed

lemma node_at_append:
  "node_at t loc = Some (Dir es) \<Longrightarrow> node_at t (loc @ [c]) = map_of es c"
  by (induction t loc rule: node_at.induct) (auto split: option.splits)

lemma components_from_plain:
  "CHR ''/'' \<notin> set entry \<Longrightarrow> components_from w entry = [w @ entry]"
  by (induction entry arbitrary: w) auto

lemma components_from_slash:
  "components_from w (a @ CHR ''/'' # b) = components_from w a @ components_from [] b"
  by (induction a arbitrary: w) simp_all

lemma components_from_last:
  "components_from w (a @ [CHR ''/'']) = components_from w a @ [[]]"
  using components_from_slash[of w a "[]"] by simp

lemma components_entry:
  assumes "p \<noteq> []" "CHR ''/'' \<notin> set entry" "entry \<noteq> []"
  shows "\<exists>cs. components (path_append p entry) = cs @ [entry]
           \<and> (components p = cs \<or> components p = cs @ [[]])"
proof (cases "last p = CHR ''/''")
  case False
  have "\<not> is_absolute entry" using assms(2,3) by (cases entry) (auto simp add: is_absolute_def)
  then have "path_append p entry = p @ CHR ''/'' # entry"
    using False assms(1) by (simp add: path_append_def)
  then show ?thesis
    using components_from_slash[of "[]" p entry] components_from_plain[OF assms(2), of "[]"]
    by (simp add: components_def)
next
  case True
  then obtain q where q: "p = q @ [CHR ''/'']"
    using assms(1) by (metis append_butlast_last_id)
  have "\<not> is_absolute entry" using assms(2,3) by (cases entry) (auto simp add: is_absolute_def)
  then have "path_append p entry = q @ CHR ''/'' # entry"
    using True assms(1) q by (simp add: path_append_def)
  then show ?thesis
    using components_from_slash[of "[]" q entry] components_from_plain[OF assms(2), of "[]"]
      components_from_last[of "[]" q] q
    by (simp add: components_def)
qed

lemma walk_trailing:
  "walk t fuel cur (cs @ [[]]) = Found loc left \<Longrightarrow> walk t fuel cur cs = Found loc left"
  by (auto simp add: walk_append split: lookup.splits option.splits node.splits)

lemma is_absolute_entry:
  assumes "p \<noteq> []" "CHR ''/'' \<notin> set entry" "entry \<noteq> []"
  shows "is_absolute (path_append p entry) = is_absolute p"
  using assms by (cases p; cases entry) (auto simp add: is_absolute_def path_append_def)

lemma resolve_entry:
  assumes "resolve fs p = Found loc left" "CHR ''/'' \<notin> set entry" "entry \<noteq> []"
  shows "resolve fs (path_append p entry) = walk (tree fs) left loc [entry]"
proof -
  have p: "p \<noteq> []" using assms(1) by (auto simp add: resolve_def)
  obtain cs where cs: "components (path_append p entry) = cs @ [entry]"
      "components p = cs \<or> components p = cs @ [[]]"
    using components_entry[OF p assms(2,3)] by blast
  have w: "walk (tree fs) 40 (if is_absolute p then [] else cwd fs) (components p) = Found loc left"
    using assms(1) p by (simp add: resolve_def)
  have w': "walk (tree fs) 40 (if is_absolute p then [] else cwd fs) cs = Found loc left"
    using cs(2) w walk_trailing by metis
  have ne: "path_append p entry \<noteq> []"
    using p by (auto simp add: path_append_def is_absolute_def)
  show ?thesis
    using w' ne by (simp add: resolve_def is_absolute_entry[OF p assms(2,3)] cs(1) walk_append)
qed

text \<open>
  The status of an entry is the status of its path, the path the directory was opened
  by with the name of the entry; and a directory among the entries is opened, by its
  path, with the links that the path of the directory it lies in has left.
\<close>

lemma entry_status_is_status:
  assumes "directory_iterator fs p = Inr (dir, es)" "map_of es entry = Some n"
    "CHR ''/'' \<notin> set entry" "entry \<noteq> []" "entry \<noteq> ''.''" "entry \<noteq> ''..''"
  shows "status fs (path_append p entry) = entry_status fs dir n"
proof -
  obtain loc left where r: "resolve fs p = Found loc left" and d: "dir = (loc, left)"
    and n: "node_at (tree fs) loc = Some (Dir es)"
    using assms(1)
    by (auto simp add: directory_iterator_def split: lookup.splits option.splits node.splits)
  have a: "node_at (tree fs) (loc @ [entry]) = Some n"
    using node_at_append[OF n] assms(2) by simp
  show ?thesis
    using assms(2-6) n a
    by (cases n)
      (auto simp add: status_def resolve_entry[OF r assms(3,4)] entry_status_def d
        split: nat.splits lookup.splits)
qed

lemma subdirectory_iterator:
  assumes "directory_iterator fs p = Inr (dir, es)" "map_of es entry = Some (Dir sub)"
    "CHR ''/'' \<notin> set entry" "entry \<noteq> []" "entry \<noteq> ''.''" "entry \<noteq> ''..''"
  shows "directory_iterator fs (path_append p entry) = Inr ((fst dir @ [entry], snd dir), sub)"
proof -
  obtain loc left where r: "resolve fs p = Found loc left" and d: "dir = (loc, left)"
    and n: "node_at (tree fs) loc = Some (Dir es)"
    using assms(1)
    by (auto simp add: directory_iterator_def split: lookup.splits option.splits node.splits)
  have a: "node_at (tree fs) (loc @ [entry]) = Some (Dir sub)"
    using node_at_append[OF n] assms(2) by simp
  show ?thesis
    using assms(2-6) n a
    by (simp add: directory_iterator_def resolve_entry[OF r assms(3,4)] d)
qed

subsection \<open>The folder size\<close>

lemma folder_size_loop_append:
  "folder_size_loop fs (xs @ ys) acc =
     bind_result (folder_size_loop fs xs acc) (folder_size_loop fs ys)"
proof (induction xs arbitrary: acc)
  case Nil
  show ?case by simp
next
  case (Cons x xs)
  obtain d entry n where x: "x = (d, entry, n)" by (cases x)
  show ?case
    by (cases "entry_status fs d n") (simp_all add: x Cons.IH)
qed

lemma entry_status_error: "entry_status fs d n = Inl e \<Longrightarrow> e = filesystem_error"
  by (auto simp: entry_status_def split: node.splits if_splits lookup.splits nat.splits)

lemma entry_status_plain:
  "entry_status fs d (File sz) = Inr (Some (File sz))"
  "entry_status fs d (Dir sub) = Inr (Some (Dir sub))"
  "entry_status fs d Special = Inr (Some Special)"
  by (simp_all add: entry_status_def)

lemma folder_size_loop_total:
  "folder_size_loop fs (recursive_entries dir es) acc =
     (if links_resolve fs dir es then Inr (acc + of_nat (followed_total fs dir es))
      else Inl filesystem_error)"
proof (induction dir es arbitrary: acc rule: recursive_entries.induct)
  case (1 dir)
  show ?case by (simp add: links_resolve_def)
next
  case (2 dir entry n es)
  show ?case
  proof (cases n)
    case (File sz)
    then show ?thesis
      using "2.IH"(2)
      by (simp add: links_resolve_def entry_status_plain is_regular_node_def file_size_node_def)
  next
    case (Dir sub)
    then show ?thesis
      using "2.IH"(1)[OF Dir] "2.IH"(2)
      by (simp add: links_resolve_def entry_status_plain is_regular_node_def
          folder_size_loop_append add.assoc)
  next
    case (Symlink target)
    show ?thesis
    proof (cases "entry_status fs dir n")
      case (Inl e)
      then show ?thesis
        using entry_status_error[OF Inl] by (simp add: links_resolve_def Symlink)
    next
      case (Inr st)
      then show ?thesis
        using "2.IH"(2)
        by (auto simp add: links_resolve_def Symlink is_regular_node_def file_size_node_def
            split: option.splits node.splits)
    qed
  next
    case Special
    then show ?thesis
      using "2.IH"(2) by (simp add: links_resolve_def entry_status_plain is_regular_node_def)
  qed
qed

text \<open>
  C6, as the code has it. \<^verbatim>\<open>getFolderSize\<close> returns 0 when the path leads nowhere or
  to something that is not a directory. For a directory it returns, as a 64-bit
  \<^verbatim>\<open>size_t\<close>, the sum over the entries of the tree below it (a linked directory is not
  entered) of the sizes of the regular files and of the regular files that symbolic
  links lead to; directories, special files and links that lead to no regular file add
  nothing. It throws when the path, or the path of a link below it, cannot be resolved
  for too many links: the links of the path given, the entry and the links after it
  count together, up to 40.
\<close>

theorem getFolderSize_followed_total:
  "getFolderSize fs p =
     (case resolve fs p of
        TooManyLinks \<Rightarrow> Inl filesystem_error
      | Missing \<Rightarrow> Inr 0
      | Found loc left \<Rightarrow>
          (case node_at (tree fs) loc of
             Some (Dir es) \<Rightarrow>
               if links_resolve fs (loc, left) es then Inr (of_nat (followed_total fs (loc, left) es))
               else Inl filesystem_error
           | _ \<Rightarrow> Inr 0))"
  by (simp add: getFolderSize_def exists_def is_directory_def status_def directory_iterator_def
      is_dir_node_def folder_size_loop_total split: lookup.splits option.splits node.splits)

theorem getFolderSize_followed_total_witness:
  "getFolderSize linked_disk ''/proj'' = Inr 107
   \<and> resolve linked_disk ''/proj'' = Found [''proj''] 40
   \<and> followed_total linked_disk ([''proj''], 40)
        [(''link'', Symlink ''/data/big.bin''), (''a.txt'', File 7)] = 107
   \<and> getFolderSize (chain_disk 39) ''/in'' = Inr 9
   \<and> getFolderSize (chain_disk 40) ''/in'' = Inl filesystem_error
   \<and> status (chain_disk 40) ''/in/e'' = Inl filesystem_error"
proof -
  have r: "resolve linked_disk ''/proj'' = Found [''proj''] 40"
    by code_simp
  have n: "node_at (tree linked_disk) [''proj'']
             = Some (Dir [(''link'', Symlink ''/data/big.bin''), (''a.txt'', File 7)])"
    by code_simp
  have l: "links_resolve linked_disk ([''proj''], 40)
             [(''link'', Symlink ''/data/big.bin''), (''a.txt'', File 7)]"
    by code_simp
  have f: "followed_total linked_disk ([''proj''], 40)
             [(''link'', Symlink ''/data/big.bin''), (''a.txt'', File 7)] = 107"
    by code_simp
  have g: "getFolderSize linked_disk ''/proj''
             = Inr (of_nat (followed_total linked_disk ([''proj''], 40)
                 [(''link'', Symlink ''/data/big.bin''), (''a.txt'', File 7)]))"
    using getFolderSize_followed_total [of linked_disk "''/proj''"]
    by (simp only: r n l lookup.simps option.simps node.simps if_True)
  have c39: "getFolderSize (chain_disk 39) ''/in'' = Inr 9"
    by code_simp
  have c40: "getFolderSize (chain_disk 40) ''/in'' = Inl filesystem_error"
    by code_simp
  have s40: "status (chain_disk 40) ''/in/e'' = Inl filesystem_error"
    by code_simp
  show ?thesis
    unfolding g f r c39 c40 s40 by simp
qed

text \<open>
  C6 as the specification states it fails: in \<^verbatim>\<open>/proj\<close> of the example disk the regular
  files add up to 7 bytes, and \<^verbatim>\<open>getFolderSize\<close> returns 107, since the link is followed
  to a file of 100 bytes outside of the directory.
\<close>

theorem getFolderSize_regular_files_counterexample:
  "regular_files_under linked_disk ''/proj'' = 7
   \<and> getFolderSize linked_disk ''/proj'' = Inr 107
   \<and> getFolderSize linked_disk ''/proj'' \<noteq> Inr (of_nat (regular_files_under linked_disk ''/proj''))"
  by code_simp

text \<open>
  C10. For a path that is not found, and for a path that leads to anything but a
  directory (a regular file, say), \<^verbatim>\<open>getFolderSize\<close> returns 0: the entries are
  summed only when the path exists and is a directory.
\<close>

theorem getFolderSize_not_directory:
  "status fs p = Inr st \<Longrightarrow> \<not> is_dir_node st \<Longrightarrow> getFolderSize fs p = Inr 0"
  by (auto simp add: getFolderSize_def exists_def is_directory_def)

theorem getFolderSize_not_directory_witness:
  "status linked_disk ''/data/big.bin'' = Inr (Some (File 100))
   \<and> \<not> is_dir_node (Some (File 100))
   \<and> getFolderSize linked_disk ''/data/big.bin'' = Inr 0"
proof -
  have s: "status linked_disk ''/data/big.bin'' = Inr (Some (File 100))"
    by code_simp
  have d: "\<not> is_dir_node (Some (File 100))"
    by (simp add: is_dir_node_def)
  show ?thesis
    using getFolderSize_not_directory [OF s d] s d by simp
qed

subsection \<open>Parsing the creation time\<close>

lemma lt10_cases: "d < 10 \<Longrightarrow> d \<in> {0, 1, 2, 3, 4, 5, 6, 7, 8, 9 :: nat}"
  by auto

lemma digit_ground:
  "\<forall>d \<in> set [0, 1, 2, 3, 4, 5, 6, 7, 8, 9 :: nat].
     is_digit (digit_char d) \<and> digit_value (digit_char d) = d \<and> \<not> is_space (digit_char d)
     \<and> digit_char d \<noteq> CHR ''%''"
  by code_simp

lemma digit_char_props:
  assumes "d < 10"
  shows "is_digit (digit_char d)" "digit_value (digit_char d) = d" "\<not> is_space (digit_char d)"
    "digit_char d \<noteq> CHR ''%''"
  using lt10_cases[OF assms] digit_ground
  by auto

lemma foldl_digits_mono: "v \<le> foldl (\<lambda>v c. v * 10 + digit_value c) v ds"
proof (induction ds arbitrary: v)
  case Nil
  show ?case by simp
next
  case (Cons c ds)
  have "v \<le> v * 10 + digit_value c" by simp
  also have "\<dots> \<le> foldl (\<lambda>v c. v * 10 + digit_value c) (v * 10 + digit_value c) ds"
    by (rule Cons.IH)
  finally show ?case by simp
qed

lemma extract_digits_all:
  "list_all is_digit ds \<Longrightarrow> foldl (\<lambda>v c. v * 10 + digit_value c) v ds \<le> mx \<Longrightarrow>
     extract_digits (length ds) mx i v (ds @ rest)
       = (i + length ds, foldl (\<lambda>v c. v * 10 + digit_value c) v ds, rest)"
proof (induction ds arbitrary: i v)
  case Nil
  show ?case by simp
next
  case (Cons c ds)
  have "v * 10 + digit_value c \<le> foldl (\<lambda>v c. v * 10 + digit_value c) (v * 10 + digit_value c) ds"
    by (rule foldl_digits_mono)
  then have le: "v * 10 + digit_value c \<le> mx"
    using Cons.prems(2) by simp
  show ?case
    using Cons.prems le Cons.IH[of "v * 10 + digit_value c" "Suc i"]
    by (simp add: Let_def)
qed

lemma two_digit_parse:
  assumes "n < 100" "mn \<le> n" "n \<le> mx"
  shows "extract_num (two_digit n @ rest) mn mx 2 = Some (n, rest)"
proof -
  have d: "n div 10 < 10" "n mod 10 < 10"
    using assms(1) by simp_all
  have v: "foldl (\<lambda>v c. v * 10 + digit_value c) 0 (two_digit n) = n"
    using d by (simp add: two_digit_def digit_char_props)
  have "extract_digits (length (two_digit n)) mx 0 0 (two_digit n @ rest)
          = (0 + length (two_digit n), foldl (\<lambda>v c. v * 10 + digit_value c) 0 (two_digit n), rest)"
    by (rule extract_digits_all) (use d assms(3) v in \<open>simp_all add: two_digit_def digit_char_props\<close>)
  moreover have "length (two_digit n) = 2" by (simp add: two_digit_def)
  ultimately have "extract_digits 2 mx 0 0 (two_digit n @ rest) = (2, n, rest)"
    using v by simp
  then show ?thesis
    using assms(2,3) by (simp add: extract_num_def)
qed

lemma four_digit_parts:
  assumes "(n::nat) \<le> 9999"
  shows "n div 1000 < 10" "n div 100 mod 10 < 10" "n div 10 mod 10 < 10" "n mod 10 < 10"
    "((n div 1000 * 10 + n div 100 mod 10) * 10 + n div 10 mod 10) * 10 + n mod 10 = n"
proof -
  show "n div 1000 < 10" using assms by (simp add: div_less_iff_less_mult)
  show "n div 100 mod 10 < 10" "n div 10 mod 10 < 10" "n mod 10 < 10" by simp_all
  have a: "n div 100 = n div 1000 * 10 + n div 100 mod 10"
    using div_mult_mod_eq[of "n div 100" 10] by (simp add: div_mult2_eq[symmetric])
  have b: "n div 10 = n div 100 * 10 + n div 10 mod 10"
    using div_mult_mod_eq[of "n div 10" 10] by (simp add: div_mult2_eq[symmetric])
  have c: "n = n div 10 * 10 + n mod 10" by simp
  show "((n div 1000 * 10 + n div 100 mod 10) * 10 + n div 10 mod 10) * 10 + n mod 10 = n"
    using a b c by presburger
qed

lemma four_digit_parse:
  assumes "n \<le> 9999"
  shows "extract_num (four_digit n @ rest) 0 9999 4 = Some (n, rest)"
proof -
  note p = four_digit_parts[OF assms]
  have v: "foldl (\<lambda>v c. v * 10 + digit_value c) 0 (four_digit n) = n"
    using p by (simp add: four_digit_def digit_char_props)
  have "extract_digits (length (four_digit n)) 9999 0 0 (four_digit n @ rest)
          = (0 + length (four_digit n), foldl (\<lambda>v c. v * 10 + digit_value c) 0 (four_digit n), rest)"
    by (rule extract_digits_all) (use p(1-4) assms v in \<open>simp_all add: four_digit_def digit_char_props\<close>)
  moreover have "length (four_digit n) = 4" by (simp add: four_digit_def)
  ultimately have "extract_digits 4 9999 0 0 (four_digit n @ rest) = (4, n, rest)"
    using v by simp
  then show ?thesis
    using assms by (simp add: extract_num_def)
qed

lemma two_digit_first: "n < 100 \<Longrightarrow> dropWhile is_space (two_digit n @ rest) = two_digit n @ rest"
  by (simp add: two_digit_def digit_char_props)

lemma two_digit_nonempty: "two_digit n \<noteq> []"
  by (simp add: two_digit_def)

lemma literal_chars:
  "\<not> is_space CHR '':''" "\<not> is_space CHR ''-''" "is_space CHR '' ''" "\<not> is_space CHR ''%''"
  by code_simp+

lemma four_digit_nonempty: "four_digit n \<noteq> []"
  by (simp add: four_digit_def)

text \<open>The rounds of the loop.\<close>

lemma get_time_from_end: "get_time_from fmt [] t = (if fmt = [] then Some t else None)"
  by (cases fmt) simp_all

lemma get_time_from_conversion:
  "s \<noteq> [] \<Longrightarrow>
     get_time_from (CHR ''%'' # conv # fmt) s t =
       (case conversion conv s t of
          None \<Rightarrow> None
        | Some (t', rest) \<Rightarrow> if rest = [] then Some t' else get_time_from fmt rest t')"
  by simp

lemma get_time_from_space:
  "is_space f \<Longrightarrow> s \<noteq> [] \<Longrightarrow>
     get_time_from (f # fmt) s t = get_time_from (dropWhile is_space fmt) (dropWhile is_space s) t"
  by (auto simp add: is_space_def)

lemma get_time_from_literal:
  "f \<noteq> CHR ''%'' \<Longrightarrow> \<not> is_space f \<Longrightarrow> get_time_from (f # fmt) (f # s) t = get_time_from fmt s t"
  by simp

text \<open>The conversions of the format on a field of two digits, or four.\<close>

lemma conversion_two_digit:
  assumes "n < 100"
  shows "n \<le> 23 \<Longrightarrow> conversion CHR ''H'' (two_digit n @ rest) t = Some (t\<lparr>tm_hour := int n\<rparr>, rest)"
    "n \<le> 59 \<Longrightarrow> conversion CHR ''M'' (two_digit n @ rest) t = Some (t\<lparr>tm_min := int n\<rparr>, rest)"
    "1 \<le> n \<Longrightarrow> n \<le> 31 \<Longrightarrow>
       conversion CHR ''d'' (two_digit n @ rest) t = Some (t\<lparr>tm_mday := int n\<rparr>, rest)"
    "1 \<le> n \<Longrightarrow> n \<le> 12 \<Longrightarrow>
       conversion CHR ''m'' (two_digit n @ rest) t = Some (t\<lparr>tm_mon := int n - 1\<rparr>, rest)"
  using assms by (simp_all add: conversion_def two_digit_parse)

lemma conversion_two_digit_end:
  assumes "n < 100"
  shows "n \<le> 23 \<Longrightarrow> conversion CHR ''H'' (two_digit n) t = Some (t\<lparr>tm_hour := int n\<rparr>, [])"
    "n \<le> 59 \<Longrightarrow> conversion CHR ''M'' (two_digit n) t = Some (t\<lparr>tm_min := int n\<rparr>, [])"
    "1 \<le> n \<Longrightarrow> n \<le> 31 \<Longrightarrow> conversion CHR ''d'' (two_digit n) t = Some (t\<lparr>tm_mday := int n\<rparr>, [])"
    "1 \<le> n \<Longrightarrow> n \<le> 12 \<Longrightarrow> conversion CHR ''m'' (two_digit n) t = Some (t\<lparr>tm_mon := int n - 1\<rparr>, [])"
  using conversion_two_digit[OF assms, of "[]" t] by simp_all

lemma conversion_four_digit:
  "n \<le> 9999 \<Longrightarrow>
     conversion CHR ''Y'' (four_digit n @ rest) t = Some (t\<lparr>tm_year := int n - 1900\<rparr>, rest)"
  by (simp add: conversion_def four_digit_parse)

lemmas get_time_rounds =
  get_time_def get_time_from_end get_time_from_conversion get_time_from_space get_time_from_literal
  conversion_two_digit conversion_two_digit_end conversion_four_digit
  two_digit_nonempty four_digit_nonempty two_digit_first literal_chars tm_zero_def

text \<open>A text of the format, whatever follows it, is read as the fields it shows.\<close>

lemma get_time_time_text:
  assumes "hh \<le> 23" "mm \<le> 59" "1 \<le> dd" "dd \<le> 31" "1 \<le> mo" "mo \<le> 12" "yyyy \<le> 9999"
  shows "get_time ''%H:%M %d-%m-%Y'' (time_text hh mm dd mo yyyy @ rest)
           = Some \<lparr>tm_min = int mm, tm_hour = int hh, tm_mday = int dd, tm_mon = int mo - 1,
                   tm_year = int yyyy - 1900\<rparr>"
proof -
  have lt: "hh < 100" "mm < 100" "dd < 100" "mo < 100" using assms by auto
  show ?thesis
    using assms lt
    by (simp add: time_text_def get_time_rounds)
qed

text \<open>
  A text that ends after the hour, the minute, the day or the month is read as far as
  it goes: the fail bit is not set, and the fields that were not reached are 0.
\<close>

lemma get_time_ends_early:
  assumes "hh \<le> 23" "mm \<le> 59" "1 \<le> dd" "dd \<le> 31" "1 \<le> mo" "mo \<le> 12"
  shows "get_time ''%H:%M %d-%m-%Y'' (two_digit hh) = Some (tm_zero\<lparr>tm_hour := int hh\<rparr>)"
    "get_time ''%H:%M %d-%m-%Y'' (two_digit hh @ '':'' @ two_digit mm)
       = Some (tm_zero\<lparr>tm_hour := int hh, tm_min := int mm\<rparr>)"
    "get_time ''%H:%M %d-%m-%Y'' (two_digit hh @ '':'' @ two_digit mm @ '' '' @ two_digit dd)
       = Some (tm_zero\<lparr>tm_hour := int hh, tm_min := int mm, tm_mday := int dd\<rparr>)"
    "get_time ''%H:%M %d-%m-%Y''
       (two_digit hh @ '':'' @ two_digit mm @ '' '' @ two_digit dd @ ''-'' @ two_digit mo)
       = Some (tm_zero\<lparr>tm_hour := int hh, tm_min := int mm, tm_mday := int dd, tm_mon := int mo - 1\<rparr>)"
proof -
  have lt: "hh < 100" "mm < 100" "dd < 100" "mo < 100" using assms by auto
  note two_digit_first' = two_digit_first[of _ "[]", simplified]
  show "get_time ''%H:%M %d-%m-%Y'' (two_digit hh) = Some (tm_zero\<lparr>tm_hour := int hh\<rparr>)"
    using assms lt by (simp add: get_time_rounds two_digit_first')
  show "get_time ''%H:%M %d-%m-%Y'' (two_digit hh @ '':'' @ two_digit mm)
       = Some (tm_zero\<lparr>tm_hour := int hh, tm_min := int mm\<rparr>)"
    using assms lt by (simp add: get_time_rounds two_digit_first')
  show "get_time ''%H:%M %d-%m-%Y'' (two_digit hh @ '':'' @ two_digit mm @ '' '' @ two_digit dd)
       = Some (tm_zero\<lparr>tm_hour := int hh, tm_min := int mm, tm_mday := int dd\<rparr>)"
    using assms lt by (simp add: get_time_rounds two_digit_first')
  show "get_time ''%H:%M %d-%m-%Y''
       (two_digit hh @ '':'' @ two_digit mm @ '' '' @ two_digit dd @ ''-'' @ two_digit mo)
       = Some (tm_zero\<lparr>tm_hour := int hh, tm_min := int mm, tm_mday := int dd, tm_mon := int mo - 1\<rparr>)"
    using assms lt by (simp add: get_time_rounds two_digit_first')
qed

text \<open>A text that shows no digit first is not read: the hour is missing.\<close>

lemma get_time_no_digit:
  assumes "dropWhile is_space s = [] \<or> \<not> is_digit (hd (dropWhile is_space s))"
  shows "get_time ''%H:%M %d-%m-%Y'' s = None"
proof (cases "dropWhile is_space s")
  case Nil
  then show ?thesis by (simp add: get_time_def)
next
  case (Cons c cs)
  then have "\<not> is_digit c" using assms by simp
  then have "extract_num (c # cs) 0 23 2 = None"
    by (simp add: extract_num_def numeral_2_eq_2)
  then show ?thesis
    using Cons by (simp add: get_time_def get_time_from_conversion conversion_def)
qed

text \<open>
  A text whose hour is out of range, or where something other than the colon follows
  the hour, is not read.
\<close>

lemma to_lower_colon: "to_lower c = CHR '':'' \<longleftrightarrow> c = CHR '':''"
proof
  assume a: "to_lower c = CHR '':''"
  show "c = CHR '':''"
  proof (cases "CHR ''A'' \<le> c \<and> c \<le> CHR ''Z''")
    case False
    then show ?thesis using a by (auto simp add: to_lower_def)
  next
    case True
    then have r: "65 \<le> (of_char c :: nat)" "(of_char c :: nat) \<le> 90"
      by (simp_all add: less_eq_char_def)
    have "char_of (of_char c + (32 :: nat)) = CHR '':''"
      using a True by (simp add: to_lower_def)
    then have "(of_char (char_of (of_char c + (32 :: nat))) :: nat) = of_char CHR '':''"
      by simp
    then have "(of_char c + 32) mod 256 = (58 :: nat)"
      by (simp add: of_char_of)
    then show ?thesis using r by simp
  qed
next
  assume "c = CHR '':''"
  then show "to_lower c = CHR '':''" by (simp add: to_lower_def less_eq_char_def)
qed

lemma hour_out_of_range:
  assumes "24 \<le> hh" "hh < 100"
  shows "extract_num (two_digit hh @ rest) 0 23 2 = None"
proof -
  have d: "hh div 10 < 10" "hh mod 10 < 10" using assms(2) by simp_all
  have v: "hh div 10 * 10 + hh mod 10 = hh" by simp
  show ?thesis
    using assms d
    by (simp add: extract_num_def two_digit_def numeral_2_eq_2 digit_char_props Let_def v)
qed

lemma get_time_hour_out_of_range:
  assumes "24 \<le> hh" "hh < 100"
  shows "get_time ''%H:%M %d-%m-%Y'' (two_digit hh @ rest) = None"
  using assms hour_out_of_range[OF assms, of rest]
  by (simp add: get_time_def two_digit_first two_digit_nonempty get_time_from_conversion conversion_def)

lemma get_time_wrong_separator:
  assumes "hh \<le> 23" "c \<noteq> CHR '':''"
  shows "get_time ''%H:%M %d-%m-%Y'' (two_digit hh @ c # rest) = None"
proof -
  have lt: "hh < 100" using assms(1) by simp
  have "to_lower c \<noteq> to_lower CHR '':''"
    using assms(2) to_lower_colon[of c] to_lower_colon[of "CHR '':''"] by simp
  then show ?thesis
    using assms(1) lt
    by (simp add: get_time_def two_digit_first two_digit_nonempty get_time_from_conversion
        conversion_two_digit literal_chars)
qed

lemma matches_format_time_text:
  assumes "hh < 100" "mm < 100" "dd < 100" "mo < 100" "yyyy \<le> 9999"
  shows "matches_format (time_text hh mm dd mo yyyy)"
proof -
  have d: "\<And>n. n < 100 \<Longrightarrow> is_digit (digit_char (n div 10)) \<and> is_digit (digit_char (n mod 10))"
    by (simp add: digit_char_props)
  show ?thesis
    using d[OF assms(1)] d[OF assms(2)] d[OF assms(3)] d[OF assms(4)] four_digit_parts(1-4)[OF assms(5)]
    by (simp add: matches_format_def time_text_def two_digit_def four_digit_def digit_char_props)
qed

lemma succeeds_Inr: "succeeds r \<longleftrightarrow> (\<exists>x. r = Inr x)"
  by (cases r) (simp_all add: succeeds_def)

lemma project_of_json_created_at:
  assumes "other_fields_load projData" "value_string projData ''created_at'' [] = Inr s"
  shows "\<exists>proj. project_of_json env projData = Inr proj \<and> createdAt proj = parseTime env s"
  using assms
  by (auto simp add: other_fields_load_def succeeds_Inr project_of_json_def)




lemma array_at_get_key: "get_key j' k = get_key j k \<Longrightarrow> array_at j' k = array_at j k"
  by (simp add: array_at_def)

lemma push_back_at_other:
  "push_back_at j k x = Inr j' \<Longrightarrow> k' \<noteq> k \<Longrightarrow> get_key j' k' = get_key j k'"
  by (auto simp add: push_back_at_def get_key_def bind_result_eq_Inr update_conv'
      split: json.splits)

lemma push_back_at_same:
  "push_back_at j k x = Inr j' \<Longrightarrow>
     array_at j' k = Some ((case array_at j k of Some xs \<Rightarrow> xs | None \<Rightarrow> []) @ [x])"
  by (auto simp add: push_back_at_def push_back_def get_key_def array_at_def bind_result_eq_Inr
      update_conv' split: json.splits option.splits)

lemma set_key_other:
  "set_key j k v = Inr j' \<Longrightarrow> k' \<noteq> k \<Longrightarrow> get_key j' k' = get_key j k'"
  by (auto simp add: set_key_def get_key_def update_conv' split: json.splits)

lemma set_key_same: "set_key j k v = Inr j' \<Longrightarrow> get_key j' k = Some v"
  by (auto simp add: set_key_def get_key_def update_conv' split: json.splits)

lemma value_string_set_key:
  "set_key j k v = Inr j' \<Longrightarrow> k' \<noteq> k \<Longrightarrow> value_string j k' d = Inr s \<Longrightarrow> value_string j' k' d = Inr s"
  by (auto simp add: set_key_def value_string_def update_conv' split: json.splits)

subsection \<open>What each phase leaves alone\<close>

text \<open>Phase 1.\<close>

lemma languages_loop_frame:
  "languages_loop st ls = Inr st' \<Longrightarrow>
     devmapData st' = devmapData st \<and> users st' = users st \<and> projects st' = projects st
     \<and> projectsPath st' = projectsPath st \<and> devmapFile st' = devmapFile st
     \<and> devmapFileName st' = devmapFileName st"
proof (induction ls arbitrary: st)
  case Nil
  then show ?case by simp
next
  case (Cons l ls)
  from Cons.prems show ?case
    by (auto simp add: bind_result_eq_Inr Let_def split: if_splits prod.splits option.splits
        dest!: Cons.IH)
qed

lemma sync_languages_frame:
  "sync_languages st = Inr st' \<Longrightarrow>
     devmapData st' = devmapData st \<and> users st' = users st \<and> projects st' = projects st
     \<and> projectsPath st' = projectsPath st \<and> devmapFile st' = devmapFile st
     \<and> devmapFileName st' = devmapFileName st"
  by (auto simp add: sync_languages_def split: option.splits dest!: languages_loop_frame)

text \<open>Phase 2.\<close>

lemma scan_loop_frame:
  "scan_loop st loc es = Inr st' \<Longrightarrow>
     (\<forall>k. k \<noteq> ''Languages'' \<longrightarrow> get_key (devmapData st') k = get_key (devmapData st) k)
     \<and> users st' = users st \<and> projects st' = projects st
     \<and> projectsPath st' = projectsPath st \<and> devmapFile st' = devmapFile st
     \<and> devmapFileName st' = devmapFileName st \<and> disk st' = disk st"
proof (induction es arbitrary: st)
  case Nil
  then show ?case by simp
next
  case (Cons e es)
  obtain langDir n where e: "e = (langDir, n)" by (cases e)
  from Cons.prems show ?case
    unfolding e
    by (auto simp add: bind_result_eq_Inr split: if_splits dest!: Cons.IH dest: push_back_at_other)
qed

lemma scan_languages_frame:
  "scan_languages st = Inr st' \<Longrightarrow>
     (\<forall>k. k \<noteq> ''Languages'' \<longrightarrow> get_key (devmapData st') k = get_key (devmapData st) k)
     \<and> users st' = users st \<and> projects st' = projects st
     \<and> projectsPath st' = projectsPath st \<and> devmapFile st' = devmapFile st
     \<and> devmapFileName st' = devmapFileName st \<and> disk st' = disk st"
  by (auto simp add: scan_languages_def bind_result_eq_Inr dest!: scan_loop_frame)

text \<open>Phase 3.\<close>

lemma project_of_json_fields:
  "project_of_json env pd = Inr proj \<Longrightarrow>
     value_string pd ''name'' [] = Inr (name proj)
     \<and> value_string pd ''folderName'' [] = Inr (folderName proj)
     \<and> value_string pd ''lang'' [] = Inr (lang proj)
     \<and> value_string pd ''created_by'' [] = Inr (createdBy proj)
     \<and> (\<exists>s. value_string pd ''created_at'' [] = Inr s \<and> createdAt proj = parseTime env s)"
  by (auto simp add: project_of_json_def bind_result_eq_Inr)

lemma projects_loop_result:
  "projects_loop env acc ps = Inr projs \<Longrightarrow>
     \<exists>news. projs = acc @ news \<and> list_all2 (\<lambda>pd proj. project_of_json env pd = Inr proj) ps news"
proof (induction ps arbitrary: acc)
  case Nil
  then show ?case by simp
next
  case (Cons pd ps)
  from Cons.prems obtain proj where p: "project_of_json env pd = Inr proj"
    and r: "projects_loop env (acc @ [proj]) ps = Inr projs"
    by (auto simp add: bind_result_eq_Inr)
  from Cons.IH[OF r] obtain news where "projs = (acc @ [proj]) @ news"
    and "list_all2 (\<lambda>pd proj. project_of_json env pd = Inr proj) ps news"
    by blast
  then show ?case
    using p by (intro exI[of _ "proj # news"]) simp
qed

lemma load_projects_result:
  "load_projects env st = Inr st' \<Longrightarrow>
     \<exists>projs. st' = st\<lparr>projects := projs\<rparr>
       \<and> list_all2 (\<lambda>pd proj. project_of_json env pd = Inr proj)
            (case array_at (devmapData st) ''Projects'' of Some ps \<Rightarrow> ps | None \<Rightarrow> []) projs"
  by (auto simp add: load_projects_def bind_result_eq_Inr split: option.splits
      dest!: projects_loop_result)

text \<open>Phase 4.\<close>

lemma CreateProject_frame:
  "devmapData (CreateProject st proj) = devmapData st \<and> users (CreateProject st proj) = users st
   \<and> projects (CreateProject st proj) = projects st
   \<and> projectsPath (CreateProject st proj) = projectsPath st
   \<and> devmapFile (CreateProject st proj) = devmapFile st
   \<and> devmapFileName (CreateProject st proj) = devmapFileName st
   \<and> languages (CreateProject st proj) = languages st"
  by (simp add: CreateProject_def Let_def split: sum.splits prod.splits option.splits)

lemma ensure_loop_frame:
  "ensure_loop st projs = Inr st' \<Longrightarrow>
     devmapData st' = devmapData st \<and> projects st' = projects st
     \<and> projectsPath st' = projectsPath st \<and> devmapFile st' = devmapFile st
     \<and> devmapFileName st' = devmapFileName st \<and> languages st' = languages st
     \<and> users st' = fold (\<lambda>proj us. insort_insert (createdBy proj) us) projs (users st)"
proof (induction projs arbitrary: st)
  case Nil
  then show ?case by simp
next
  case (Cons proj projs)
  from Cons.prems show ?case
    by (auto simp add: bind_result_eq_Inr Let_def CreateProject_frame split: if_splits
        dest!: Cons.IH)
qed

lemma fold_insort_insert_set:
  "set (fold (\<lambda>x us. insort_insert (f x) us) xs us) = set us \<union> f ` set xs"
  by (induction xs arbitrary: us) (auto simp add: set_insort_insert)

lemma fold_insort_insert_sorted:
  "sorted us \<Longrightarrow> distinct us \<Longrightarrow>
     sorted (fold (\<lambda>x us. insort_insert (f x) us) xs us)
     \<and> distinct (fold (\<lambda>x us. insort_insert (f x) us) xs us)"
  by (induction xs arbitrary: us) (simp_all add: sorted_insort_insert distinct_insort_insert)

text \<open>Phase 4.5.\<close>

lemma exists_guard:
  "bind_result (exists fs p) (\<lambda>ex. bind_result (if ex then is_directory fs p else Inr False) f)
     = bind_result (is_directory fs p) f"
  by (cases "status fs p") (auto simp add: exists_def is_directory_def is_dir_node_def)

lemma refreshed_project_refl: "refreshed_project st proj proj"
  by (simp add: refreshed_project_def)

lemma refreshed_project_trans:
  "refreshed_project st a b \<Longrightarrow> refreshed_project st b c \<Longrightarrow> refreshed_project st a c"
  by (auto simp add: refreshed_project_def)

lemma update_first_refreshed:
  assumes "is_directory (disk st) (project_path st language folder) = Inr True"
    and "getFolderSize (disk st) (project_path st language folder) = Inr sz"
    and "usesGit (disk st) (project_path st language folder) = Inr git"
  shows "list_all2 (refreshed_project st) projs (update_first folder language sz git projs)"
proof (induction projs)
  case Nil
  show ?case by simp
next
  case (Cons proj projs)
  show ?case
    using assms Cons.IH
    by (auto simp add: refreshed_project_def list_all2_refl)
qed

lemma list_all2_refreshed_trans:
  "list_all2 (refreshed_project st) xs ys \<Longrightarrow> list_all2 (refreshed_project st) ys zs \<Longrightarrow>
     list_all2 (refreshed_project st) xs zs"
  by (rule list_all2_trans[of "refreshed_project st" "refreshed_project st" "refreshed_project st"])
     (auto intro: refreshed_project_trans)

lemma refresh_loop_result:
  "refresh_loop st projs ps = Inr (ps', projs') \<Longrightarrow>
     list_all2 (refreshed_record st) ps ps' \<and> list_all2 (refreshed_project st) projs projs'"
proof (induction ps arbitrary: projs ps' projs')
  case Nil
  then show ?case by (simp add: list_all2_refl refreshed_project_refl)
next
  case (Cons pd ps)
  from Cons.prems obtain language folder isdir where
    l: "value_string pd ''lang'' [] = Inr language" and
    f: "value_string pd ''folderName'' [] = Inr folder" and
    d: "is_directory (disk st) (project_path st language folder) = Inr isdir" and
    r: "(if isdir then
           bind_result (getFolderSize (disk st) (project_path st language folder)) (\<lambda>currentSize.
           bind_result (usesGit (disk st) (project_path st language folder)) (\<lambda>currentUsesGit.
           bind_result (set_key pd ''size'' (JNumber (uint currentSize))) (\<lambda>pd1.
           bind_result (set_key pd1 ''git'' (JBool currentUsesGit)) (\<lambda>pd2.
           bind_result
             (refresh_loop st (update_first folder language currentSize currentUsesGit projs) ps)
             (\<lambda>(rest', projs'). Inr (pd2 # rest', projs'))))))
         else
           bind_result (refresh_loop st projs ps)
             (\<lambda>(rest', projs'). Inr (pd # rest', projs'))) = Inr (ps', projs')"
    by (auto simp add: bind_result_eq_Inr Let_def exists_guard simp del: refresh_loop.simps(2)
        dest!: iffD1[OF arg_cong[where f="\<lambda>x. x = Inr (ps', projs')", OF refresh_loop.simps(2)]])
  show ?case
  proof (cases isdir)
    case False
    with r obtain rest' where rec: "refresh_loop st projs ps = Inr (rest', projs')"
      and ps': "ps' = pd # rest'"
      by (auto simp add: bind_result_eq_Inr)
    have "refreshed_record st pd pd"
      using l f d False by (auto simp add: refreshed_record_def)
    then show ?thesis
      using Cons.IH[OF rec] ps' by simp
  next
    case True
    with r obtain sz git pd1 pd2 rest' where
      sz: "getFolderSize (disk st) (project_path st language folder) = Inr sz" and
      git: "usesGit (disk st) (project_path st language folder) = Inr git" and
      s1: "set_key pd ''size'' (JNumber (uint sz)) = Inr pd1" and
      s2: "set_key pd1 ''git'' (JBool git) = Inr pd2" and
      rec: "refresh_loop st (update_first folder language sz git projs) ps = Inr (rest', projs')" and
      ps': "ps' = pd2 # rest'"
      by (auto simp add: bind_result_eq_Inr)
    have rr: "refreshed_record st pd pd2"
      using l f d True sz git s1 s2 by (auto simp add: refreshed_record_def)
    have "list_all2 (refreshed_project st) projs (update_first folder language sz git projs)"
      using d True sz git by (intro update_first_refreshed) simp_all
    then show ?thesis
      using Cons.IH[OF rec] ps' rr by (auto intro: list_all2_refreshed_trans)
  qed
qed

text \<open>Phase 5.\<close>

lemma declared_projects_get_key:
  "get_key j' ''Projects'' = get_key j ''Projects'' \<Longrightarrow> declared_projects j' = declared_projects j"
  by (simp add: declared_projects_def array_at_def)

lemma declared_projects_push_back:
  "push_back_at j ''Projects'' x = Inr j' \<Longrightarrow> declared_projects j' = declared_projects j @ [x]"
  by (simp add: declared_projects_def push_back_at_same)

lemma discover_loop_frame:
  "discover_loop env st language loc es = Inr st' \<Longrightarrow>
     (\<forall>k. k \<noteq> ''Projects'' \<longrightarrow> get_key (devmapData st') k = get_key (devmapData st) k)
     \<and> users st' = users st \<and> disk st' = disk st \<and> languages st' = languages st
     \<and> projectsPath st' = projectsPath st \<and> devmapFile st' = devmapFile st
     \<and> devmapFileName st' = devmapFileName st
     \<and> (\<exists>news. projects st' = projects st @ news \<and> list_all (\<lambda>p. createdBy p = ''unknown'') news)
     \<and> (\<exists>newj. declared_projects (devmapData st') = declared_projects (devmapData st) @ newj)"
proof (induction es arbitrary: st)
  case Nil
  then show ?case by simp
next
  case (Cons e es)
  obtain folder n where e: "e = (folder, n)" by (cases e)
  from Cons.prems[unfolded e] consider
      (skip) "discover_loop env st language loc es = Inr st'"
    | (add) sz git j where
        "push_back_at (devmapData st) ''Projects''
           (project_json env \<lparr>name = folder, folderName = folder, lang = language,
              createdBy = ''unknown'', createdAt = now env, size_bytes = sz, uses_git = git\<rparr>) = Inr j"
        "discover_loop env
           (st\<lparr>projects := projects st @ [\<lparr>name = folder, folderName = folder, lang = language,
                   createdBy = ''unknown'', createdAt = now env, size_bytes = sz, uses_git = git\<rparr>],
               devmapData := j,
               console := console st @
                 [PrintInfo (''Added new project from filesystem to DevMap: '' @ folder @ '' in '' @ language)]\<rparr>)
           language loc es = Inr st'"
    by (auto simp add: bind_result_eq_Inr Let_def split: if_splits)
  then show ?case
  proof cases
    case skip
    then show ?thesis by (rule Cons.IH)
  next
    case add
    from Cons.IH[OF add(2)] add(1) show ?thesis
      by (auto simp add: declared_projects_push_back dest: push_back_at_other)
  qed
qed

lemma discover_languages_loop_frame:
  "discover_languages_loop env st ls = Inr st' \<Longrightarrow>
     (\<forall>k. k \<noteq> ''Projects'' \<longrightarrow> get_key (devmapData st') k = get_key (devmapData st) k)
     \<and> users st' = users st \<and> disk st' = disk st \<and> languages st' = languages st
     \<and> projectsPath st' = projectsPath st \<and> devmapFile st' = devmapFile st
     \<and> devmapFileName st' = devmapFileName st
     \<and> (\<exists>news. projects st' = projects st @ news \<and> list_all (\<lambda>p. createdBy p = ''unknown'') news)
     \<and> (\<exists>newj. declared_projects (devmapData st') = declared_projects (devmapData st) @ newj)"
proof (induction ls arbitrary: st)
  case Nil
  then show ?case by simp
next
  case (Cons l ls)
  from Cons.prems consider
      (skip) "discover_languages_loop env st ls = Inr st'"
    | (scan) loc entries st1 where
        "discover_loop env st l loc entries = Inr st1"
        "discover_languages_loop env st1 ls = Inr st'"
    by (auto simp add: bind_result_eq_Inr Let_def split: if_splits)
  then show ?case
  proof cases
    case skip
    then show ?thesis by (rule Cons.IH)
  next
    case scan
    from discover_loop_frame[OF scan(1)] Cons.IH[OF scan(2)] show ?thesis
      by (auto simp add: list_all_append)
  qed
qed

text \<open>Phase 6.\<close>

lemma insert_users_result:
  "insert_users us js = Inr us' \<Longrightarrow> us' = fold insort_insert (string_elements js) us"
proof (induction js arbitrary: us)
  case Nil
  then show ?case by (simp add: string_elements_def List.map_filter_simps)
next
  case (Cons u js)
  from Cons.prems obtain s where u: "u = JString s"
    and r: "insert_users (insort_insert s us) js = Inr us'"
    by (auto simp add: bind_result_eq_Inr get_string_def split: json.splits)
  show ?case
    using Cons.IH[OF r] u by (simp add: string_elements_def List.map_filter_simps)
qed

lemma update_users_result:
  "update_users st = Inr st' \<Longrightarrow>
     (\<forall>k. k \<noteq> ''Users'' \<longrightarrow> get_key (devmapData st') k = get_key (devmapData st) k)
     \<and> projects st' = projects st \<and> disk st' = disk st \<and> languages st' = languages st
     \<and> projectsPath st' = projectsPath st \<and> devmapFile st' = devmapFile st
     \<and> devmapFileName st' = devmapFileName st \<and> console st' = console st
     \<and> (case array_at (devmapData st) ''Users'' of
           None \<Rightarrow> st' = st
         | Some us \<Rightarrow>
             users st' = fold insort_insert (string_elements us) (users st)
             \<and> get_key (devmapData st') ''Users'' = Some (JArray (map JString (users st'))))"
  by (auto simp add: update_users_def bind_result_eq_Inr split: option.splits
      dest: set_key_other set_key_same insert_users_result)

lemma syncDevMap_phases:
  "syncDevMap env st = Inr st' \<Longrightarrow>
     \<exists>st1 st2 st3 st4 st5 st6 st7.
       sync_languages (st\<lparr>users := []\<rparr>) = Inr st1 \<and> scan_languages st1 = Inr st2
       \<and> load_projects env st2 = Inr st3 \<and> ensure_directories st3 = Inr st4
       \<and> refresh_projects st4 = Inr st5 \<and> discover_projects env st5 = Inr st6
       \<and> update_users st6 = Inr st7 \<and> st' = write_file env st7"
  by (auto simp add: syncDevMap_def bind_result_eq_Inr)

lemma refresh_projects_result:
  "refresh_projects st = Inr st' \<Longrightarrow>
     (\<forall>k. k \<noteq> ''Projects'' \<longrightarrow> get_key (devmapData st') k = get_key (devmapData st) k)
     \<and> users st' = users st \<and> disk st' = disk st \<and> languages st' = languages st
     \<and> projectsPath st' = projectsPath st \<and> devmapFile st' = devmapFile st
     \<and> devmapFileName st' = devmapFileName st \<and> console st' = console st
     \<and> list_all2 (refreshed_record st) (declared_projects (devmapData st))
          (declared_projects (devmapData st'))
     \<and> list_all2 (refreshed_project st) (projects st) (projects st')
     \<and> (array_at (devmapData st) ''Projects'' = None \<longrightarrow> st' = st)"
proof (cases "array_at (devmapData st) ''Projects''")
  case None
  assume "refresh_projects st = Inr st'"
  with None have "st' = st" by (simp add: refresh_projects_def)
  then show ?thesis
    using None by (simp add: declared_projects_def list_all2_refl refreshed_project_refl)
next
  case (Some ps)
  assume "refresh_projects st = Inr st'"
  with Some obtain ps' projs' j where
    l: "refresh_loop st (projects st) ps = Inr (ps', projs')" and
    k: "set_key (devmapData st) ''Projects'' (JArray ps') = Inr j" and
    st': "st' = st\<lparr>devmapData := j, projects := projs'\<rparr>"
    by (auto simp add: refresh_projects_def bind_result_eq_Inr)
  have "declared_projects j = ps'"
    using set_key_same[OF k] by (simp add: declared_projects_def array_at_def)
  moreover have "declared_projects (devmapData st) = ps"
    using Some by (simp add: declared_projects_def)
  ultimately show ?thesis
    using refresh_loop_result[OF l] set_key_other[OF k] st' Some by simp
qed

lemma refreshed_record_keys:
  "refreshed_record st pd pd' \<Longrightarrow> k \<noteq> ''size'' \<Longrightarrow> k \<noteq> ''git'' \<Longrightarrow> get_key pd' k = get_key pd k"
  by (auto simp add: refreshed_record_def split: if_splits dest!: set_key_other[where k'=k])

lemma refreshed_record_value_string:
  "refreshed_record st pd pd' \<Longrightarrow> k \<noteq> ''size'' \<Longrightarrow> k \<noteq> ''git'' \<Longrightarrow>
     value_string pd k d = Inr s \<Longrightarrow> value_string pd' k d = Inr s"
  by (auto simp add: refreshed_record_def split: if_splits dest!: value_string_set_key[where k'=k])

lemma refreshed_record_identity:
  "refreshed_record st pd pd' \<Longrightarrow> record_identity pd' = record_identity pd \<and> record_identity pd \<noteq> None"
proof -
  assume r: "refreshed_record st pd pd'"
  then obtain language folder where
    l: "value_string pd ''lang'' [] = Inr language" and f: "value_string pd ''folderName'' [] = Inr folder"
    by (auto simp add: refreshed_record_def)
  have "value_string pd' ''lang'' [] = Inr language" "value_string pd' ''folderName'' [] = Inr folder"
    using refreshed_record_value_string[OF r _ _ l] refreshed_record_value_string[OF r _ _ f] by simp_all
  then show ?thesis
    using l f by (simp add: record_identity_def)
qed

lemma refreshed_record_missing:
  "refreshed_record st pd pd' \<Longrightarrow> \<not> record_directory st pd \<Longrightarrow> pd' = pd"
  by (auto simp add: refreshed_record_def record_directory_def record_identity_def split: if_splits)

lemma refreshed_record_present:
  "refreshed_record st pd pd' \<Longrightarrow> record_directory st pd \<Longrightarrow>
     \<exists>language folder sz git.
       record_identity pd = Some (language, folder)
       \<and> getFolderSize (disk st) (project_path st language folder) = Inr sz
       \<and> usesGit (disk st) (project_path st language folder) = Inr git
       \<and> get_key pd' ''size'' = Some (JNumber (uint sz))
       \<and> get_key pd' ''git'' = Some (JBool git)"
proof -
  assume r: "refreshed_record st pd pd'" and d: "record_directory st pd"
  from r obtain language folder where
    l: "value_string pd ''lang'' [] = Inr language" and f: "value_string pd ''folderName'' [] = Inr folder"
    and c: "if is_directory (disk st) (project_path st language folder) = Inr True
            then \<exists>sz git pd1.
                   getFolderSize (disk st) (project_path st language folder) = Inr sz
                   \<and> usesGit (disk st) (project_path st language folder) = Inr git
                   \<and> set_key pd ''size'' (JNumber (uint sz)) = Inr pd1
                   \<and> set_key pd1 ''git'' (JBool git) = Inr pd'
            else pd' = pd"
    unfolding refreshed_record_def by blast
  have i: "record_identity pd = Some (language, folder)"
    using l f by (simp add: record_identity_def)
  with d have "is_directory (disk st) (project_path st language folder) = Inr True"
    by (simp add: record_directory_def)
  with c obtain sz git pd1 where
    p: "getFolderSize (disk st) (project_path st language folder) = Inr sz"
       "usesGit (disk st) (project_path st language folder) = Inr git" and
    s1: "set_key pd ''size'' (JNumber (uint sz)) = Inr pd1" and
    s2: "set_key pd1 ''git'' (JBool git) = Inr pd'"
    by auto
  have "get_key pd' ''size'' = get_key pd1 ''size''"
    using set_key_other[OF s2, of "''size''"] by simp
  then have "get_key pd' ''size'' = Some (JNumber (uint sz))"
    using set_key_same[OF s1] by simp
  then show ?thesis
    using i p set_key_same[OF s2] by blast
qed

lemma refreshed_project_fields:
  "refreshed_project st proj proj' \<Longrightarrow>
     name proj' = name proj \<and> folderName proj' = folderName proj \<and> lang proj' = lang proj
     \<and> createdBy proj' = createdBy proj \<and> createdAt proj' = createdAt proj
     \<and> (\<not> project_directory st proj \<longrightarrow> proj' = proj)"
  by (auto simp add: refreshed_project_def project_directory_def)

text \<open>
  C4. The refresh of phase 4.5 leaves every member of every project record other
  than \<^verbatim>\<open>size\<close> and \<^verbatim>\<open>git\<close> as it was; a record whose directory is not there is left
  as it was altogether, and a record whose directory is there gets the two probes of
  that directory. In the vector, name, folder name, language, creator and creation
  time of every project stay, and a project whose directory is not there stays as a
  whole. No record is added, dropped or moved, and nothing else of the registry, the
  disk or the other globals changes.
\<close>

theorem refresh_frame:
  assumes "refresh_projects st = Inr st'"
  shows
    "list_all2
       (\<lambda>pd pd'. (\<forall>k. k \<noteq> ''size'' \<and> k \<noteq> ''git'' \<longrightarrow> get_key pd' k = get_key pd k)
                  \<and> (\<not> record_directory st pd \<longrightarrow> pd' = pd)
                  \<and> (record_directory st pd \<longrightarrow>
                       (\<exists>language folder sz git.
                          record_identity pd = Some (language, folder)
                          \<and> getFolderSize (disk st) (project_path st language folder) = Inr sz
                          \<and> usesGit (disk st) (project_path st language folder) = Inr git
                          \<and> get_key pd' ''size'' = Some (JNumber (uint sz))
                          \<and> get_key pd' ''git'' = Some (JBool git))))
       (declared_projects (devmapData st)) (declared_projects (devmapData st'))
     \<and> list_all2
         (\<lambda>proj proj'. name proj' = name proj \<and> folderName proj' = folderName proj
                        \<and> lang proj' = lang proj \<and> createdBy proj' = createdBy proj
                        \<and> createdAt proj' = createdAt proj
                        \<and> (\<not> project_directory st proj \<longrightarrow> proj' = proj))
         (projects st) (projects st')
     \<and> (\<forall>k. k \<noteq> ''Projects'' \<longrightarrow> get_key (devmapData st') k = get_key (devmapData st) k)
     \<and> disk st' = disk st \<and> languages st' = languages st \<and> users st' = users st
     \<and> devmapFile st' = devmapFile st"
proof -
  note r = refresh_projects_result[OF assms]
  have a: "list_all2
       (\<lambda>pd pd'. (\<forall>k. k \<noteq> ''size'' \<and> k \<noteq> ''git'' \<longrightarrow> get_key pd' k = get_key pd k)
                  \<and> (\<not> record_directory st pd \<longrightarrow> pd' = pd)
                  \<and> (record_directory st pd \<longrightarrow>
                       (\<exists>language folder sz git.
                          record_identity pd = Some (language, folder)
                          \<and> getFolderSize (disk st) (project_path st language folder) = Inr sz
                          \<and> usesGit (disk st) (project_path st language folder) = Inr git
                          \<and> get_key pd' ''size'' = Some (JNumber (uint sz))
                          \<and> get_key pd' ''git'' = Some (JBool git))))
       (declared_projects (devmapData st)) (declared_projects (devmapData st'))"
  proof (rule list_all2_mono[of "refreshed_record st"])
    show "list_all2 (refreshed_record st) (declared_projects (devmapData st))
            (declared_projects (devmapData st'))"
      using r by simp
  next
    fix pd pd'
    assume rr: "refreshed_record st pd pd'"
    show "(\<forall>k. k \<noteq> ''size'' \<and> k \<noteq> ''git'' \<longrightarrow> get_key pd' k = get_key pd k)
                  \<and> (\<not> record_directory st pd \<longrightarrow> pd' = pd)
                  \<and> (record_directory st pd \<longrightarrow>
                       (\<exists>language folder sz git.
                          record_identity pd = Some (language, folder)
                          \<and> getFolderSize (disk st) (project_path st language folder) = Inr sz
                          \<and> usesGit (disk st) (project_path st language folder) = Inr git
                          \<and> get_key pd' ''size'' = Some (JNumber (uint sz))
                          \<and> get_key pd' ''git'' = Some (JBool git)))"
      using refreshed_record_keys[OF rr] refreshed_record_missing[OF rr]
        refreshed_record_present[OF rr]
      by blast
  qed
  have b: "list_all2
         (\<lambda>proj proj'. name proj' = name proj \<and> folderName proj' = folderName proj
                        \<and> lang proj' = lang proj \<and> createdBy proj' = createdBy proj
                        \<and> createdAt proj' = createdAt proj
                        \<and> (\<not> project_directory st proj \<longrightarrow> proj' = proj))
         (projects st) (projects st')"
    by (rule list_all2_mono[of "refreshed_project st"])
       (use r in \<open>auto dest: refreshed_project_fields\<close>)
  show ?thesis
    using a b r by simp
qed

theorem refresh_frame_witness:
  "refresh_projects svc_before_refresh = Inr svc_after_refresh
   \<and> (list_all2
       (\<lambda>pd pd'. (\<forall>k. k \<noteq> ''size'' \<and> k \<noteq> ''git'' \<longrightarrow> get_key pd' k = get_key pd k)
                  \<and> (\<not> record_directory svc_before_refresh pd \<longrightarrow> pd' = pd)
                  \<and> (record_directory svc_before_refresh pd \<longrightarrow>
                       (\<exists>language folder sz git.
                          record_identity pd = Some (language, folder)
                          \<and> getFolderSize (disk svc_before_refresh)
                                (project_path svc_before_refresh language folder) = Inr sz
                          \<and> usesGit (disk svc_before_refresh)
                                (project_path svc_before_refresh language folder) = Inr git
                          \<and> get_key pd' ''size'' = Some (JNumber (uint sz))
                          \<and> get_key pd' ''git'' = Some (JBool git))))
       (declared_projects (devmapData svc_before_refresh))
       (declared_projects (devmapData svc_after_refresh))
     \<and> list_all2
         (\<lambda>proj proj'. name proj' = name proj \<and> folderName proj' = folderName proj
                        \<and> lang proj' = lang proj \<and> createdBy proj' = createdBy proj
                        \<and> createdAt proj' = createdAt proj
                        \<and> (\<not> project_directory svc_before_refresh proj \<longrightarrow> proj' = proj))
         (projects svc_before_refresh) (projects svc_after_refresh)
     \<and> get_key (devmapData svc_after_refresh) ''Users''
           = get_key (devmapData svc_before_refresh) ''Users''
     \<and> get_key (devmapData svc_after_refresh) ''Languages''
           = get_key (devmapData svc_before_refresh) ''Languages''
     \<and> disk svc_after_refresh = disk svc_before_refresh
     \<and> languages svc_after_refresh = languages svc_before_refresh
     \<and> users svc_after_refresh = users svc_before_refresh
     \<and> devmapFile svc_after_refresh = devmapFile svc_before_refresh)
   \<and> declared_projects (devmapData svc_before_refresh) = [svc_record]
   \<and> declared_projects (devmapData svc_after_refresh) = [svc_record_refreshed 40]
   \<and> record_directory svc_before_refresh svc_record"
proof -
  have h: "refresh_projects svc_before_refresh = Inr svc_after_refresh"
    by code_simp
  have d: "declared_projects (devmapData svc_before_refresh) = [svc_record]"
    "declared_projects (devmapData svc_after_refresh) = [svc_record_refreshed 40]"
    "record_directory svc_before_refresh svc_record"
    by code_simp+
  note t = refresh_frame[OF h]
  note records = t[THEN conjunct1]
  note vector = t[THEN conjunct2, THEN conjunct1]
  note members = t[THEN conjunct2, THEN conjunct2, THEN conjunct1, rule_format]
  note others = t[THEN conjunct2, THEN conjunct2, THEN conjunct2]
  have u: "get_key (devmapData svc_after_refresh) ''Users''
             = get_key (devmapData svc_before_refresh) ''Users''"
    by (rule members) simp
  have l: "get_key (devmapData svc_after_refresh) ''Languages''
             = get_key (devmapData svc_before_refresh) ''Languages''"
    by (rule members) simp
  show ?thesis
    by (intro conjI h records vector u l d others[THEN conjunct1]
        others[THEN conjunct2, THEN conjunct1]
        others[THEN conjunct2, THEN conjunct2, THEN conjunct1]
        others[THEN conjunct2, THEN conjunct2, THEN conjunct2])
qed

lemma write_file_frame:
  "devmapData (write_file env st) = devmapData st \<and> projects (write_file env st) = projects st
   \<and> users (write_file env st) = users st \<and> disk (write_file env st) = disk st
   \<and> languages (write_file env st) = languages st
   \<and> devmapFile (write_file env st) = (if file_opens env then Some (devmapData st) else devmapFile st)"
  by (simp add: write_file_def)

lemma syncDevMap_trace:
  assumes "syncDevMap env st = Inr st'"
  shows "\<exists>st4 loadedp refp newp refj newj.
     list_all2 (\<lambda>pd proj. project_of_json env pd = Inr proj) (declared_projects (devmapData st)) loadedp
     \<and> users st4 = fold (\<lambda>proj us. insort_insert (createdBy proj) us) loadedp []
     \<and> list_all2 (refreshed_project st4) loadedp refp
     \<and> projects st' = refp @ newp
     \<and> list_all (\<lambda>p. createdBy p = ''unknown'') newp
     \<and> list_all2 (refreshed_record st4) (declared_projects (devmapData st)) refj
     \<and> declared_projects (devmapData st') = refj @ newj
     \<and> (case array_at (devmapData st) ''Users'' of
           None \<Rightarrow> users st' = users st4
                     \<and> get_key (devmapData st') ''Users'' = get_key (devmapData st) ''Users''
         | Some us \<Rightarrow> users st' = fold insort_insert (string_elements us) (users st4)
                     \<and> get_key (devmapData st') ''Users'' = Some (JArray (map JString (users st'))))
     \<and> devmapFile st' = (if file_opens env then Some (devmapData st') else devmapFile st)"
proof -
  from syncDevMap_phases[OF assms] obtain st1 st2 st3 st4 st5 st6 st7 where
    p1: "sync_languages (st\<lparr>users := []\<rparr>) = Inr st1" and
    p2: "scan_languages st1 = Inr st2" and
    p3: "load_projects env st2 = Inr st3" and
    p4: "ensure_directories st3 = Inr st4" and
    p5: "refresh_projects st4 = Inr st5" and
    p6: "discover_projects env st5 = Inr st6" and
    p7: "update_users st6 = Inr st7" and
    p8: "st' = write_file env st7"
    by blast
  note f1 = sync_languages_frame[OF p1]
  note f2 = scan_languages_frame[OF p2]
  from load_projects_result[OF p3] obtain loadedp where
    st3: "st3 = st2\<lparr>projects := loadedp\<rparr>" and
    l3: "list_all2 (\<lambda>pd proj. project_of_json env pd = Inr proj)
           (case array_at (devmapData st2) ''Projects'' of Some ps \<Rightarrow> ps | None \<Rightarrow> []) loadedp"
    by blast
  note f4 = ensure_loop_frame[OF p4[unfolded ensure_directories_def]]
  note f5 = refresh_projects_result[OF p5]
  note f6 = discover_languages_loop_frame[OF p6[unfolded discover_projects_def]]
  note f7 = update_users_result[OF p7]
  note f8 = write_file_frame[of env st7]
  have d2: "declared_projects (devmapData st2) = declared_projects (devmapData st)"
    using f1 f2 by (intro declared_projects_get_key) simp
  have d4: "declared_projects (devmapData st4) = declared_projects (devmapData st)"
    using f4 st3 d2 by simp
  have loaded: "list_all2 (\<lambda>pd proj. project_of_json env pd = Inr proj)
                  (declared_projects (devmapData st)) loadedp"
    using l3 d2 by (simp add: declared_projects_def)
  have u4: "users st4 = fold (\<lambda>proj us. insort_insert (createdBy proj) us) loadedp []"
    using f4 st3 f2 f1 by simp
  have p4': "projects st4 = loadedp"
    using f4 st3 by simp
  from f6 obtain newp newj where
    n6: "projects st6 = projects st5 @ newp" "list_all (\<lambda>p. createdBy p = ''unknown'') newp"
        "declared_projects (devmapData st6) = declared_projects (devmapData st5) @ newj"
    by blast
  have d7: "declared_projects (devmapData st7) = declared_projects (devmapData st6)"
    using f7 by (intro declared_projects_get_key) simp
  have pr: "projects st' = projects st5 @ newp"
    using p8 f8 f7 n6 by simp
  have dj: "declared_projects (devmapData st') = declared_projects (devmapData st5) @ newj"
    using p8 f8 d7 n6 by simp
  have rp: "list_all2 (refreshed_project st4) loadedp (projects st5)"
    using f5 p4' by simp
  have rj: "list_all2 (refreshed_record st4) (declared_projects (devmapData st))
              (declared_projects (devmapData st5))"
    using f5 d4 by simp
  have k6: "get_key (devmapData st6) ''Users'' = get_key (devmapData st) ''Users''"
    using f6 f5 f4 st3 f2 f1 by simp
  then have a6: "array_at (devmapData st6) ''Users'' = array_at (devmapData st) ''Users''"
    by (rule array_at_get_key)
  have us: "case array_at (devmapData st) ''Users'' of
           None \<Rightarrow> users st' = users st4
                     \<and> get_key (devmapData st') ''Users'' = get_key (devmapData st) ''Users''
         | Some us \<Rightarrow> users st' = fold insort_insert (string_elements us) (users st4)
                     \<and> get_key (devmapData st') ''Users'' = Some (JArray (map JString (users st')))"
    using f7 a6 k6 f6 f5 p8 f8 by (auto split: option.splits)
  have fl: "devmapFile st' = (if file_opens env then Some (devmapData st') else devmapFile st)"
    using p8 f8 f7 f6 f5 f4 st3 f2 f1 by simp
  show ?thesis
    using loaded u4 rp pr n6(2) rj dj us fl by blast
qed

lemma list_all2_map_eq:
  "list_all2 R xs ys \<Longrightarrow> (\<And>x y. R x y \<Longrightarrow> f x = g y) \<Longrightarrow> map f xs = map g ys"
  by (induction rule: list_all2_induct) simp_all

lemma loaded_identities:
  assumes "list_all2 (\<lambda>pd proj. project_of_json env pd = Inr proj) ps projs"
  shows "map record_identity ps = map (\<lambda>p. Some (lang p, folderName p)) projs"
  by (rule list_all2_map_eq[OF assms])
     (auto simp add: record_identity_def dest!: project_of_json_fields)

lemma loaded_created_by:
  assumes "list_all2 (\<lambda>pd proj. project_of_json env pd = Inr proj) ps projs"
  shows "List.map_filter (\<lambda>pd. case value_string pd ''created_by'' [] of Inr s \<Rightarrow> Some s | Inl e \<Rightarrow> None) ps
           = map createdBy projs"
  using assms
  by (induction rule: list_all2_induct)
     (auto simp add: List.map_filter_simps dest!: project_of_json_fields)

lemma refreshed_identities:
  assumes "list_all2 (refreshed_record st) ps ps'"
  shows "map record_identity ps' = map record_identity ps"
    and "list_all (\<lambda>pd. record_identity pd \<noteq> None) ps"
proof -
  have "map record_identity ps = map record_identity ps'"
    by (rule list_all2_map_eq[OF assms]) (simp add: refreshed_record_identity)
  then show "map record_identity ps' = map record_identity ps" by simp
  show "list_all (\<lambda>pd. record_identity pd \<noteq> None) ps"
    using assms by (induction rule: list_all2_induct) (auto dest: refreshed_record_identity)
qed

lemma refreshed_projects_same:
  assumes "list_all2 (refreshed_project st) projs projs'"
  shows "map (\<lambda>p. Some (lang p, folderName p)) projs' = map (\<lambda>p. Some (lang p, folderName p)) projs"
    and "map createdBy projs' = map createdBy projs"
proof -
  have "map (\<lambda>p. Some (lang p, folderName p)) projs = map (\<lambda>p. Some (lang p, folderName p)) projs'"
    by (rule list_all2_map_eq[OF assms]) (simp add: refreshed_project_fields)
  then show "map (\<lambda>p. Some (lang p, folderName p)) projs' = map (\<lambda>p. Some (lang p, folderName p)) projs"
    by simp
  have "map createdBy projs = map createdBy projs'"
    by (rule list_all2_map_eq[OF assms]) (simp add: refreshed_project_fields)
  then show "map createdBy projs' = map createdBy projs" by simp
qed



lemma fold_insort_insert_set':
  "set (fold insort_insert xs us) = set us \<union> set xs"
  using fold_insort_insert_set[of id xs us] by (simp add: id_def)

lemma fold_insort_insert_sorted':
  "sorted us \<Longrightarrow> distinct us \<Longrightarrow>
     sorted (fold insort_insert xs us) \<and> distinct (fold insort_insert xs us)"
  using fold_insort_insert_sorted[of us id xs] by (simp add: id_def)

text \<open>
  C9. When the registry a pass starts from has no array under \<^verbatim>\<open>Users\<close>, the pass leaves
  the \<^verbatim>\<open>Users\<close> member as it found it (none where there was none) and writes the
  registry to the file so, although the user set of the namespace then holds the
  \<^verbatim>\<open>created_by\<close> values of the records.
\<close>

theorem users_rewrite_skipped:
  assumes "array_at (devmapData st) ''Users'' = None" and "syncDevMap env st = Inr st'"
  shows "get_key (devmapData st') ''Users'' = get_key (devmapData st) ''Users''
     \<and> devmapFile st' = (if file_opens env then Some (devmapData st') else devmapFile st)
     \<and> set (users st') = set (created_by_values (devmapData st))"
proof -
  from syncDevMap_trace[OF assms(2)] obtain st4 loadedp refp newp refj newj where
    l: "list_all2 (\<lambda>pd proj. project_of_json env pd = Inr proj) (declared_projects (devmapData st)) loadedp" and
    u4: "users st4 = fold (\<lambda>proj us. insort_insert (createdBy proj) us) loadedp []" and
    rp: "list_all2 (refreshed_project st4) loadedp refp" and
    pr: "projects st' = refp @ newp" and
    un: "list_all (\<lambda>p. createdBy p = ''unknown'') newp" and
    rj: "list_all2 (refreshed_record st4) (declared_projects (devmapData st)) refj" and
    dj: "declared_projects (devmapData st') = refj @ newj" and
    us: "case array_at (devmapData st) ''Users'' of
           None \<Rightarrow> users st' = users st4
                     \<and> get_key (devmapData st') ''Users'' = get_key (devmapData st) ''Users''
         | Some us \<Rightarrow> users st' = fold insort_insert (string_elements us) (users st4)
                     \<and> get_key (devmapData st') ''Users'' = Some (JArray (map JString (users st')))" and
    fl: "devmapFile st' = (if file_opens env then Some (devmapData st') else devmapFile st)"
    by (elim exE conjE) (rule that; assumption)
  have "set (users st') = createdBy ` set loadedp"
    using us assms(1) u4 by (simp add: fold_insort_insert_set)
  moreover have "created_by_values (devmapData st) = map createdBy loadedp"
    unfolding created_by_values_def by (rule loaded_created_by[OF l])
  ultimately show ?thesis
    using us assms(1) fl by simp
qed

theorem users_rewrite_skipped_witness:
  "array_at (devmapData (loaded clock_env svc_disk svc_registry_no_users)) ''Users'' = None
   \<and> syncDevMap clock_env (loaded clock_env svc_disk svc_registry_no_users) = Inr svc_synced_no_users
   \<and> (get_key (devmapData svc_synced_no_users) ''Users''
        = get_key (devmapData (loaded clock_env svc_disk svc_registry_no_users)) ''Users''
     \<and> devmapFile svc_synced_no_users =
         (if file_opens clock_env then Some (devmapData svc_synced_no_users)
          else devmapFile (loaded clock_env svc_disk svc_registry_no_users))
     \<and> set (users svc_synced_no_users)
         = set (created_by_values (devmapData (loaded clock_env svc_disk svc_registry_no_users))))
   \<and> get_key (devmapData svc_synced_no_users) ''Users'' = None
   \<and> users svc_synced_no_users = [''alice'']"
proof -
  have a: "array_at (devmapData (loaded clock_env svc_disk svc_registry_no_users)) ''Users'' = None"
    by code_simp
  have h: "syncDevMap clock_env (loaded clock_env svc_disk svc_registry_no_users) = Inr svc_synced_no_users"
    by code_simp
  have v: "get_key (devmapData svc_synced_no_users) ''Users'' = None"
    "users svc_synced_no_users = [''alice'']"
    by code_simp+
  show ?thesis
    using users_rewrite_skipped[OF a h] a h v by blast
qed

text \<open>
  The user set after a pass that returns: the \<^verbatim>\<open>created_by\<close> values of the records the
  registry declared when the pass began, and the users it listed then; sorted, without
  duplicates. The creator of a project that phase 5 registers is not among them, unless
  it is there for one of these reasons.
\<close>

lemma users_of_pass:
  assumes "syncDevMap env st = Inr st'"
  shows "set (users st') = set (created_by_values (devmapData st)) \<union> set (persisted_users (devmapData st))
     \<and> sorted (users st') \<and> distinct (users st')"
proof -
  from syncDevMap_trace[OF assms] obtain st4 loadedp refp newp refj newj where
    l: "list_all2 (\<lambda>pd proj. project_of_json env pd = Inr proj) (declared_projects (devmapData st)) loadedp" and
    u4: "users st4 = fold (\<lambda>proj us. insort_insert (createdBy proj) us) loadedp []" and
    rp: "list_all2 (refreshed_project st4) loadedp refp" and
    pr: "projects st' = refp @ newp" and
    un: "list_all (\<lambda>p. createdBy p = ''unknown'') newp" and
    rj: "list_all2 (refreshed_record st4) (declared_projects (devmapData st)) refj" and
    dj: "declared_projects (devmapData st') = refj @ newj" and
    us: "case array_at (devmapData st) ''Users'' of
           None \<Rightarrow> users st' = users st4
                     \<and> get_key (devmapData st') ''Users'' = get_key (devmapData st) ''Users''
         | Some us \<Rightarrow> users st' = fold insort_insert (string_elements us) (users st4)
                     \<and> get_key (devmapData st') ''Users'' = Some (JArray (map JString (users st')))" and
    fl: "devmapFile st' = (if file_opens env then Some (devmapData st') else devmapFile st)"
    by (elim exE conjE) (rule that; assumption)
  have c: "created_by_values (devmapData st) = map createdBy loadedp"
    unfolding created_by_values_def by (rule loaded_created_by[OF l])
  have s4: "set (users st4) = createdBy ` set loadedp"
    using u4 by (simp add: fold_insort_insert_set)
  have o4: "sorted (users st4) \<and> distinct (users st4)"
    using u4 fold_insort_insert_sorted[of "[]" createdBy loadedp] by simp
  show ?thesis
  proof (cases "array_at (devmapData st) ''Users''")
    case None
    then show ?thesis
      using us c s4 o4 by (simp add: persisted_users_def)
  next
    case (Some js)
    then have u: "users st' = fold insort_insert (string_elements js) (users st4)"
      using us by simp
    have "set (users st') = createdBy ` set loadedp \<union> set (string_elements js)"
      using u s4 by (simp add: fold_insort_insert_set')
    moreover have "sorted (users st') \<and> distinct (users st')"
      using u o4 fold_insort_insert_sorted'[of "users st4" "string_elements js"] by simp
    ultimately show ?thesis
      using Some c by (simp add: persisted_users_def)
  qed
qed

subsection \<open>Discovery, and directories that cannot be created\<close>

text \<open>
  C3 at scenario 2 of the specification. The directory \<^verbatim>\<open>Python/foo\<close> holds 1500 bytes,
  and the pass registers it with size 0: the probes are given the path
  \<^verbatim>\<open>/home/u/home/u/Projects/Python/foo\<close>, which is not there. The next pass, through
  phase 4.5, finds the 1500 bytes.
\<close>

theorem discovered_project_probed_elsewhere:
  "syncDevMap clock_env (loaded clock_env python_disk python_registry) = Inr python_synced
   \<and> projects python_synced
       = [\<lparr>name = ''foo'', folderName = ''foo'', lang = ''Python'', createdBy = ''unknown'',
           createdAt = now clock_env, size_bytes = 0, uses_git = False\<rparr>]
   \<and> map (\<lambda>pd. get_key pd ''size'') (declared_projects (devmapData python_synced))
       = [Some (JNumber 0)]
   \<and> project_path (loaded clock_env python_disk python_registry) ''Python'' ''foo''
       = ''/home/u/Projects/Python/foo''
   \<and> getFolderSize python_disk ''/home/u/Projects/Python/foo'' = Inr 1500
   \<and> HOME_PATH clock_env @ projectsPath (loaded clock_env python_disk python_registry)
         @ ''Python'' @ ''/'' @ ''foo''
       = ''/home/u/home/u/Projects/Python/foo''
   \<and> getFolderSize python_disk ''/home/u/home/u/Projects/Python/foo'' = Inr 0
   \<and> map_sum id (\<lambda>st. map (\<lambda>pd. get_key pd ''size'') (declared_projects (devmapData st)))
         (syncDevMap clock_env python_synced)
       = Inr [Some (JNumber 1500)]"
  by code_simp

text \<open>
  C2 at scenario 2 of the specification. The registry lists no user, and the pass
  registers the project \<^verbatim>\<open>Python/foo\<close> with the creator \<^verbatim>\<open>unknown\<close>; yet the user set
  after the pass is empty, and so is the \<^verbatim>\<open>Users\<close> array of the registry that is
  written to the file: they are not the union of the creators of the projects and the
  users listed before. A creator enters the user set in phase 4 only, which runs before
  phase 5 registers the project. The next pass loads the record and adds \<^verbatim>\<open>unknown\<close> to
  the users.
\<close>

theorem discovered_creator_missing:
  "syncDevMap clock_env (loaded clock_env python_disk python_registry) = Inr python_synced
   \<and> persisted_users python_registry = []
   \<and> map createdBy (projects python_synced) = [''unknown'']
   \<and> users python_synced = []
   \<and> devmapFile python_synced = Some (devmapData python_synced)
   \<and> created_by_values (devmapData python_synced) = [''unknown'']
   \<and> persisted_users (devmapData python_synced) = []
   \<and> set (users python_synced)
       \<noteq> set (map createdBy (projects python_synced)) \<union> set (persisted_users python_registry)
   \<and> set (persisted_users (devmapData python_synced))
       \<noteq> set (created_by_values (devmapData python_synced)) \<union> set (persisted_users python_registry)
   \<and> map_sum id (\<lambda>st. (users st, persisted_users (devmapData st)))
         (syncDevMap clock_env python_synced)
       = Inr ([''unknown''], [''unknown''])"
  by code_simp

text \<open>
  C5 at a language whose place on the disk is taken by a dangling link:
  \<^verbatim>\<open>fs::create_directories\<close> throws in phase 1, outside of any \<^verbatim>\<open>try\<close>, and the pass
  ends there with nothing written. The same obstacle in the place of a project
  directory is caught in \<^verbatim>\<open>CreateProject\<close> and reported, and the pass goes on: the
  record keeps its size and git values and the file is written.
\<close>

theorem language_directory_failure_aborts:
  "syncDevMap clock_env (loaded clock_env dangling_language_disk go_registry) = Inl filesystem_error
   \<and> map_sum id (\<lambda>st. (console st, devmapFile st))
         (syncDevMap clock_env (loaded clock_env dangling_project_disk svc_registry))
       = Inr ([PrintInfo ''Added new language from filesystem to DevMap: Go'',
               PrintError ''Error creating project directory: filesystem error''],
              Some (JObject [(''Languages'', JArray [JString ''Go'']),
                             (''Projects'', JArray [svc_record]),
                             (''Users'', JArray [JString ''alice''])]))"
  by code_simp

subsection \<open>Two passes in a row\<close>

text \<open>
  When the registry and the disk agree, phases 1, 2 and 5 do nothing and phase 4 at
  most reports the directories it cannot make, and a pass is the loading of the
  records, their refresh, the rewriting of the users and the writing of the file.
\<close>

lemma string_elements_map [simp]: "string_elements (map JString strs) = strs"
  by (induction strs) (simp_all add: string_elements_def List.map_filter_simps)

lemma languages_loop_strings:
  "languages_loop st ls = Inr st' \<Longrightarrow> ls = map JString (string_elements ls)"
proof (induction ls arbitrary: st)
  case Nil
  show ?case by (simp add: string_elements_def List.map_filter_simps)
next
  case (Cons l ls)
  from Cons.prems obtain s st1 where l: "l = JString s" and r: "languages_loop st1 ls = Inr st'"
    by (auto simp add: bind_result_eq_Inr get_string_def Let_def
        split: json.splits if_splits prod.splits option.splits)
  show ?case
    using Cons.IH[OF r] l by (simp add: string_elements_def List.map_filter_simps)
qed

lemma languages_loop_existing:
  "list_all (\<lambda>l. exists (disk st) (path_append (projectsPath st) l) = Inr True) strs \<Longrightarrow>
     languages_loop st (map JString strs) = Inr (st\<lparr>languages := languages st @ strs\<rparr>)"
proof (induction strs arbitrary: st)
  case Nil
  show ?case by simp
next
  case (Cons s strs)
  have "languages_loop (st\<lparr>languages := languages st @ [s]\<rparr>) (map JString strs)
          = Inr (st\<lparr>languages := languages st @ [s]\<rparr>
                   \<lparr>languages := languages (st\<lparr>languages := languages st @ [s]\<rparr>) @ strs\<rparr>)"
    using Cons.prems by (intro Cons.IH) simp
  then show ?case
    using Cons.prems by (simp add: get_string_def Let_def)
qed

lemma scan_loop_known:
  "list_all (\<lambda>(entry, n). case entry_status (disk st) loc n of
                              Inl e \<Rightarrow> False
                            | Inr est \<Rightarrow> is_dir_node est \<longrightarrow> entry \<in> set (languages st)) es \<Longrightarrow>
     scan_loop st loc es = Inr st"
proof (induction es)
  case Nil
  show ?case by simp
next
  case (Cons e es)
  obtain entry n where e: "e = (entry, n)" by (cases e)
  show ?case
    using Cons.prems Cons.IH unfolding e
    by (auto split: sum.splits)
qed

lemma scan_languages_known:
  "all_subdirectories (disk st) (projectsPath st) (\<lambda>entry. entry \<in> set (languages st)) \<Longrightarrow>
     scan_languages st = Inr st"
proof -
  assume a: "all_subdirectories (disk st) (projectsPath st) (\<lambda>entry. entry \<in> set (languages st))"
  then obtain loc es where d: "directory_iterator (disk st) (projectsPath st) = Inr (loc, es)"
    by (cases "directory_iterator (disk st) (projectsPath st)") (auto simp add: all_subdirectories_def)
  show ?thesis
    using a d scan_loop_known[of st loc es] by (simp add: all_subdirectories_def scan_languages_def)
qed

lemma settled_directory_cong:
  assumes "disk s = disk st" "projectsPath s = projectsPath st"
  shows "settled_directory s l f = settled_directory st l f"
proof -
  have p: "project_path s l f = project_path st l f"
    using assms(2) by (simp add: project_path_def)
  show ?thesis
    unfolding settled_directory_def assms(1) p ..
qed

lemma settled_directory_status:
  "settled_directory st l f \<Longrightarrow> \<exists>b. is_directory (disk st) (project_path st l f) = Inr b"
  by (cases "status (disk st) (project_path st l f)")
     (auto simp add: settled_directory_def exists_def is_directory_def)

lemma ensure_loop_settled:
  "list_all (\<lambda>proj. settled_directory st (lang proj) (folderName proj)) projs \<Longrightarrow>
     \<exists>msgs. ensure_loop st projs
       = Inr (st\<lparr>users := fold (\<lambda>proj us. insort_insert (createdBy proj) us) projs (users st),
                 console := console st @ msgs\<rparr>)"
proof (induction projs arbitrary: st)
  case Nil
  have "ensure_loop st [] = Inr (st\<lparr>users := users st, console := console st @ []\<rparr>)"
    by simp
  then show ?case
    unfolding fold.simps id_apply by (rule exI)
next
  case (Cons proj projs)
  define st1 where "st1 = st\<lparr>users := insort_insert (createdBy proj) (users st)\<rparr>"
  have same: "disk st1 = disk st" "projectsPath st1 = projectsPath st" "console st1 = console st"
    "users st1 = insort_insert (createdBy proj) (users st)"
    by (simp_all add: st1_def)
  have p: "project_path st1 (lang proj) (folderName proj) = project_path st (lang proj) (folderName proj)"
    by (simp add: project_path_def same)
  from Cons.prems have here: "settled_directory st (lang proj) (folderName proj)"
    and rest: "list_all (\<lambda>proj. settled_directory st (lang proj) (folderName proj)) projs"
    by simp_all
  from here obtain ex where
    ex: "exists (disk st) (project_path st (lang proj) (folderName proj)) = Inr ex"
    by (auto simp add: settled_directory_def split: sum.splits)
  show ?case
  proof (cases ex)
    case True
    have "list_all (\<lambda>proj. settled_directory st1 (lang proj) (folderName proj)) projs"
      using rest by (simp add: settled_directory_cong[OF same(1,2)])
    from Cons.IH[OF this] obtain msgs where
      "ensure_loop st1 projs
         = Inr (st1\<lparr>users := fold (\<lambda>proj us. insort_insert (createdBy proj) us) projs (users st1),
                    console := console st1 @ msgs\<rparr>)"
      by blast
    then have "ensure_loop st (proj # projs)
         = Inr (st\<lparr>users := fold (\<lambda>proj us. insort_insert (createdBy proj) us) (proj # projs) (users st),
                    console := console st @ msgs\<rparr>)"
      using ex True by (simp add: Let_def st1_def[symmetric] same p) (simp add: st1_def)
    then show ?thesis by (rule exI)
  next
    case False
    with here ex obtain e where
      cd: "create_directories (disk st) (project_path st (lang proj) (folderName proj)) = (Some e, disk st)"
      by (auto simp add: settled_directory_def split: prod.splits option.splits)
    define st2 where
      "st2 = st1\<lparr>console := console st1 @ [PrintError (''Error creating project directory: '' @ what e)]\<rparr>"
    have cp: "CreateProject st1 proj = st2"
      using ex False cd by (simp add: CreateProject_def Let_def same p st2_def)
    have same2: "disk st2 = disk st" "projectsPath st2 = projectsPath st"
      "users st2 = insort_insert (createdBy proj) (users st)"
      "console st2 = console st @ [PrintError (''Error creating project directory: '' @ what e)]"
      by (simp_all add: st2_def same)
    have "list_all (\<lambda>proj. settled_directory st2 (lang proj) (folderName proj)) projs"
      using rest by (simp add: settled_directory_cong[OF same2(1,2)])
    from Cons.IH[OF this] obtain msgs where
      "ensure_loop st2 projs
         = Inr (st2\<lparr>users := fold (\<lambda>proj us. insort_insert (createdBy proj) us) projs (users st2),
                    console := console st2 @ msgs\<rparr>)"
      by blast
    then have "ensure_loop st (proj # projs)
         = Inr (st\<lparr>users := fold (\<lambda>proj us. insort_insert (createdBy proj) us) (proj # projs) (users st),
                    console := console st
                      @ (PrintError (''Error creating project directory: '' @ what e) # msgs)\<rparr>)"
      using ex False cp by (simp add: Let_def st1_def[symmetric] same p) (simp add: st2_def st1_def)
    then show ?thesis by (rule exI)
  qed
qed

lemma discover_loop_known:
  "list_all (\<lambda>(entry, n). case entry_status (disk st) loc n of
                              Inl e \<Rightarrow> False
                            | Inr est \<Rightarrow> is_dir_node est \<longrightarrow>
                                list_ex (\<lambda>proj. folderName proj = entry \<and> lang proj = language) (projects st)) es \<Longrightarrow>
     discover_loop env st language loc es = Inr st"
proof (induction es)
  case Nil
  show ?case by simp
next
  case (Cons e es)
  obtain entry n where e: "e = (entry, n)" by (cases e)
  show ?case
    using Cons.prems Cons.IH unfolding e
    by (auto split: sum.splits)
qed

lemma discover_languages_loop_known:
  "list_all (\<lambda>l. exists (disk st) (path_append (projectsPath st) l) = Inr True
               \<and> all_subdirectories (disk st) (path_append (projectsPath st) l)
                    (\<lambda>entry. list_ex (\<lambda>proj. folderName proj = entry \<and> lang proj = l) (projects st))) ls \<Longrightarrow>
     discover_languages_loop env st ls = Inr st"
proof (induction ls)
  case Nil
  show ?case by simp
next
  case (Cons l ls)
  from Cons.prems have e: "exists (disk st) (path_append (projectsPath st) l) = Inr True"
    and a: "all_subdirectories (disk st) (path_append (projectsPath st) l)
              (\<lambda>entry. list_ex (\<lambda>proj. folderName proj = entry \<and> lang proj = l) (projects st))"
    and r: "discover_languages_loop env st ls = Inr st"
    using Cons.IH by simp_all
  from a obtain loc es where
    d: "directory_iterator (disk st) (path_append (projectsPath st) l) = Inr (loc, es)"
    by (cases "directory_iterator (disk st) (path_append (projectsPath st) l)")
       (auto simp add: all_subdirectories_def)
  have "discover_loop env st l loc es = Inr st"
    using a d by (intro discover_loop_known) (simp add: all_subdirectories_def)
  then show ?case
    using e d r by (simp add: Let_def)
qed

lemma projects_loop_all2:
  "list_all2 (\<lambda>pd proj. project_of_json env pd = Inr proj) ps news \<Longrightarrow>
     projects_loop env acc ps = Inr (acc @ news)"
proof (induction arbitrary: acc rule: list_all2_induct)
  case Nil
  show ?case by simp
next
  case (Cons pd ps proj news)
  show ?case
    using Cons.hyps(1) Cons.IH[of "acc @ [proj]"] by simp
qed

lemma load_projects_declared:
  "load_projects env st
     = bind_result (projects_loop env [] (declared_projects (devmapData st)))
         (\<lambda>projs. Inr (st\<lparr>projects := projs\<rparr>))"
  by (simp add: load_projects_def declared_projects_def split: option.splits)

lemma sync_languages_consistent:
  assumes "consistent st" and "languages_are_strings st"
    and "disk s0 = disk st" "projectsPath s0 = projectsPath st" "devmapData s0 = devmapData st"
    and "languages s0 = languages st"
  shows "sync_languages s0 = Inr (s0\<lparr>languages := known_languages st\<rparr>)"
proof (cases "array_at (devmapData st) ''Languages''")
  case None
  then show ?thesis
    using assms(5,6) by (simp add: sync_languages_def known_languages_def)
next
  case (Some ls)
  have ls: "ls = map JString (string_elements ls)"
    using assms(2) Some by (simp add: languages_are_strings_def)
  have k: "known_languages st = string_elements ls"
    using Some by (simp add: known_languages_def)
  have "list_all (\<lambda>l. exists (disk (s0\<lparr>languages := []\<rparr>))
                        (path_append (projectsPath (s0\<lparr>languages := []\<rparr>)) l) = Inr True)
          (string_elements ls)"
    using assms(1,3,4) k by (simp add: consistent_def)
  from languages_loop_existing[OF this] have
    "languages_loop (s0\<lparr>languages := []\<rparr>) (map JString (string_elements ls))
       = Inr (s0\<lparr>languages := string_elements ls\<rparr>)"
    by simp
  then show ?thesis
    using Some ls k assms(5) by (simp add: sync_languages_def)
qed

lemma loaded_settled:
  assumes "consistent st"
    and "list_all2 (\<lambda>pd proj. project_of_json env pd = Inr proj) (declared_projects (devmapData st)) projs"
  shows "list_all (\<lambda>proj. settled_directory st (lang proj) (folderName proj)) projs"
proof -
  have h: "list_all (\<lambda>pd. case record_identity pd of
                          None \<Rightarrow> False
                        | Some (l, f) \<Rightarrow> settled_directory st l f)
          (declared_projects (devmapData st))"
    using assms(1) by (simp add: consistent_def)
  show ?thesis
    using assms(2) h
  proof (induction rule: list_all2_induct)
    case Nil
    show ?case by simp
  next
    case (Cons pd ps proj projs)
    have "record_identity pd = Some (lang proj, folderName proj)"
      using project_of_json_fields[OF Cons.hyps(1)] by (simp add: record_identity_def)
    then show ?case
      using Cons by simp
  qed
qed

lemma discover_projects_consistent:
  assumes "consistent st"
    and "disk s5 = disk st" "projectsPath s5 = projectsPath st"
    and "languages s5 = known_languages st"
    and "map (\<lambda>p. Some (lang p, folderName p)) (projects s5)
           = map record_identity (declared_projects (devmapData st))"
  shows "discover_projects env s5 = Inr s5"
proof -
  have found: "list_ex (\<lambda>proj. folderName proj = entry \<and> lang proj = l) (projects s5)"
    if "Some (l, entry) \<in> set (map record_identity (declared_projects (devmapData st)))" for l entry
  proof -
    from that have "Some (l, entry) \<in> set (map (\<lambda>p. Some (lang p, folderName p)) (projects s5))"
      using assms(5) by simp
    then show ?thesis
      by (auto simp add: list_ex_iff)
  qed
  have sub: "all_subdirectories (disk s5) (path_append (projectsPath s5) l)
               (\<lambda>entry. list_ex (\<lambda>proj. folderName proj = entry \<and> lang proj = l) (projects s5))"
    if "all_subdirectories (disk st) (path_append (projectsPath st) l)
          (\<lambda>entry. Some (l, entry) \<in> set (map record_identity (declared_projects (devmapData st))))" for l
    using that assms(2,3) found
    by (auto simp add: all_subdirectories_def list_all_iff split: sum.splits)
  have "list_all (\<lambda>l. exists (disk s5) (path_append (projectsPath s5) l) = Inr True
               \<and> all_subdirectories (disk s5) (path_append (projectsPath s5) l)
                    (\<lambda>entry. list_ex (\<lambda>proj. folderName proj = entry \<and> lang proj = l) (projects s5)))
          (known_languages st)"
    using assms(1,2,3) sub by (simp add: consistent_def list_all_iff)
  then show ?thesis
    using assms(4) by (simp add: discover_projects_def discover_languages_loop_known)
qed

lemma project_path_cong:
  "projectsPath s = projectsPath st \<Longrightarrow> project_path s l f = project_path st l f"
  by (simp add: project_path_def)

lemma sync_consistent:
  assumes c: "consistent st" and ls: "languages_are_strings st"
  shows "\<exists>msgs. syncDevMap env st =
     bind_result (projects_loop env [] (declared_projects (devmapData st))) (\<lambda>loadedp.
     bind_result
       (refresh_projects
          (st\<lparr>users := fold (\<lambda>proj us. insort_insert (createdBy proj) us) loadedp [],
              languages := known_languages st, projects := loadedp,
              console := console st @ msgs\<rparr>)) (\<lambda>s5.
     bind_result (update_users s5) (\<lambda>s7. Inr (write_file env s7))))"
proof -
  define s1 where "s1 = st\<lparr>users := [], languages := known_languages st\<rparr>"
  have p1: "sync_languages (st\<lparr>users := []\<rparr>) = Inr s1"
    using sync_languages_consistent[OF c ls, of "st\<lparr>users := []\<rparr>"] by (simp add: s1_def)
  have "all_subdirectories (disk s1) (projectsPath s1) (\<lambda>entry. entry \<in> set (languages s1))"
    using c by (simp add: consistent_def s1_def)
  then have p2: "scan_languages s1 = Inr s1"
    by (rule scan_languages_known)
  have d1: "declared_projects (devmapData s1) = declared_projects (devmapData st)"
    by (simp add: s1_def)
  show ?thesis
  proof (cases "projects_loop env [] (declared_projects (devmapData st))")
    case (Inl e)
    then have "syncDevMap env st =
     bind_result (projects_loop env [] (declared_projects (devmapData st))) (\<lambda>loadedp.
     bind_result
       (refresh_projects
          (st\<lparr>users := fold (\<lambda>proj us. insort_insert (createdBy proj) us) loadedp [],
              languages := known_languages st, projects := loadedp,
              console := console st @ []\<rparr>)) (\<lambda>s5.
     bind_result (update_users s5) (\<lambda>s7. Inr (write_file env s7))))"
      using p1 p2 d1 by (simp add: syncDevMap_def load_projects_declared)
    then show ?thesis by (rule exI)
  next
    case (Inr loadedp)
    from projects_loop_result[OF Inr] have
      l: "list_all2 (\<lambda>pd proj. project_of_json env pd = Inr proj)
            (declared_projects (devmapData st)) loadedp"
      by simp
    define s3 where "s3 = s1\<lparr>projects := loadedp\<rparr>"
    have p3: "load_projects env s1 = Inr s3"
      using Inr d1 by (simp add: load_projects_declared s3_def)
    have s3_same: "disk s3 = disk st" "projectsPath s3 = projectsPath st"
      by (simp_all add: s3_def s1_def)
    have "list_all (\<lambda>proj. settled_directory s3 (lang proj) (folderName proj)) loadedp"
      using loaded_settled[OF c l] by (simp add: settled_directory_cong[OF s3_same])
    from ensure_loop_settled[OF this] obtain msgs where
      e4: "ensure_loop s3 loadedp
             = Inr (s3\<lparr>users := fold (\<lambda>proj us. insort_insert (createdBy proj) us) loadedp (users s3),
                        console := console s3 @ msgs\<rparr>)"
      by blast
    define s4 where "s4 = st\<lparr>users := fold (\<lambda>proj us. insort_insert (createdBy proj) us) loadedp [],
                               languages := known_languages st, projects := loadedp,
                               console := console st @ msgs\<rparr>"
    have p4: "ensure_directories s3 = Inr s4"
      using e4 by (simp add: ensure_directories_def s3_def s1_def s4_def)
    have "syncDevMap env st =
     bind_result (projects_loop env [] (declared_projects (devmapData st))) (\<lambda>loadedp.
     bind_result
       (refresh_projects
          (st\<lparr>users := fold (\<lambda>proj us. insort_insert (createdBy proj) us) loadedp [],
              languages := known_languages st, projects := loadedp,
              console := console st @ msgs\<rparr>)) (\<lambda>s5.
     bind_result (update_users s5) (\<lambda>s7. Inr (write_file env s7))))"
    proof (cases "refresh_projects s4")
      case (Inl e)
      then show ?thesis
        using p1 p2 p3 p4 Inr by (simp add: syncDevMap_def s4_def)
    next
      case r: (Inr s5)
      note f5 = refresh_projects_result[OF r]
      have rp: "list_all2 (refreshed_project s4) loadedp (projects s5)"
        using f5 by (simp add: s4_def)
      have "map (\<lambda>p. Some (lang p, folderName p)) (projects s5)
              = map record_identity (declared_projects (devmapData st))"
        using refreshed_projects_same(1)[OF rp] loaded_identities[OF l] by simp
      then have p6: "discover_projects env s5 = Inr s5"
        using f5 by (intro discover_projects_consistent[OF c]) (simp_all add: s4_def)
      show ?thesis
        using p1 p2 p3 p4 Inr r p6 by (simp add: syncDevMap_def s4_def[symmetric])
    qed
    then show ?thesis by (rule exI)
  qed
qed

lemma set_key_triv: "get_key j k = Some v \<Longrightarrow> set_key j k v = Inr j"
  by (auto simp add: get_key_def set_key_def update_triv split: json.splits)

lemma refreshed_record_fresh:
  assumes r: "refreshed_record st pd pd'"
    and e: "case record_identity pd of None \<Rightarrow> False
            | Some (l, f) \<Rightarrow> settled_directory st l f"
    and s: "disk s = disk st" "projectsPath s = projectsPath st"
  shows "fresh_record s pd'"
proof -
  from r obtain l f where
    l: "value_string pd ''lang'' [] = Inr l" and f: "value_string pd ''folderName'' [] = Inr f"
    by (auto simp add: refreshed_record_def)
  have l': "value_string pd' ''lang'' [] = Inr l" and f': "value_string pd' ''folderName'' [] = Inr f"
    using refreshed_record_value_string[OF r _ _ l] refreshed_record_value_string[OF r _ _ f]
    by simp_all
  have i: "record_identity pd = Some (l, f)"
    using l f by (simp add: record_identity_def)
  with e have "settled_directory st l f"
    by simp
  then obtain b where b: "is_directory (disk st) (project_path st l f) = Inr b"
    using settled_directory_status by blast
  have p: "project_path s l f = project_path st l f"
    using s(2) by (simp add: project_path_def)
  show ?thesis
  proof (cases b)
    case False
    then show ?thesis
      using l' f' b s(1) p unfolding fresh_record_def by auto
  next
    case True
    then have "record_directory st pd"
      using i b by (simp add: record_directory_def)
    from refreshed_record_present[OF r this] obtain sz git where
      "getFolderSize (disk st) (project_path st l f) = Inr sz"
      "usesGit (disk st) (project_path st l f) = Inr git"
      "get_key pd' ''size'' = Some (JNumber (uint sz))"
      "get_key pd' ''git'' = Some (JBool git)"
      using i by auto
    then show ?thesis
      using l' f' b s(1) p unfolding fresh_record_def
      by (auto simp add: set_key_triv)
  qed
qed

lemma refresh_loop_fresh:
  "list_all (fresh_record st) ps \<Longrightarrow> \<exists>projs'. refresh_loop st projs ps = Inr (ps, projs')"
proof (induction ps arbitrary: projs)
  case Nil
  show ?case by simp
next
  case (Cons pd ps)
  from Cons.prems have fr: "fresh_record st pd" and rest: "list_all (fresh_record st) ps"
    by simp_all
  from fr obtain l f b where
    l: "value_string pd ''lang'' [] = Inr l" and f: "value_string pd ''folderName'' [] = Inr f" and
    d: "is_directory (disk st) (project_path st l f) = Inr b" and
    c: "b \<longrightarrow> (\<exists>sz git.
                getFolderSize (disk st) (project_path st l f) = Inr sz
                \<and> usesGit (disk st) (project_path st l f) = Inr git
                \<and> set_key pd ''size'' (JNumber (uint sz)) = Inr pd
                \<and> set_key pd ''git'' (JBool git) = Inr pd)"
    unfolding fresh_record_def by blast
  show ?case
  proof (cases b)
    case False
    from Cons.IH[OF rest, of projs] obtain projs' where "refresh_loop st projs ps = Inr (ps, projs')"
      by blast
    then show ?thesis
      using l f d False by (simp add: Let_def exists_guard)
  next
    case True
    with c obtain sz git where
      p: "getFolderSize (disk st) (project_path st l f) = Inr sz"
         "usesGit (disk st) (project_path st l f) = Inr git"
         "set_key pd ''size'' (JNumber (uint sz)) = Inr pd"
         "set_key pd ''git'' (JBool git) = Inr pd"
      by blast
    from Cons.IH[OF rest, of "update_first f l sz git projs"] obtain projs' where
      "refresh_loop st (update_first f l sz git projs) ps = Inr (ps, projs')"
      by blast
    then show ?thesis
      using l f d True p by (simp add: Let_def exists_guard)
  qed
qed

lemma refresh_projects_fresh:
  assumes "list_all (fresh_record st) (declared_projects (devmapData st))"
  shows "\<exists>projs'. refresh_projects st = Inr (st\<lparr>projects := projs'\<rparr>)"
proof (cases "array_at (devmapData st) ''Projects''")
  case None
  then have "refresh_projects st = Inr (st\<lparr>projects := projects st\<rparr>)"
    by (simp add: refresh_projects_def)
  then show ?thesis by blast
next
  case (Some ps)
  then have g: "get_key (devmapData st) ''Projects'' = Some (JArray ps)"
    by (auto simp add: array_at_def split: option.splits json.splits)
  have "list_all (fresh_record st) ps"
    using assms Some by (simp add: declared_projects_def)
  from refresh_loop_fresh[OF this, of "projects st"] obtain projs' where
    "refresh_loop st (projects st) ps = Inr (ps, projs')"
    by blast
  then have "refresh_projects st = Inr (st\<lparr>projects := projs'\<rparr>)"
    using Some set_key_triv[OF g] by (simp add: refresh_projects_def)
  then show ?thesis by blast
qed

lemma insert_users_strings:
  "insert_users us (map JString strs) = Inr (fold insort_insert strs us)"
  by (induction strs arbitrary: us) (simp_all add: get_string_def)

lemma fold_insort_insert_absorb:
  assumes "sorted xs" "distinct xs" "sorted ys" "distinct ys" "set ys \<subseteq> set xs"
  shows "fold insort_insert xs ys = xs"
proof -
  have "set (fold insort_insert xs ys) = set xs"
    using assms(5) by (auto simp add: fold_insort_insert_set')
  moreover have "sorted (fold insort_insert xs ys) \<and> distinct (fold insort_insert xs ys)"
    using fold_insort_insert_sorted'[OF assms(3,4)] by simp
  ultimately show ?thesis
    using assms(1,2) by (intro sorted_distinct_set_unique) simp_all
qed

lemma update_users_again:
  assumes u: "update_users s5 = Inr s7"
    and o: "sorted (users s5)" "distinct (users s5)"
    and d: "devmapData s' = devmapData s7" and us: "users s' = users s5"
  shows "update_users s' = Inr (s'\<lparr>users := users s7\<rparr>)"
proof (cases "array_at (devmapData s5) ''Users''")
  case None
  with update_users_result[OF u] have "s7 = s5" by simp
  then show ?thesis
    using None d us by (simp add: update_users_def)
next
  case (Some js)
  with update_users_result[OF u] have
    u7: "users s7 = fold insort_insert (string_elements js) (users s5)" and
    g7: "get_key (devmapData s7) ''Users'' = Some (JArray (map JString (users s7)))"
    by simp_all
  have a: "array_at (devmapData s') ''Users'' = Some (map JString (users s7))"
    using g7 d by (simp add: array_at_def)
  have s7: "sorted (users s7) \<and> distinct (users s7)"
    using u7 fold_insort_insert_sorted'[OF o] by simp
  have "set (users s5) \<subseteq> set (users s7)"
    using u7 by (simp add: fold_insort_insert_set')
  then have "fold insort_insert (users s7) (users s5) = users s7"
    using s7 o by (intro fold_insort_insert_absorb) simp_all
  then show ?thesis
    using a us set_key_triv[of "devmapData s'" "''Users''" "JArray (map JString (users s7))"] g7 d
    by (simp add: update_users_def insert_users_strings)
qed

lemma refreshed_record_loads:
  assumes r: "refreshed_record st pd pd'" and p: "project_of_json env pd = Inr proj"
  shows "\<exists>proj'. project_of_json env pd' = Inr proj' \<and> createdBy proj' = createdBy proj"
proof (cases "pd' = pd")
  case True
  then show ?thesis using p by simp
next
  case False
  with r have "\<exists>(sz :: 64 word) git pd1. set_key pd ''size'' (JNumber (uint sz)) = Inr pd1
                 \<and> set_key pd1 ''git'' (JBool git) = Inr pd'"
    by (auto simp add: refreshed_record_def split: if_splits)
  then obtain sz :: "64 word" and git pd1 where
    s1: "set_key pd ''size'' (JNumber (uint sz)) = Inr pd1" and
    s2: "set_key pd1 ''git'' (JBool git) = Inr pd'"
    by blast
  from p obtain nm folder language creator createdAtStr where
    v: "value_string pd ''name'' [] = Inr nm" "value_string pd ''folderName'' [] = Inr folder"
       "value_string pd ''lang'' [] = Inr language" "value_string pd ''created_by'' [] = Inr creator"
       "value_string pd ''created_at'' [] = Inr createdAtStr"
    and c: "createdBy proj = creator"
    by (auto simp add: project_of_json_def bind_result_eq_Inr)
  have v': "value_string pd' ''name'' [] = Inr nm" "value_string pd' ''folderName'' [] = Inr folder"
       "value_string pd' ''lang'' [] = Inr language" "value_string pd' ''created_by'' [] = Inr creator"
       "value_string pd' ''created_at'' [] = Inr createdAtStr"
    using v by (auto intro!: refreshed_record_value_string[OF r])
  have g: "get_key pd' ''size'' = Some (JNumber (uint sz))" "get_key pd' ''git'' = Some (JBool git)"
    using set_key_other[OF s2, of "''size''"] set_key_same[OF s1] set_key_same[OF s2] by simp_all
  have "value_int pd' ''size'' 0 = Inr (word_of_int (uint sz))" "value_bool pd' ''git'' False = Inr git"
    using g by (auto simp add: get_key_def value_int_def value_bool_def split: json.splits)
  then show ?thesis
    using v' c by (simp add: project_of_json_def)
qed

lemma refreshed_records_load:
  assumes "list_all2 (refreshed_record st) ps ps'"
    and "list_all2 (\<lambda>pd proj. project_of_json env pd = Inr proj) ps projs"
  shows "\<exists>projs'. list_all2 (\<lambda>pd proj. project_of_json env pd = Inr proj) ps' projs'
           \<and> map createdBy projs' = map createdBy projs"
  using assms
proof (induction arbitrary: projs rule: list_all2_induct)
  case Nil
  then show ?case by simp
next
  case (Cons pd ps pd' ps')
  from Cons.prems obtain proj rest where projs: "projs = proj # rest"
    and p: "project_of_json env pd = Inr proj"
    and r: "list_all2 (\<lambda>pd proj. project_of_json env pd = Inr proj) ps rest"
    by (auto simp add: list_all2_Cons1)
  from refreshed_record_loads[OF Cons.hyps(1) p] obtain proj' where
    "project_of_json env pd' = Inr proj'" "createdBy proj' = createdBy proj"
    by blast
  moreover from Cons.IH[OF r] obtain rest' where
    "list_all2 (\<lambda>pd proj. project_of_json env pd = Inr proj) ps' rest'"
    "map createdBy rest' = map createdBy rest"
    by blast
  ultimately show ?case
    using projs by (intro exI[of _ "proj' # rest'"]) simp
qed

lemma refreshed_records_fresh:
  assumes "list_all2 (refreshed_record st) ps ps'"
    and "list_all (\<lambda>pd. case record_identity pd of None \<Rightarrow> False
                        | Some (l, f) \<Rightarrow> settled_directory st l f) ps"
    and "disk s = disk st" "projectsPath s = projectsPath st"
  shows "list_all (fresh_record s) ps'"
  using assms(1,2)
  by (induction rule: list_all2_induct) (simp_all add: refreshed_record_fresh[OF _ _ assms(3,4)])

lemma consistent_transfer:
  assumes c: "consistent st"
    and s: "disk s = disk st" "projectsPath s = projectsPath st"
    and k: "known_languages s = known_languages st"
    and i: "map record_identity (declared_projects (devmapData s))
              = map record_identity (declared_projects (devmapData st))"
  shows "consistent s"
proof -
  have "list_all (\<lambda>x. case x of None \<Rightarrow> False | Some (l, f) \<Rightarrow> settled_directory st l f)
          (map record_identity (declared_projects (devmapData st)))"
    using c by (simp add: consistent_def list_all_iff)
  then have "list_all (\<lambda>x. case x of None \<Rightarrow> False | Some (l, f) \<Rightarrow> settled_directory st l f)
          (map record_identity (declared_projects (devmapData s)))"
    using i by simp
  then have h3: "list_all (\<lambda>pd. case record_identity pd of None \<Rightarrow> False
                      | Some (l, f) \<Rightarrow> settled_directory s l f)
          (declared_projects (devmapData s))"
    using settled_directory_cong[OF s]
    by (auto simp add: list_all_iff split: option.splits)
  show ?thesis
    using c h3 s k i unfolding consistent_def by simp
qed

lemma fold_created_by:
  "fold (\<lambda>proj us. insort_insert (createdBy proj) us) projs us
     = fold insort_insert (map createdBy projs) us"
  by (simp add: fold_map comp_def)

lemma sync_languages_strings:
  assumes "syncDevMap env st = Inr st1"
  shows "languages_are_strings st"
proof (cases "array_at (devmapData st) ''Languages''")
  case None
  then show ?thesis by (simp add: languages_are_strings_def)
next
  case (Some ls)
  from syncDevMap_phases[OF assms] obtain s1 where
    "sync_languages (st\<lparr>users := []\<rparr>) = Inr s1"
    by blast
  with Some have "languages_loop (st\<lparr>users := [], languages := []\<rparr>) ls = Inr s1"
    by (simp add: sync_languages_def)
  from languages_loop_strings[OF this] show ?thesis
    using Some by (simp add: languages_are_strings_def)
qed

lemma bind_result_InrE:
  assumes "bind_result m f = Inr y"
  obtains x where "m = Inr x" and "f x = Inr y"
  using assms by (auto simp add: bind_result_eq_Inr)

text \<open>
  With no two projects of the same language and folder name, phase 4.5 writes the
  probes of each record into the project that was loaded from it.
\<close>

lemma update_first_other:
  "\<forall>p \<in> set pre. \<not> (folderName p = f \<and> lang p = l) \<Longrightarrow>
     update_first f l sz git (pre @ rest) = pre @ update_first f l sz git rest"
  by (induction pre) auto

lemma distinct_map_Some: "distinct (map (\<lambda>x. Some (f x)) xs) \<Longrightarrow> distinct (map f xs)"
  by (induction xs) auto

lemma not_exists_not_directory:
  "exists fs p = Inr False \<Longrightarrow> is_directory fs p = Inr False"
  by (cases "status fs p") (auto simp add: exists_def is_directory_def is_dir_node_def)

lemma refresh_loop_exact:
  assumes "refresh_loop st (pre @ cur) ps = Inr (ps', projs')"
    and "list_all2 (\<lambda>pd p. record_identity pd = Some (lang p, folderName p)) ps cur"
    and "distinct (map (\<lambda>p. (lang p, folderName p)) (pre @ cur))"
  shows "\<exists>cur'. projs' = pre @ cur' \<and> list_all2 (probed_project st) cur cur'"
  using assms
proof (induction ps arbitrary: pre cur ps' projs')
  case Nil
  then show ?case by simp
next
  case (Cons pd ps)
  from Cons.prems(2) obtain p rest where cur: "cur = p # rest"
    and i: "record_identity pd = Some (lang p, folderName p)"
    and al: "list_all2 (\<lambda>pd p. record_identity pd = Some (lang p, folderName p)) ps rest"
    by (auto simp add: list_all2_Cons1)
  have v: "value_string pd ''lang'' [] = Inr (lang p)" "value_string pd ''folderName'' [] = Inr (folderName p)"
    using i by (auto simp add: record_identity_def split: sum.splits)
  have "(lang p, folderName p) \<notin> (\<lambda>p. (lang p, folderName p)) ` set pre"
    using Cons.prems(3) unfolding cur by simp
  then have npre: "\<forall>q \<in> set pre. \<not> (folderName q = folderName p \<and> lang q = lang p)"
    by (auto simp add: image_iff)
  let ?path = "project_path st (lang p) (folderName p)"
  from Cons.prems(1) obtain ex isdir where
    ex: "exists (disk st) ?path = Inr ex" and
    isdir: "(if ex then is_directory (disk st) ?path else Inr False) = Inr isdir"
    unfolding cur by (auto simp add: v Let_def bind_result_eq_Inr)
  have dir: "is_directory (disk st) ?path = Inr isdir"
    using ex isdir not_exists_not_directory[of "disk st" ?path] by (cases ex) simp_all
  show ?case
  proof (cases isdir)
    case False
    from Cons.prems(1) obtain rest' where
      r: "refresh_loop st ((pre @ [p]) @ rest) ps = Inr (rest', projs')"
      unfolding cur using ex isdir False
      by (auto simp add: v Let_def bind_result_eq_Inr)
    have d: "distinct (map (\<lambda>p. (lang p, folderName p)) ((pre @ [p]) @ rest))"
      using Cons.prems(3) unfolding cur by simp
    from Cons.IH[OF r al d] obtain cur' where
      c: "projs' = (pre @ [p]) @ cur'" "list_all2 (probed_project st) rest cur'"
      by blast
    have "probed_project st p p"
      using dir False by (simp add: probed_project_def project_directory_def)
    then show ?thesis
      using c unfolding cur by (intro exI[of _ "p # cur'"]) simp
  next
    case True
    from Cons.prems(1) obtain sz git rest' where
      sz: "getFolderSize (disk st) ?path = Inr sz" and
      git: "usesGit (disk st) ?path = Inr git" and
      r0: "refresh_loop st (update_first (folderName p) (lang p) sz git (pre @ p # rest)) ps
             = Inr (rest', projs')"
      unfolding cur using ex isdir True
      by (auto simp add: v Let_def bind_result_eq_Inr)
    define p' where "p' = p\<lparr>size_bytes := sz, uses_git := git\<rparr>"
    have "update_first (folderName p) (lang p) sz git (pre @ p # rest) = (pre @ [p']) @ rest"
      using update_first_other[OF npre, of sz git "p # rest"] by (simp add: p'_def)
    then have r: "refresh_loop st ((pre @ [p']) @ rest) ps = Inr (rest', projs')"
      using r0 by simp
    have d: "distinct (map (\<lambda>p. (lang p, folderName p)) ((pre @ [p']) @ rest))"
      using Cons.prems(3) unfolding cur by (simp add: p'_def)
    from Cons.IH[OF r al d] obtain cur' where
      c: "projs' = (pre @ [p']) @ cur'" "list_all2 (probed_project st) rest cur'"
      by blast
    have "probed_project st p p'"
      using dir True sz git by (simp add: probed_project_def project_directory_def p'_def)
    then show ?thesis
      using c unfolding cur by (intro exI[of _ "p' # cur'"]) simp
  qed
qed

lemma refresh_projects_exact:
  assumes r: "refresh_projects st = Inr st'"
    and l: "list_all2 (\<lambda>pd proj. project_of_json env pd = Inr proj)
              (declared_projects (devmapData st)) (projects st)"
    and d: "distinct (map record_identity (declared_projects (devmapData st)))"
  shows "list_all2 (probed_project st) (projects st) (projects st')"
proof (cases "array_at (devmapData st) ''Projects''")
  case None
  then have "declared_projects (devmapData st) = []"
    by (simp add: declared_projects_def)
  then have "projects st = []" using l by simp
  moreover have "st' = st" using refresh_projects_result[OF r] None by simp
  ultimately show ?thesis by simp
next
  case (Some ps)
  then have ps: "declared_projects (devmapData st) = ps"
    by (simp add: declared_projects_def)
  from r Some obtain ps' projs' j where
    lp: "refresh_loop st (projects st) ps = Inr (ps', projs')" and
    st': "st' = st\<lparr>devmapData := j, projects := projs'\<rparr>"
    by (auto simp add: refresh_projects_def bind_result_eq_Inr)
  have i: "map record_identity ps = map (\<lambda>p. Some (lang p, folderName p)) (projects st)"
    using loaded_identities[OF l] ps by simp
  have al: "list_all2 (\<lambda>pd p. record_identity pd = Some (lang p, folderName p)) ps (projects st)"
    using l unfolding ps
    by (rule list_all2_mono) (auto simp add: record_identity_def dest!: project_of_json_fields)
  have "distinct (map (\<lambda>p. Some (lang p, folderName p)) (projects st))"
    using d i ps by simp
  then have di: "distinct (map (\<lambda>p. (lang p, folderName p)) ([] @ projects st))"
    using distinct_map_Some[of "\<lambda>p. (lang p, folderName p)" "projects st"] by simp
  from refresh_loop_exact[of st "[]" "projects st" ps ps' projs', OF _ al di] lp
  show ?thesis
    using st' by auto
qed


text \<open>
  A record that phase 4.5 has refreshed loads as a project that phase 4.5 of another
  pass, on the same disk, turns into what the first made of the project.
\<close>

lemma refreshed_twice:
  assumes r: "refreshed_record st pd pd'"
    and p: "project_of_json env pd = Inr proj" and p': "project_of_json env pd' = Inr proj'"
    and a: "probed_project st proj q" and b: "probed_project s' proj' q'"
    and s: "disk s' = disk st" "projectsPath s' = projectsPath st"
  shows "q' = q"
proof -
  from r obtain language folder where
    v: "value_string pd ''lang'' [] = Inr language" "value_string pd ''folderName'' [] = Inr folder"
    by (auto simp add: refreshed_record_def)
  have f: "lang proj = language" "folderName proj = folder"
    using project_of_json_fields[OF p] v by simp_all
  have path: "project_path s' language folder = project_path st language folder"
    using s(2) by (simp add: project_path_def)
  show ?thesis
  proof (cases "is_directory (disk st) (project_path st language folder) = Inr True")
    case False
    then have "pd' = pd"
      using r v by (auto simp add: refreshed_record_def)
    then have "proj' = proj" using p p' by simp
    then show ?thesis
      using a b False f s(1) path by (simp add: probed_project_def project_directory_def)
  next
    case True
    from p obtain nm creator createdAtStr sz0 git0 where
      w: "value_string pd ''name'' [] = Inr nm" "value_string pd ''created_by'' [] = Inr creator"
         "value_string pd ''created_at'' [] = Inr createdAtStr"
      and pr: "proj = \<lparr>name = nm, folderName = folder, lang = language, createdBy = creator,
                       createdAt = parseTime env createdAtStr, size_bytes = sz0, uses_git = git0\<rparr>"
      using v by (auto simp add: project_of_json_def bind_result_eq_Inr)
    have v': "value_string pd' ''name'' [] = Inr nm" "value_string pd' ''folderName'' [] = Inr folder"
         "value_string pd' ''lang'' [] = Inr language" "value_string pd' ''created_by'' [] = Inr creator"
         "value_string pd' ''created_at'' [] = Inr createdAtStr"
      using v w by (auto intro!: refreshed_record_value_string[OF r])
    from p' v' obtain sz1 git1 where
      pr': "proj' = \<lparr>name = nm, folderName = folder, lang = language, createdBy = creator,
                       createdAt = parseTime env createdAtStr, size_bytes = sz1, uses_git = git1\<rparr>"
      by (auto simp add: project_of_json_def bind_result_eq_Inr)
    from a True f obtain sz git where
      q: "getFolderSize (disk st) (project_path st language folder) = Inr sz"
         "usesGit (disk st) (project_path st language folder) = Inr git"
         "q = proj\<lparr>size_bytes := sz, uses_git := git\<rparr>"
      by (auto simp add: probed_project_def project_directory_def)
    have "q' = proj'\<lparr>size_bytes := sz, uses_git := git\<rparr>"
      using b True q(1,2) pr' s(1) path by (auto simp add: probed_project_def project_directory_def)
    then show ?thesis
      using q(3) pr pr' by simp
  qed
qed

lemma refreshed_twice_all:
  assumes rj: "list_all2 (refreshed_record st) ps ps'"
    and l: "list_all2 (\<lambda>pd proj. project_of_json env pd = Inr proj) ps projs"
    and l': "list_all2 (\<lambda>pd proj. project_of_json env pd = Inr proj) ps' projs'"
    and a: "list_all2 (probed_project st) projs qs"
    and b: "list_all2 (probed_project s') projs' qs'"
    and s: "disk s' = disk st" "projectsPath s' = projectsPath st"
  shows "qs' = qs"
proof (rule nth_equalityI)
  note lens = list_all2_lengthD[OF rj] list_all2_lengthD[OF l] list_all2_lengthD[OF l']
    list_all2_lengthD[OF a] list_all2_lengthD[OF b]
  show len: "length qs' = length qs"
    using lens by simp
  fix i assume i: "i < length qs'"
  have n: "i < length ps" "i < length ps'" "i < length projs" "i < length projs'" "i < length qs"
    using i lens by simp_all
  show "qs' ! i = qs ! i"
    using refreshed_twice[OF list_all2_nthD[OF rj n(1)] list_all2_nthD[OF l n(1)]
        list_all2_nthD[OF l' n(2)] list_all2_nthD[OF a n(3)] list_all2_nthD[OF b n(4)] s] .
qed

text \<open>The languages vector and the languages the registry lists.\<close>

lemma languages_loop_languages:
  "languages_loop st ls = Inr st' \<Longrightarrow> languages st' = languages st @ string_elements ls"
proof (induction ls arbitrary: st)
  case Nil
  then show ?case by (simp add: string_elements_def List.map_filter_simps)
next
  case (Cons l ls)
  from Cons.prems obtain s st1 where l: "l = JString s" and r: "languages_loop st1 ls = Inr st'"
    and st1: "languages st1 = languages st @ [s]"
    by (auto simp add: bind_result_eq_Inr get_string_def Let_def
        split: json.splits if_splits prod.splits option.splits)
  show ?case
    using Cons.IH[OF r] l st1 by (simp add: string_elements_def List.map_filter_simps)
qed

lemma sync_languages_listed:
  assumes "sync_languages s0 = Inr s1"
    and "array_at (devmapData s0) ''Languages'' \<noteq> None \<or> languages s0 = []"
  shows "languages_listed s1"
proof (cases "array_at (devmapData s0) ''Languages''")
  case None
  then show ?thesis
    using assms by (simp add: sync_languages_def languages_listed_def)
next
  case (Some ls)
  then have r: "languages_loop (s0\<lparr>languages := []\<rparr>) ls = Inr s1"
    using assms(1) by (simp add: sync_languages_def)
  have "devmapData s1 = devmapData s0"
    using languages_loop_frame[OF r] by simp
  then show ?thesis
    using Some languages_loop_languages[OF r] languages_loop_strings[OF r]
    by (simp add: languages_listed_def)
qed

lemma scan_loop_listed:
  "scan_loop st loc es = Inr st' \<Longrightarrow> languages_listed st \<Longrightarrow> languages_listed st'"
proof (induction es arbitrary: st)
  case Nil
  then show ?case by simp
next
  case (Cons e es)
  obtain langDir n where e: "e = (langDir, n)" by (cases e)
  from Cons.prems(1) consider
      (skip) "scan_loop st loc es = Inr st'"
    | (add) j where "push_back_at (devmapData st) ''Languages'' (JString langDir) = Inr j"
        "scan_loop (st\<lparr>languages := languages st @ [langDir], devmapData := j,
                       console := console st @
                         [PrintInfo (''Added new language from filesystem to DevMap: '' @ langDir)]\<rparr>)
           loc es = Inr st'"
    unfolding e by (auto simp add: bind_result_eq_Inr split: if_splits)
  then show ?case
  proof cases
    case skip
    then show ?thesis using Cons.IH Cons.prems(2) by blast
  next
    case add
    have "languages_listed (st\<lparr>languages := languages st @ [langDir], devmapData := j,
                       console := console st @
                         [PrintInfo (''Added new language from filesystem to DevMap: '' @ langDir)]\<rparr>)"
      using push_back_at_same[OF add(1)] Cons.prems(2)
      by (auto simp add: languages_listed_def split: option.splits)
    then show ?thesis using Cons.IH[OF add(2)] by blast
  qed
qed

lemma scan_languages_listed:
  "scan_languages st = Inr st' \<Longrightarrow> languages_listed st \<Longrightarrow> languages_listed st'"
  by (auto simp add: scan_languages_def bind_result_eq_Inr dest: scan_loop_listed)

lemma languages_listed_known:
  assumes "languages_listed st"
  shows "languages_are_strings st" "known_languages st = languages st"
  using assms
  by (auto simp add: languages_listed_def languages_are_strings_def known_languages_def
      split: option.splits)

text \<open>Phase 5 adds as many projects to the vector as records to the registry.\<close>

lemma discover_loop_counts:
  "discover_loop env st language loc es = Inr st' \<Longrightarrow>
     length (projects st') + length (declared_projects (devmapData st))
       = length (projects st) + length (declared_projects (devmapData st'))"
proof (induction es arbitrary: st)
  case Nil
  then show ?case by simp
next
  case (Cons e es)
  obtain folder n where e: "e = (folder, n)" by (cases e)
  from Cons.prems show ?case
    unfolding e
    by (auto simp add: bind_result_eq_Inr Let_def split: if_splits
        dest!: Cons.IH dest: declared_projects_push_back)
qed

lemma discover_languages_loop_counts:
  "discover_languages_loop env st ls = Inr st' \<Longrightarrow>
     length (projects st') + length (declared_projects (devmapData st))
       = length (projects st) + length (declared_projects (devmapData st'))"
proof (induction ls arbitrary: st)
  case Nil
  then show ?case by simp
next
  case (Cons l ls)
  from Cons.prems show ?case
    by (auto simp add: bind_result_eq_Inr Let_def split: if_splits
        dest!: Cons.IH discover_loop_counts)
qed

lemma discover_nothing:
  assumes "discover_projects env s5 = Inr s6"
    and "length (declared_projects (devmapData s6)) = length (declared_projects (devmapData s5))"
  shows "projects s6 = projects s5" "declared_projects (devmapData s6) = declared_projects (devmapData s5)"
proof -
  note f = discover_languages_loop_frame[OF assms(1)[unfolded discover_projects_def]]
  note c = discover_languages_loop_counts[OF assms(1)[unfolded discover_projects_def]]
  from f obtain news newj where
    n: "projects s6 = projects s5 @ news"
       "declared_projects (devmapData s6) = declared_projects (devmapData s5) @ newj"
    by blast
  show "projects s6 = projects s5"
    using n(1) c assms(2) by simp
  show "declared_projects (devmapData s6) = declared_projects (devmapData s5)"
    using n(2) assms(2) by simp
qed


text \<open>
  When the registry and the disk agree, a pass that returns leaves the disk as it was
  and registers no project, and the registry it leaves and the disk agree.
\<close>

lemma consistent_settles:
  assumes c: "consistent st" and p: "syncDevMap env st = Inr st1"
  shows "consistent st1
     \<and> length (declared_projects (devmapData st1)) = length (declared_projects (devmapData st))
     \<and> disk st1 = disk st"
proof -
  note ls = sync_languages_strings[OF p]
  from sync_consistent[OF c ls, of env] obtain msgs where
    sc: "syncDevMap env st =
     bind_result (projects_loop env [] (declared_projects (devmapData st))) (\<lambda>loadedp.
     bind_result
       (refresh_projects
          (st\<lparr>users := fold (\<lambda>proj us. insort_insert (createdBy proj) us) loadedp [],
              languages := known_languages st, projects := loadedp,
              console := console st @ msgs\<rparr>)) (\<lambda>s5.
     bind_result (update_users s5) (\<lambda>s7. Inr (write_file env s7))))"
    by blast
  have e1: "bind_result (projects_loop env [] (declared_projects (devmapData st))) (\<lambda>loadedp.
     bind_result
       (refresh_projects
          (st\<lparr>users := fold (\<lambda>proj us. insort_insert (createdBy proj) us) loadedp [],
              languages := known_languages st, projects := loadedp,
              console := console st @ msgs\<rparr>)) (\<lambda>s5.
     bind_result (update_users s5) (\<lambda>s7. Inr (write_file env s7)))) = Inr st1"
    using p unfolding sc .
  from e1 obtain loadedp where
    pl: "projects_loop env [] (declared_projects (devmapData st)) = Inr loadedp" and
    e2: "bind_result
       (refresh_projects
          (st\<lparr>users := fold (\<lambda>proj us. insort_insert (createdBy proj) us) loadedp [],
              languages := known_languages st, projects := loadedp,
              console := console st @ msgs\<rparr>)) (\<lambda>s5.
     bind_result (update_users s5) (\<lambda>s7. Inr (write_file env s7))) = Inr st1"
    by (rule bind_result_InrE)
  define s4 where "s4 = st\<lparr>users := fold (\<lambda>proj us. insort_insert (createdBy proj) us) loadedp [],
                             languages := known_languages st, projects := loadedp,
                             console := console st @ msgs\<rparr>"
  from e2 obtain s5 where
    r': "refresh_projects s4 = Inr s5" and
    e3: "bind_result (update_users s5) (\<lambda>s7. Inr (write_file env s7)) = Inr st1"
    unfolding s4_def[symmetric] by (rule bind_result_InrE)
  from e3 obtain s7 where
    u: "update_users s5 = Inr s7" and st1': "Inr (write_file env s7) = (Inr st1 :: error + devmap)"
    by (rule bind_result_InrE)
  have st1: "st1 = write_file env s7"
    using st1' by simp
  note f5 = refresh_projects_result[OF r']
  note f7 = update_users_result[OF u]
  note f8 = write_file_frame[of env s7]
  have s4_fields: "disk s4 = disk st" "projectsPath s4 = projectsPath st"
    "devmapData s4 = devmapData st" "languages s4 = known_languages st"
    by (simp_all add: s4_def)
  have rj: "list_all2 (refreshed_record s4) (declared_projects (devmapData st))
              (declared_projects (devmapData s5))"
    using f5 s4_fields(3) by simp
  have k7: "get_key (devmapData s7) ''Projects'' = get_key (devmapData s5) ''Projects''"
    using f7 by simp
  have d1: "declared_projects (devmapData st1) = declared_projects (devmapData s5)"
    using st1 f8 declared_projects_get_key[OF k7] by simp
  have disk1: "disk st1 = disk st"
    using st1 f8 f7 f5 s4_fields(1) by simp
  have path1: "projectsPath st1 = projectsPath st"
    using st1 f7 f5 s4_fields(2) by (simp add: write_file_def)
  have lang1: "languages st1 = known_languages st"
    using st1 f8 f7 f5 s4_fields(4) by simp
  have "get_key (devmapData st1) ''Languages'' = get_key (devmapData st) ''Languages''"
    using st1 f8 f7 f5 s4_fields(3) by simp
  then have a1: "array_at (devmapData st1) ''Languages'' = array_at (devmapData st) ''Languages''"
    by (rule array_at_get_key)
  have k1: "known_languages st1 = known_languages st"
    using a1 lang1 by (simp add: known_languages_def split: option.splits)
  have i1: "map record_identity (declared_projects (devmapData st1))
              = map record_identity (declared_projects (devmapData st))"
    using refreshed_identities(1)[OF rj] d1 by simp
  have c1: "consistent st1"
    by (rule consistent_transfer[OF c disk1 path1 k1 i1])
  have n1: "length (declared_projects (devmapData st1)) = length (declared_projects (devmapData st))"
    using d1 list_all2_lengthD[OF rj] by simp
  show ?thesis
    by (intro conjI c1 n1 disk1)
qed




end
